(* ===== verification/Rust_Str.thy ===== *)
theory Rust_Str
  imports Prelude
begin

text \<open>
  The part of Rust's \<^verbatim>\<open>str\<close> and integer-parsing API the modelled crates call. A Rust
  string is the list of its UTF-8 bytes, one \<open>char\<close> per byte, so \<^verbatim>\<open>len()\<close> is
  \<open>length\<close> and the derived order is the byte-wise lexicographic one.
\<close>

section \<open>Bytes\<close>

definition byte :: "char \<Rightarrow> nat" where
  "byte c = of_char c"

definition is_ascii_lowercase :: "char \<Rightarrow> bool" where
  "is_ascii_lowercase c \<longleftrightarrow> 97 \<le> byte c \<and> byte c \<le> 122"

definition is_ascii_uppercase :: "char \<Rightarrow> bool" where
  "is_ascii_uppercase c \<longleftrightarrow> 65 \<le> byte c \<and> byte c \<le> 90"

definition is_ascii_digit :: "char \<Rightarrow> bool" where
  "is_ascii_digit c \<longleftrightarrow> 48 \<le> byte c \<and> byte c \<le> 57"

definition is_ascii_alphanumeric :: "char \<Rightarrow> bool" where
  "is_ascii_alphanumeric c \<longleftrightarrow> is_ascii_lowercase c \<or> is_ascii_uppercase c \<or> is_ascii_digit c"

definition is_ascii_hexdigit :: "char \<Rightarrow> bool" where
  "is_ascii_hexdigit c \<longleftrightarrow> is_ascii_digit c
     \<or> (97 \<le> byte c \<and> byte c \<le> 102) \<or> (65 \<le> byte c \<and> byte c \<le> 70)"

definition to_ascii_lowercase :: "char \<Rightarrow> char" where
  "to_ascii_lowercase c = (if is_ascii_uppercase c then char_of (byte c + 32) else c)"

definition eq_ignore_ascii_case :: "string \<Rightarrow> string \<Rightarrow> bool" where
  "eq_ignore_ascii_case a b \<longleftrightarrow> map to_ascii_lowercase a = map to_ascii_lowercase b"

text \<open>\<^verbatim>\<open>chars().count()\<close>: every byte but the UTF-8 continuation bytes starts a scalar value.\<close>

definition chars_count :: "string \<Rightarrow> nat" where
  "chars_count s = length (filter (\<lambda>c. \<not> (128 \<le> byte c \<and> byte c < 192)) s)"

text \<open>\<^verbatim>\<open>chars().take(n).collect()\<close>: up to the byte that starts the character after the \<open>n\<close>-th.\<close>

fun chars_take :: "nat \<Rightarrow> string \<Rightarrow> string" where
  "chars_take n [] = []"
| "chars_take n (c # s) =
     (if 128 \<le> byte c \<and> byte c < 192 then c # chars_take n s
      else case n of 0 \<Rightarrow> [] | Suc m \<Rightarrow> c # chars_take m s)"

text \<open>
  \<^verbatim>\<open>trim().is_empty()\<close>: the string is a sequence of Unicode \<^verbatim>\<open>White_Space\<close> characters,
  which are one, two or three bytes long in UTF-8.
\<close>

definition is_ws1 :: "char \<Rightarrow> bool" where
  "is_ws1 a \<longleftrightarrow> (9 \<le> byte a \<and> byte a \<le> 13) \<or> byte a = 32"

definition is_ws2 :: "char \<Rightarrow> char \<Rightarrow> bool" where
  "is_ws2 a b \<longleftrightarrow> byte a = 194 \<and> (byte b = 133 \<or> byte b = 160)"

definition is_ws3 :: "char \<Rightarrow> char \<Rightarrow> char \<Rightarrow> bool" where
  "is_ws3 a b c \<longleftrightarrow>
     (byte a = 225 \<and> byte b = 154 \<and> byte c = 128)
     \<or> (byte a = 226 \<and> byte b = 128 \<and>
          ((128 \<le> byte c \<and> byte c \<le> 138) \<or> byte c = 168 \<or> byte c = 169 \<or> byte c = 175))
     \<or> (byte a = 226 \<and> byte b = 129 \<and> byte c = 159)
     \<or> (byte a = 227 \<and> byte b = 128 \<and> byte c = 128)"

fun trim_is_empty :: "string \<Rightarrow> bool" where
  "trim_is_empty [] = True"
| "trim_is_empty (a # s) =
     (if is_ws1 a then trim_is_empty s
      else case s of
        [] \<Rightarrow> False
      | b # t \<Rightarrow>
          if is_ws2 a b then trim_is_empty t
          else (case t of [] \<Rightarrow> False | c # u \<Rightarrow> is_ws3 a b c \<and> trim_is_empty u))"

section \<open>Searching and cutting\<close>

definition starts_with :: "string \<Rightarrow> string \<Rightarrow> bool" where
  "starts_with p s \<longleftrightarrow> take (length p) s = p"

definition strip_prefix :: "string \<Rightarrow> string \<Rightarrow> string option" where
  "strip_prefix p s = (if starts_with p s then Some (drop (length p) s) else None)"

definition strip_suffix :: "string \<Rightarrow> string \<Rightarrow> string option" where
  "strip_suffix p s = map_option rev (strip_prefix (rev p) (rev s))"

fun contains_str :: "string \<Rightarrow> string \<Rightarrow> bool" where
  "contains_str p [] = (p = [])"
| "contains_str p (c # s) = (starts_with p (c # s) \<or> contains_str p s)"

fun split_once :: "string \<Rightarrow> string \<Rightarrow> (string \<times> string) option" where
  "split_once p [] = (if p = [] then Some ([], []) else None)"
| "split_once p (c # s) =
     (case strip_prefix p (c # s) of
        Some rest \<Rightarrow> Some ([], rest)
      | None \<Rightarrow> map_option (\<lambda>(a, b). (c # a, b)) (split_once p s))"

definition rsplit_once :: "char \<Rightarrow> string \<Rightarrow> (string \<times> string) option" where
  "rsplit_once c s = map_option (\<lambda>(a, b). (rev b, rev a)) (split_once [c] (rev s))"

text \<open>
  \<^verbatim>\<open>str::replace\<close> with a non-empty pattern: left to right, matches do not overlap. The
  callers here never pass an empty pattern.
\<close>

function str_replace :: "string \<Rightarrow> string \<Rightarrow> string \<Rightarrow> string" where
  "str_replace p r s =
     (if p = [] then s
      else case s of
        [] \<Rightarrow> []
      | c # t \<Rightarrow>
          (if starts_with p s then r @ str_replace p r (drop (length p) s)
           else c # str_replace p r t))"
  by pat_completeness auto
termination
  by (relation "measure (\<lambda>(p, r, s). length s)") auto

declare str_replace.simps [simp del]

fun trim_start_matches :: "char \<Rightarrow> string \<Rightarrow> string" where
  "trim_start_matches c [] = []"
| "trim_start_matches c (x # s) = (if x = c then trim_start_matches c s else x # s)"

definition trim_end_matches :: "char \<Rightarrow> string \<Rightarrow> string" where
  "trim_end_matches c s = rev (trim_start_matches c (rev s))"

fun join :: "string \<Rightarrow> string list \<Rightarrow> string" where
  "join sep [] = []"
| "join sep [x] = x"
| "join sep (x # y # xs) = x @ sep @ join sep (y # xs)"

section \<open>Decimal integers\<close>

definition digit_char :: "nat \<Rightarrow> char" where
  "digit_char d = char_of (48 + d)"

definition digit_val :: "char \<Rightarrow> nat" where
  "digit_val c = byte c - 48"

fun show_nat :: "nat \<Rightarrow> string" where
  "show_nat n = (if n < 10 then [digit_char n] else show_nat (n div 10) @ [digit_char (n mod 10)])"

declare show_nat.simps [simp del]

definition show_int :: "int \<Rightarrow> string" where
  "show_int i = (if i < 0 then CHR ''-'' # show_nat (nat (- i)) else show_nat (nat i))"

definition digits_val :: "string \<Rightarrow> nat" where
  "digits_val s = foldl (\<lambda>a c. 10 * a + digit_val c) 0 s"

definition parse_digits :: "string \<Rightarrow> nat option" where
  "parse_digits s = (if s \<noteq> [] \<and> list_all is_ascii_digit s then Some (digits_val s) else None)"

text \<open>\<^verbatim>\<open>str::parse\<close> for unsigned integers below \<open>bound\<close>: an optional plus sign, then digits.\<close>

definition parse_unsigned :: "nat \<Rightarrow> string \<Rightarrow> nat option" where
  "parse_unsigned bound s =
     (let body = (case s of c # t \<Rightarrow> (if c = CHR ''+'' then t else s) | [] \<Rightarrow> s)
      in case parse_digits body of
           None \<Rightarrow> None
         | Some n \<Rightarrow> if n < bound then Some n else None)"

abbreviation u32_bound :: nat where "u32_bound \<equiv> 2 ^ 32"
abbreviation u64_bound :: nat where "u64_bound \<equiv> 2 ^ 64"

definition parse_u32 :: "string \<Rightarrow> nat option" where
  "parse_u32 = parse_unsigned u32_bound"

definition parse_u64 :: "string \<Rightarrow> nat option" where
  "parse_u64 = parse_unsigned u64_bound"

definition in_i64 :: "int \<Rightarrow> bool" where
  "in_i64 i \<longleftrightarrow> - (2 ^ 63) \<le> i \<and> i < 2 ^ 63"

definition parse_i64 :: "string \<Rightarrow> int option" where
  "parse_i64 s =
     (let (neg, body) = (case s of
            c # t \<Rightarrow> (if c = CHR ''-'' then (True, t) else if c = CHR ''+'' then (False, t)
                     else (False, s))
          | [] \<Rightarrow> (False, s))
      in case parse_digits body of
           None \<Rightarrow> None
         | Some n \<Rightarrow> (let i = (if neg then - int n else int n)
                      in if in_i64 i then Some i else None))"

section \<open>Laws of searching and cutting\<close>

lemma starts_with_iff: "starts_with p s \<longleftrightarrow> (\<exists>r. s = p @ r)"
  unfolding starts_with_def by (metis append_eq_conv_conj append_take_drop_id)

lemma starts_with_append [simp]: "starts_with p (p @ r)"
  by (simp add: starts_with_def)

lemma strip_prefix_iff: "strip_prefix p s = Some r \<longleftrightarrow> s = p @ r"
  by (auto simp: strip_prefix_def starts_with_iff)

lemma strip_prefix_append [simp]: "strip_prefix p (p @ r) = Some r"
  by (simp add: strip_prefix_iff)

lemma strip_prefix_None_iff: "strip_prefix p s = None \<longleftrightarrow> \<not> starts_with p s"
  by (simp add: strip_prefix_def)

lemma strip_suffix_iff: "strip_suffix p s = Some r \<longleftrightarrow> s = r @ p"
proof -
  have "strip_suffix p s = Some r \<longleftrightarrow> strip_prefix (rev p) (rev s) = Some (rev r)"
    by (auto simp: strip_suffix_def)
  also have "\<dots> \<longleftrightarrow> rev s = rev p @ rev r" by (simp add: strip_prefix_iff)
  also have "\<dots> \<longleftrightarrow> s = r @ p" by (metis rev_append rev_rev_ident)
  finally show ?thesis .
qed

lemma strip_suffix_append [simp]: "strip_suffix p (r @ p) = Some r"
  by (simp add: strip_suffix_iff)

lemma split_once_Some: "split_once p s = Some (a, b) \<Longrightarrow> s = a @ p @ b"
proof (induction s arbitrary: a b)
  case Nil
  then show ?case by (simp split: if_splits)
next
  case (Cons c s)
  show ?case
  proof (cases "strip_prefix p (c # s)")
    case None
    with Cons.prems obtain a' where "split_once p s = Some (a', b)" and "a = c # a'"
      by auto
    with Cons.IH show ?thesis by simp
  next
    case (Some rest)
    with Cons.prems show ?thesis by (simp add: strip_prefix_iff)
  qed
qed

text \<open>A pattern is found right after a prefix that does not contain its first character.\<close>

lemma split_once_at_head:
  assumes "h \<notin> set a"
  shows "split_once (h # p) (a @ (h # p) @ b) = Some (a, b)"
  using assms
proof (induction a)
  case Nil
  have "strip_prefix (h # p) ((h # p) @ b) = Some b" by (rule strip_prefix_append)
  then show ?case by simp
next
  case (Cons c a)
  then have "\<not> starts_with (h # p) (c # a @ (h # p) @ b)"
    by (auto simp: starts_with_iff)
  then have "strip_prefix (h # p) (c # a @ (h # p) @ b) = None"
    by (simp add: strip_prefix_None_iff)
  with Cons show ?case by simp
qed

text \<open>
  The same when the pattern's last character occurs neither earlier in the pattern nor in
  the prefix.
\<close>

lemma no_early_match:
  assumes "l \<notin> set a" and "l \<notin> set q" and "a \<noteq> []"
  shows "\<not> starts_with (q @ [l]) (a @ (q @ [l]) @ b)"
proof
  assume "starts_with (q @ [l]) (a @ (q @ [l]) @ b)"
  then obtain r where eq: "a @ q @ l # b = q @ l # r"
    by (auto simp: starts_with_iff)
  have lhs: "l \<notin> set (take (Suc (length q)) (a @ q))"
    using assms by (auto dest!: in_set_takeD)
  have "take (Suc (length q)) (a @ q @ l # b) = take (Suc (length q)) (a @ q)"
    using \<open>a \<noteq> []\<close> by (cases a) (simp_all add: take_Cons')
  moreover have "take (Suc (length q)) (q @ l # r) = q @ [l]" by simp
  ultimately have cut: "take (Suc (length q)) (a @ q) = q @ [l]"
    unfolding eq by (rule trans [OF sym])
  have "l \<in> set (take (Suc (length q)) (a @ q))" unfolding cut by simp
  with lhs show False by contradiction
qed

lemma split_once_at_last:
  assumes "l \<notin> set a" and "l \<notin> set q"
  shows "split_once (q @ [l]) (a @ (q @ [l]) @ b) = Some (a, b)"
  using assms(1)
proof (induction a)
  case Nil
  show ?case
  proof (cases "(q @ [l]) @ b")
    case (Cons c t)
    have "strip_prefix (q @ [l]) ((q @ [l]) @ b) = Some b" by (rule strip_prefix_append)
    with Cons show ?thesis by simp
  qed simp
next
  case (Cons c a)
  have "\<not> starts_with (q @ [l]) ((c # a) @ (q @ [l]) @ b)"
    by (rule no_early_match) (use Cons.prems assms(2) in auto)
  then have "strip_prefix (q @ [l]) (c # a @ (q @ [l]) @ b) = None"
    by (simp add: strip_prefix_None_iff)
  with Cons show ?case by simp
qed

lemma split_once_char_None: "split_once [c] s = None \<longleftrightarrow> c \<notin> set s"
  by (induction s) (auto simp: strip_prefix_def starts_with_def)

lemma rsplit_once_Some: "rsplit_once c s = Some (a, b) \<Longrightarrow> s = a @ [c] @ b"
proof -
  assume "rsplit_once c s = Some (a, b)"
  then have "split_once [c] (rev s) = Some (rev b, rev a)"
    by (auto simp: rsplit_once_def)
  then have "rev s = rev b @ [c] @ rev a" by (rule split_once_Some)
  then have "rev (rev s) = a @ [c] @ b" by simp
  then show ?thesis by simp
qed

lemma contains_str_iff: "contains_str p s \<longleftrightarrow> (\<exists>a b. s = a @ p @ b)"
proof (induction s)
  case Nil
  then show ?case by simp
next
  case (Cons c s)
  show ?case
  proof
    assume "contains_str p (c # s)"
    then consider "starts_with p (c # s)" | "contains_str p s" by auto
    then show "\<exists>a b. c # s = a @ p @ b"
    proof cases
      case 1
      then show ?thesis by (metis append_Nil starts_with_iff)
    next
      case 2
      then obtain a b where "s = a @ p @ b" using Cons.IH by blast
      then have "c # s = (c # a) @ p @ b" by simp
      then show ?thesis by blast
    qed
  next
    assume "\<exists>a b. c # s = a @ p @ b"
    then obtain a b where ab: "c # s = a @ p @ b" by blast
    show "contains_str p (c # s)"
    proof (cases a)
      case Nil
      with ab have "starts_with p (c # s)" by (auto simp: starts_with_iff)
      then show ?thesis by simp
    next
      case (Cons d a')
      with ab have "s = a' @ p @ b" by simp
      with Cons.IH show ?thesis by (metis contains_str.simps(2))
    qed
  qed
qed

section \<open>Laws of replacement\<close>

lemma str_replace_Nil [simp]: "str_replace p r [] = []"
  by (simp add: str_replace.simps [of p r "[]"])

lemma str_replace_no_pattern [simp]: "str_replace [] r s = s"
  by (subst str_replace.simps) simp

lemma str_replace_here:
  assumes "p \<noteq> []"
  shows "str_replace p r (p @ s) = r @ str_replace p r s"
proof -
  obtain c t where eq: "p @ s = c # t" using assms by (cases "p @ s") auto
  have "starts_with p (p @ s)" by simp
  then have "str_replace p r (p @ s) = r @ str_replace p r (drop (length p) (p @ s))"
    using assms eq by (subst str_replace.simps) (simp split: list.splits)
  then show ?thesis by simp
qed

lemma str_replace_skip:
  "p \<noteq> [] \<Longrightarrow> \<not> starts_with p (c # s) \<Longrightarrow> str_replace p r (c # s) = c # str_replace p r s"
  by (simp add: str_replace.simps [of p r "c # s"])

lemma str_replace_prefix:
  assumes "h \<notin> set a"
  shows "str_replace (h # p) r (a @ s) = a @ str_replace (h # p) r s"
  using assms
proof (induction a)
  case (Cons c a)
  then have "\<not> starts_with (h # p) (c # a @ s)" by (auto simp: starts_with_iff)
  with Cons show ?case by (simp add: str_replace_skip)
qed simp

text \<open>Every byte of the result comes from the erased text or from the replacement.\<close>

lemma str_replace_induct [consumes 1, case_names Nil Here Skip]:
  assumes "p \<noteq> []"
    and "P []"
    and "\<And>s. P s \<Longrightarrow> P (p @ s)"
    and "\<And>c s. \<not> starts_with p (c # s) \<Longrightarrow> P s \<Longrightarrow> P (c # s)"
  shows "P s"
proof (induction s rule: length_induct)
  case (1 s)
  show ?case
  proof (cases "starts_with p s")
    case True
    then obtain t where t: "s = p @ t" by (auto simp: starts_with_iff)
    with assms(1) have "length t < length s" by simp
    with "1" have "P t" by blast
    with t assms(3) show ?thesis by simp
  next
    case False
    with "1" assms(2,4) show ?thesis by (cases s) auto
  qed
qed

lemma set_str_replace: "set (str_replace p r s) \<subseteq> set (str_replace p [] s) \<union> set r"
proof (cases "p = []")
  case False
  then show ?thesis
    by (induction s rule: str_replace_induct)
      (auto simp: str_replace_here [OF False] str_replace_skip [OF False])
qed simp

lemma set_str_replace_subset: "set (str_replace p r s) \<subseteq> set s \<union> set r"
proof (cases "p = []")
  case False
  then show ?thesis
    by (induction s rule: str_replace_induct)
      (auto simp: str_replace_here [OF False] str_replace_skip [OF False])
qed simp

section \<open>Laws of decimal integers\<close>

lemma byte_digit_char: "d < 10 \<Longrightarrow> byte (digit_char d) = 48 + d"
  by (simp add: byte_def digit_char_def)

lemma digit_val_digit_char [simp]: "d < 10 \<Longrightarrow> digit_val (digit_char d) = d"
  by (simp add: digit_val_def byte_digit_char)

lemma is_digit_digit_char [simp]: "d < 10 \<Longrightarrow> is_ascii_digit (digit_char d)"
  by (simp add: is_ascii_digit_def byte_digit_char)

lemma digits_val_snoc [simp]: "digits_val (s @ [c]) = 10 * digits_val s + digit_val c"
  by (simp add: digits_val_def)

lemma digits_val_show_nat: "digits_val (show_nat n) = n"
proof (induction n rule: show_nat.induct)
  case (1 n)
  then show ?case
    by (cases "n < 10") (simp_all add: show_nat.simps [of n], simp_all add: digits_val_def)
qed

lemma all_digits_show_nat: "list_all is_ascii_digit (show_nat n)"
proof (induction n rule: show_nat.induct)
  case (1 n)
  then show ?case by (cases "n < 10") (simp_all add: show_nat.simps [of n])
qed

lemma show_nat_not_Nil [simp]: "show_nat n \<noteq> []"
  by (subst show_nat.simps) simp

lemma parse_digits_show_nat: "parse_digits (show_nat n) = Some n"
  by (simp add: parse_digits_def all_digits_show_nat digits_val_show_nat)

lemma show_nat_hd_digit: "show_nat n = c # t \<Longrightarrow> is_ascii_digit c"
  using all_digits_show_nat [of n] by simp

lemma sign_not_digit: "\<not> is_ascii_digit (CHR ''-'')" "\<not> is_ascii_digit (CHR ''+'')"
  by (simp_all add: is_ascii_digit_def byte_def)

lemma parse_unsigned_show_nat: "n < bound \<Longrightarrow> parse_unsigned bound (show_nat n) = Some n"
proof -
  assume "n < bound"
  obtain c t where s: "show_nat n = c # t" by (cases "show_nat n") auto
  then have "c \<noteq> CHR ''+''" using show_nat_hd_digit sign_not_digit by blast
  with s \<open>n < bound\<close> show ?thesis
    using parse_digits_show_nat [of n] by (simp add: parse_unsigned_def)
qed

lemma parse_unsigned_bound: "parse_unsigned bound s = Some n \<Longrightarrow> n < bound"
  by (auto simp: parse_unsigned_def Let_def split: option.splits if_splits)

lemma parse_i64_show_int:
  assumes "in_i64 i"
  shows "parse_i64 (show_int i) = Some i"
proof (cases "i < 0")
  case True
  with assms show ?thesis
    by (simp add: parse_i64_def show_int_def parse_digits_show_nat)
next
  case False
  obtain c t where s: "show_nat (nat i) = c # t" by (cases "show_nat (nat i)") auto
  then have "c \<noteq> CHR ''-''" "c \<noteq> CHR ''+''"
    using show_nat_hd_digit sign_not_digit by blast+
  with s False assms show ?thesis
    using parse_digits_show_nat [of "nat i"] by (simp add: parse_i64_def show_int_def)
qed

lemma parse_i64_range: "parse_i64 s = Some i \<Longrightarrow> in_i64 i"
  by (auto simp: parse_i64_def Let_def split: option.splits if_splits prod.splits)

end
