(* ===== verification/Topics.thy ===== *)
theory Topics
  imports Rust_Str
begin

text \<open>
  \<^verbatim>\<open>crates/common/src\<close>: the Zenoh topics of a device (\<^verbatim>\<open>topics.rs\<close>), the heartbeat statuses
  (\<^verbatim>\<open>device_status.rs\<close>) and the terminal OTA statuses (\<^verbatim>\<open>ota.rs\<close>). A topic names a device
  and what the message is; the extractors recover both from a received topic. The locale
  \<open>device_topic\<close> states what a topic constructor and its extractor owe each other.
\<close>

section \<open>Building topics\<close>

definition DEVICE_TOPIC_PREFIX :: string where
  "DEVICE_TOPIC_PREFIX = ''extrittio/devices/''"

definition telemetry :: "string \<Rightarrow> string" where
  "telemetry device_id = ''extrittio/devices/'' @ device_id @ ''/telemetry''"

definition event :: "string \<Rightarrow> string \<Rightarrow> string" where
  "event device_id route_key = ''extrittio/devices/'' @ device_id @ ''/events/'' @ route_key"

definition heartbeat :: "string \<Rightarrow> string" where
  "heartbeat device_id = ''extrittio/devices/'' @ device_id @ ''/heartbeat''"

definition shadow_get :: "string \<Rightarrow> string" where
  "shadow_get device_id = ''extrittio/devices/'' @ device_id @ ''/shadow/get''"

definition shadow_delta :: "string \<Rightarrow> string" where
  "shadow_delta device_id = ''extrittio/devices/'' @ device_id @ ''/shadow/delta''"

definition shadow_report :: "string \<Rightarrow> string" where
  "shadow_report device_id = ''extrittio/devices/'' @ device_id @ ''/shadow/report''"

definition logs :: "string \<Rightarrow> string" where
  "logs device_id = ''extrittio/devices/'' @ device_id @ ''/logs''"

definition commands :: "string \<Rightarrow> string" where
  "commands device_id = ''extrittio/devices/'' @ device_id @ ''/commands''"

definition commands_response :: "string \<Rightarrow> string" where
  "commands_response device_id = ''extrittio/devices/'' @ device_id @ ''/commands/response''"

section \<open>Reading topics\<close>

definition device_id_byte :: "char \<Rightarrow> bool" where
  "device_id_byte c \<longleftrightarrow> is_ascii_lowercase c \<or> is_ascii_uppercase c \<or> is_ascii_digit c
     \<or> c = CHR ''-'' \<or> c = CHR ''_'' \<or> c = CHR ''.'' \<or> c = CHR '':''"

definition is_valid_device_id :: "string \<Rightarrow> bool" where
  "is_valid_device_id device_id \<longleftrightarrow>
     1 \<le> length device_id \<and> length device_id \<le> 128 \<and> list_all device_id_byte device_id"

definition route_key_byte :: "char \<Rightarrow> bool" where
  "route_key_byte c \<longleftrightarrow> is_ascii_lowercase c \<or> is_ascii_digit c
     \<or> c = CHR ''-'' \<or> c = CHR ''_'' \<or> c = CHR ''.''"

definition is_valid_route_key :: "string \<Rightarrow> bool" where
  "is_valid_route_key route_key \<longleftrightarrow>
     1 \<le> length route_key \<and> length route_key \<le> 64 \<and> list_all route_key_byte route_key"

definition device_id_for_suffix :: "string \<Rightarrow> string \<Rightarrow> string option" where
  "device_id_for_suffix topic suffix =
     (case strip_prefix DEVICE_TOPIC_PREFIX topic of
        None \<Rightarrow> None
      | Some rest \<Rightarrow>
          (case strip_suffix suffix rest of
             None \<Rightarrow> None
           | Some device_id \<Rightarrow> if is_valid_device_id device_id then Some device_id else None))"

definition telemetry_device_id :: "string \<Rightarrow> string option" where
  "telemetry_device_id topic = device_id_for_suffix topic ''/telemetry''"

definition event_device_and_route :: "string \<Rightarrow> (string \<times> string) option" where
  "event_device_and_route topic =
     (case strip_prefix DEVICE_TOPIC_PREFIX topic of
        None \<Rightarrow> None
      | Some rest \<Rightarrow>
          (case split_once ''/events/'' rest of
             None \<Rightarrow> None
           | Some (device_id, route_key) \<Rightarrow>
               if \<not> is_valid_device_id device_id \<or> \<not> is_valid_route_key route_key then None
               else Some (device_id, route_key)))"

definition contract_device_id :: "string \<Rightarrow> string option" where
  "contract_device_id topic =
     (case strip_prefix DEVICE_TOPIC_PREFIX topic of
        None \<Rightarrow> None
      | Some rest \<Rightarrow>
          (case split_once ''/'' rest of
             None \<Rightarrow> None
           | Some (device_id, _) \<Rightarrow> if is_valid_device_id device_id then Some device_id else None))"

definition heartbeat_device_id :: "string \<Rightarrow> string option" where
  "heartbeat_device_id topic = device_id_for_suffix topic ''/heartbeat''"

definition shadow_report_device_id :: "string \<Rightarrow> string option" where
  "shadow_report_device_id topic = device_id_for_suffix topic ''/shadow/report''"

definition shadow_get_device_id :: "string \<Rightarrow> string option" where
  "shadow_get_device_id topic = device_id_for_suffix topic ''/shadow/get''"

definition logs_device_id :: "string \<Rightarrow> string option" where
  "logs_device_id topic = device_id_for_suffix topic ''/logs''"

definition commands_response_device_id :: "string \<Rightarrow> string option" where
  "commands_response_device_id topic = device_id_for_suffix topic ''/commands/response''"

section \<open>Statuses\<close>

definition VALID_STATUSES :: "string list" where
  "VALID_STATUSES = [''online'', ''offline'', ''warning'']"

definition is_valid_status :: "string \<Rightarrow> bool" where
  "is_valid_status status \<longleftrightarrow> list_ex (\<lambda>s. eq_ignore_ascii_case s status) VALID_STATUSES"

definition is_terminal :: "string \<Rightarrow> bool" where
  "is_terminal status \<longleftrightarrow>
     eq_ignore_ascii_case status ''success'' \<or> eq_ignore_ascii_case status ''failed''"

section \<open>The contract of a topic\<close>

text \<open>
  A constructor \<open>build\<close> and an extractor \<open>read\<close> over one fixed suffix: what is built is the
  prefix, the device and the suffix, and what is read is exactly the device of a topic of that
  shape.
\<close>

locale device_topic =
  fixes build :: "string \<Rightarrow> string" and read :: "string \<Rightarrow> string option" and suffix :: string
  assumes build_eq: "build d = DEVICE_TOPIC_PREFIX @ d @ suffix"
    and read_eq: "read t = device_id_for_suffix t suffix"
begin

lemma read_iff: "read t = Some d \<longleftrightarrow> t = build d \<and> is_valid_device_id d"
proof
  assume "read t = Some d"
  then show "t = build d \<and> is_valid_device_id d"
    by (auto simp: read_eq build_eq device_id_for_suffix_def strip_prefix_iff strip_suffix_iff
        split: option.splits if_splits)
next
  assume "t = build d \<and> is_valid_device_id d"
  then show "read t = Some d"
    by (simp add: read_eq build_eq device_id_for_suffix_def)
qed

lemma round_trip: "is_valid_device_id d \<Longrightarrow> read (build d) = Some d"
  by (simp add: read_iff)

lemma build_inj: "build d = build d' \<Longrightarrow> d = d'"
  by (simp add: build_eq)

end

interpretation telemetry_topic: device_topic telemetry telemetry_device_id "''/telemetry''"
  by unfold_locales (simp_all add: telemetry_def telemetry_device_id_def DEVICE_TOPIC_PREFIX_def)

interpretation heartbeat_topic: device_topic heartbeat heartbeat_device_id "''/heartbeat''"
  by unfold_locales (simp_all add: heartbeat_def heartbeat_device_id_def DEVICE_TOPIC_PREFIX_def)

interpretation shadow_report_topic:
  device_topic shadow_report shadow_report_device_id "''/shadow/report''"
  by unfold_locales
    (simp_all add: shadow_report_def shadow_report_device_id_def DEVICE_TOPIC_PREFIX_def)

interpretation shadow_get_topic: device_topic shadow_get shadow_get_device_id "''/shadow/get''"
  by unfold_locales (simp_all add: shadow_get_def shadow_get_device_id_def DEVICE_TOPIC_PREFIX_def)

interpretation logs_topic: device_topic logs logs_device_id "''/logs''"
  by unfold_locales (simp_all add: logs_def logs_device_id_def DEVICE_TOPIC_PREFIX_def)

interpretation commands_response_topic:
  device_topic commands_response commands_response_device_id "''/commands/response''"
  by unfold_locales
    (simp_all add: commands_response_def commands_response_device_id_def DEVICE_TOPIC_PREFIX_def)

section \<open>Device identifiers cannot change the topic hierarchy\<close>

lemma device_id_byte_safe:
  "device_id_byte c \<Longrightarrow> c \<noteq> CHR ''/'' \<and> c \<noteq> CHR ''*'' \<and> c \<noteq> CHR ''#'' \<and> c \<noteq> CHR ''$''
     \<and> c \<noteq> CHR ''?'' \<and> c \<noteq> CHR ''{'' \<and> c \<noteq> CHR ''}''"
  by (auto simp: device_id_byte_def is_ascii_lowercase_def is_ascii_uppercase_def
      is_ascii_digit_def byte_def)

lemma valid_device_id_no_slash: "is_valid_device_id d \<Longrightarrow> CHR ''/'' \<notin> set d"
  by (auto simp: is_valid_device_id_def list_all_iff dest: device_id_byte_safe)

lemma route_key_byte_no_slash: "route_key_byte c \<Longrightarrow> c \<noteq> CHR ''/''"
  by (auto simp: route_key_byte_def is_ascii_lowercase_def is_ascii_digit_def byte_def)

lemma contract_device_id_iff:
  "contract_device_id t = Some d \<longleftrightarrow>
     is_valid_device_id d \<and> (\<exists>rest. t = DEVICE_TOPIC_PREFIX @ d @ ''/'' @ rest)"
proof
  assume "contract_device_id t = Some d"
  then show "is_valid_device_id d \<and> (\<exists>rest. t = DEVICE_TOPIC_PREFIX @ d @ ''/'' @ rest)"
    by (auto simp: contract_device_id_def strip_prefix_iff
        split: option.splits if_splits dest!: split_once_Some)
next
  assume "is_valid_device_id d \<and> (\<exists>rest. t = DEVICE_TOPIC_PREFIX @ d @ ''/'' @ rest)"
  then obtain rest where d: "is_valid_device_id d" and t: "t = DEVICE_TOPIC_PREFIX @ d @ ''/'' @ rest"
    by blast
  have "split_once ''/'' (d @ ''/'' @ rest) = Some (d, rest)"
    by (rule split_once_at_head) (rule valid_device_id_no_slash [OF d])
  with d t show "contract_device_id t = Some d"
    by (simp add: contract_device_id_def)
qed

lemma event_device_and_route_iff:
  "event_device_and_route t = Some (d, r) \<longleftrightarrow>
     t = event d r \<and> is_valid_device_id d \<and> is_valid_route_key r"
proof
  assume "event_device_and_route t = Some (d, r)"
  then show "t = event d r \<and> is_valid_device_id d \<and> is_valid_route_key r"
    by (auto simp: event_device_and_route_def event_def DEVICE_TOPIC_PREFIX_def strip_prefix_iff
        split: option.splits if_splits dest!: split_once_Some)
next
  assume a: "t = event d r \<and> is_valid_device_id d \<and> is_valid_route_key r"
  then have "split_once ''/events/'' (d @ ''/events/'' @ r) = Some (d, r)"
    by (intro split_once_at_head valid_device_id_no_slash) simp
  with a show "event_device_and_route t = Some (d, r)"
    by (simp add: event_device_and_route_def event_def flip: DEVICE_TOPIC_PREFIX_def)
qed

lemma event_topic_contract_device:
  "event_device_and_route t = Some (d, r) \<Longrightarrow> contract_device_id t = Some d"
  by (auto simp: event_device_and_route_iff contract_device_id_iff event_def
      DEVICE_TOPIC_PREFIX_def)

section \<open>Properties\<close>

text \<open>
  C39. Every topic extractor is exact: it returns a device (and a route) precisely for the topics
  its constructor builds from a valid device identifier (and route key), so building and reading
  are inverse and no other topic is attributed to a device.
\<close>

theorem topic_extractors_exact:
  "(telemetry_device_id t = Some d \<longleftrightarrow> t = telemetry d \<and> is_valid_device_id d)
   \<and> (heartbeat_device_id t = Some d \<longleftrightarrow> t = heartbeat d \<and> is_valid_device_id d)
   \<and> (shadow_report_device_id t = Some d \<longleftrightarrow> t = shadow_report d \<and> is_valid_device_id d)
   \<and> (shadow_get_device_id t = Some d \<longleftrightarrow> t = shadow_get d \<and> is_valid_device_id d)
   \<and> (logs_device_id t = Some d \<longleftrightarrow> t = logs d \<and> is_valid_device_id d)
   \<and> (commands_response_device_id t = Some d \<longleftrightarrow> t = commands_response d \<and> is_valid_device_id d)
   \<and> (event_device_and_route t = Some (d, r) \<longleftrightarrow>
        t = event d r \<and> is_valid_device_id d \<and> is_valid_route_key r)
   \<and> (contract_device_id t = Some d \<longleftrightarrow>
        is_valid_device_id d \<and> (\<exists>rest. t = ''extrittio/devices/'' @ d @ ''/'' @ rest))"
  using contract_device_id_iff [of t d]
  by (simp add: telemetry_topic.read_iff heartbeat_topic.read_iff shadow_report_topic.read_iff
      shadow_get_topic.read_iff logs_topic.read_iff commands_response_topic.read_iff
      event_device_and_route_iff DEVICE_TOPIC_PREFIX_def)

end
