(* ===== verification/F64.thy ===== *)
theory F64
  imports Rust_Str
begin

text \<open>
  IEEE 754 binary64, Rust's \<^verbatim>\<open>f64\<close>, as far as the modelled crates use it. A finite value is
  the rational number it stands for; only negative zero needs a constructor of its own.
  Arithmetic is the exact operation followed by \<open>rnd\<close>, rounding to the nearest
  representable value, ties to even. Parsing and printing follow the documented grammar
  and the correctly rounded algorithms of the standard library.
\<close>

section \<open>Values and order\<close>

datatype f64 = NaN | PosInf | NegInf | NegZero | Fin rat

datatype ordering = Less | Equal | Greater

definition reverse :: "ordering \<Rightarrow> ordering" where
  "reverse d = (case d of Less \<Rightarrow> Greater | Equal \<Rightarrow> Equal | Greater \<Rightarrow> Less)"

fun fval :: "f64 \<Rightarrow> rat" where
  "fval (Fin r) = r"
| "fval _ = 0"

fun is_finite :: "f64 \<Rightarrow> bool" where
  "is_finite (Fin r) = True"
| "is_finite NegZero = True"
| "is_finite _ = False"

fun f64_le :: "f64 \<Rightarrow> f64 \<Rightarrow> bool" where
  "f64_le NaN b = False"
| "f64_le a NaN = False"
| "f64_le NegInf b = True"
| "f64_le a PosInf = True"
| "f64_le PosInf b = False"
| "f64_le a NegInf = False"
| "f64_le a b = (fval a \<le> fval b)"

definition f64_lt :: "f64 \<Rightarrow> f64 \<Rightarrow> bool" where
  "f64_lt a b \<longleftrightarrow> f64_le a b \<and> \<not> f64_le b a"

definition f64_eq :: "f64 \<Rightarrow> f64 \<Rightarrow> bool" where
  "f64_eq a b \<longleftrightarrow> f64_le a b \<and> f64_le b a"

definition f64_partial_cmp :: "f64 \<Rightarrow> f64 \<Rightarrow> ordering option" where
  "f64_partial_cmp a b =
     (if a = NaN \<or> b = NaN then None
      else Some (if f64_lt a b then Less else if f64_lt b a then Greater else Equal))"

text \<open>\<^verbatim>\<open>(lo..=hi).contains(&x)\<close>\<close>

definition f64_in_range :: "f64 \<Rightarrow> f64 \<Rightarrow> f64 \<Rightarrow> bool" where
  "f64_in_range lo hi x \<longleftrightarrow> f64_le lo x \<and> f64_le x hi"

section \<open>Rounding\<close>

definition pow2 :: "int \<Rightarrow> rat" where
  "pow2 e = (if 0 \<le> e then 2 ^ nat e else 1 / 2 ^ nat (- e))"

definition pow10 :: "int \<Rightarrow> rat" where
  "pow10 e = (if 0 \<le> e then 10 ^ nat e else 1 / 10 ^ nat (- e))"

fun nbits :: "nat \<Rightarrow> nat" where
  "nbits n = (if n = 0 then 0 else Suc (nbits (n div 2)))"

declare nbits.simps [simp del]

text \<open>The nearest integer, the even one of two equally near.\<close>

definition half_even :: "rat \<Rightarrow> int" where
  "half_even r =
     (let f = \<lfloor>r\<rfloor>; d = r - of_int f
      in if d < 1 / 2 then f else if 1 / 2 < d then f + 1 else if even f then f else f + 1)"

text \<open>The binary exponent of a positive number: the \<open>e\<close> with \<open>2^e \<le> r < 2^(e+1)\<close>.\<close>

definition exponent_of :: "rat \<Rightarrow> int" where
  "exponent_of r =
     (let (a, b) = quotient_of r; e = int (nbits (nat a)) - int (nbits (nat b))
      in if pow2 e \<le> r then e else e - 1)"

text \<open>
  A positive number to the 53-bit grid of its binade; \<open>None\<close> above the finite range, that is
  when the rounded value reaches \<open>2^1024\<close>.
\<close>

definition round_mag :: "rat \<Rightarrow> rat option" where
  "round_mag r =
     (let e = exponent_of r; q = max (e - 52) (- 1074); m = half_even (r / pow2 q)
      in if 1024 \<le> e \<or> (e = 1023 \<and> m = 2 ^ 53) then None else Some (of_int m * pow2 q))"

definition rnd_sign :: "bool \<Rightarrow> rat \<Rightarrow> f64" where
  "rnd_sign neg m =
     (if m = 0 then (if neg then NegZero else Fin 0)
      else case round_mag m of
             None \<Rightarrow> if neg then NegInf else PosInf
           | Some v \<Rightarrow> if v = 0 then (if neg then NegZero else Fin 0)
                       else Fin (if neg then - v else v))"

definition rnd :: "rat \<Rightarrow> f64" where
  "rnd r = rnd_sign (r < 0) \<bar>r\<bar>"

text \<open>A number the format can hold exactly.\<close>

definition representable :: "rat \<Rightarrow> bool" where
  "representable r \<longleftrightarrow> rnd r = Fin r"

section \<open>Arithmetic\<close>

fun sign_bit :: "f64 \<Rightarrow> bool" where
  "sign_bit NegInf = True"
| "sign_bit NegZero = True"
| "sign_bit (Fin r) = (r < 0)"
| "sign_bit _ = False"

fun f64_neg :: "f64 \<Rightarrow> f64" where
  "f64_neg NaN = NaN"
| "f64_neg PosInf = NegInf"
| "f64_neg NegInf = PosInf"
| "f64_neg NegZero = Fin 0"
| "f64_neg (Fin r) = (if r = 0 then NegZero else Fin (- r))"

definition f64_add :: "f64 \<Rightarrow> f64 \<Rightarrow> f64" where
  "f64_add a b =
     (if a = NaN \<or> b = NaN then NaN
      else if \<not> is_finite a then (if \<not> is_finite b \<and> a \<noteq> b then NaN else a)
      else if \<not> is_finite b then b
      else if a = NegZero \<and> b = NegZero then NegZero
      else rnd (fval a + fval b))"

definition f64_sub :: "f64 \<Rightarrow> f64 \<Rightarrow> f64" where
  "f64_sub a b = f64_add a (f64_neg b)"

definition f64_is_zero :: "f64 \<Rightarrow> bool" where
  "f64_is_zero a \<longleftrightarrow> is_finite a \<and> fval a = 0"

definition f64_mul :: "f64 \<Rightarrow> f64 \<Rightarrow> f64" where
  "f64_mul a b =
     (let neg = (sign_bit a \<noteq> sign_bit b)
      in if a = NaN \<or> b = NaN then NaN
         else if \<not> is_finite a \<or> \<not> is_finite b then
           (if f64_is_zero a \<or> f64_is_zero b then NaN else if neg then NegInf else PosInf)
         else rnd_sign neg \<bar>fval a * fval b\<bar>)"

definition f64_div :: "f64 \<Rightarrow> f64 \<Rightarrow> f64" where
  "f64_div a b =
     (let neg = (sign_bit a \<noteq> sign_bit b)
      in if a = NaN \<or> b = NaN then NaN
         else if \<not> is_finite a then (if \<not> is_finite b then NaN else if neg then NegInf else PosInf)
         else if \<not> is_finite b then (if neg then NegZero else Fin 0)
         else if f64_is_zero b then
           (if f64_is_zero a then NaN else if neg then NegInf else PosInf)
         else rnd_sign neg \<bar>fval a / fval b\<bar>)"

definition rtrunc :: "rat \<Rightarrow> int" where
  "rtrunc r = (if 0 \<le> r then \<lfloor>r\<rfloor> else \<lceil>r\<rceil>)"

text \<open>\<^verbatim>\<open>x as i64\<close>: truncation, saturating at the bounds, NaN to zero.\<close>

definition i64_min :: int where "i64_min = - (2 ^ 63)"
definition i64_max :: int where "i64_max = 2 ^ 63 - 1"

definition f64_as_i64 :: "f64 \<Rightarrow> int" where
  "f64_as_i64 x = (case x of
      NaN \<Rightarrow> 0
    | PosInf \<Rightarrow> i64_max
    | NegInf \<Rightarrow> i64_min
    | NegZero \<Rightarrow> 0
    | Fin r \<Rightarrow> max i64_min (min i64_max (rtrunc r)))"

definition f64_fract :: "f64 \<Rightarrow> f64" where
  "f64_fract x = (case x of
      NegZero \<Rightarrow> Fin 0
    | Fin r \<Rightarrow> Fin (r - of_int (rtrunc r))
    | _ \<Rightarrow> NaN)"

text \<open>\<^verbatim>\<open>n as f64\<close> for an integer.\<close>

definition int_as_f64 :: "int \<Rightarrow> f64" where
  "int_as_f64 n = rnd (of_int n)"

section \<open>Parsing\<close>

text \<open>
  The grammar of \<^verbatim>\<open>f64::from_str\<close>: an optional sign, then \<^verbatim>\<open>inf\<close>, \<^verbatim>\<open>infinity\<close> or \<^verbatim>\<open>nan\<close> in any case,
  or digits with an optional point (at least one digit) and an optional exponent.
\<close>

definition parse_exponent :: "string \<Rightarrow> int option" where
  "parse_exponent s = (case s of
      [] \<Rightarrow> Some 0
    | c # t \<Rightarrow>
        if c = CHR ''e'' \<or> c = CHR ''E'' then
          (case t of
             [] \<Rightarrow> None
           | d # u \<Rightarrow>
               if d = CHR ''-'' then map_option (\<lambda>n. - int n) (parse_digits u)
               else if d = CHR ''+'' then map_option int (parse_digits u)
               else map_option int (parse_digits t))
        else None)"

definition parse_decimal :: "string \<Rightarrow> rat option" where
  "parse_decimal s =
     (let ip = takeWhile is_ascii_digit s;
          rest = dropWhile is_ascii_digit s;
          pointed = (rest \<noteq> [] \<and> hd rest = CHR ''.'');
          fp = (if pointed then takeWhile is_ascii_digit (tl rest) else []);
          rest' = (if pointed then dropWhile is_ascii_digit (tl rest) else rest)
      in if ip = [] \<and> fp = [] then None
         else map_option (\<lambda>e. of_nat (digits_val (ip @ fp)) * pow10 (e - int (length fp)))
                (parse_exponent rest'))"

definition parse_f64 :: "string \<Rightarrow> f64 option" where
  "parse_f64 s =
     (let (neg, body) = (case s of
            c # t \<Rightarrow> (if c = CHR ''-'' then (True, t) else if c = CHR ''+'' then (False, t)
                     else (False, s))
          | [] \<Rightarrow> (False, s))
      in if eq_ignore_ascii_case body ''nan'' then Some NaN
         else if eq_ignore_ascii_case body ''inf'' \<or> eq_ignore_ascii_case body ''infinity''
         then Some (if neg then NegInf else PosInf)
         else map_option (rnd_sign neg) (parse_decimal body))"

section \<open>Printing\<close>

fun pad_digits :: "nat \<Rightarrow> nat \<Rightarrow> string" where
  "pad_digits 0 n = []"
| "pad_digits (Suc k) n = pad_digits k (n div 10) @ [digit_char (n mod 10)]"

definition show_scaled :: "nat \<Rightarrow> nat \<Rightarrow> string" where
  "show_scaled k n =
     show_nat (n div 10 ^ k) @ (if k = 0 then [] else CHR ''.'' # pad_digits k (n mod 10 ^ k))"

text \<open>\<^verbatim>\<open>{:.k}\<close>\<close>

definition fmt_fixed :: "nat \<Rightarrow> f64 \<Rightarrow> string" where
  "fmt_fixed k x = (case x of
      NaN \<Rightarrow> ''NaN''
    | PosInf \<Rightarrow> ''inf''
    | NegInf \<Rightarrow> ''-inf''
    | _ \<Rightarrow> (if sign_bit x then ''-'' else [])
             @ show_scaled k (nat (half_even (\<bar>fval x\<bar> * 10 ^ k))))"

text \<open>
  \<^verbatim>\<open>{}\<close>: the shortest decimal that reads back as the same value, the nearest such one when
  there are several, written without an exponent.
\<close>

fun dec_exponent_up :: "nat \<Rightarrow> rat \<Rightarrow> int" where
  "dec_exponent_up 0 r = 0"
| "dec_exponent_up (Suc k) r = (if r < 10 then 0 else 1 + dec_exponent_up k (r / 10))"

fun dec_exponent_down :: "nat \<Rightarrow> rat \<Rightarrow> int" where
  "dec_exponent_down 0 r = 0"
| "dec_exponent_down (Suc k) r = (if 1 \<le> r then 0 else dec_exponent_down k (r * 10) - 1)"

definition dec_exponent :: "rat \<Rightarrow> int" where
  "dec_exponent r = (if 1 \<le> r then dec_exponent_up 400 r else dec_exponent_down 400 r)"

definition shortest_at :: "rat \<Rightarrow> int \<Rightarrow> nat \<Rightarrow> (nat \<times> int) option" where
  "shortest_at r e10 nd =
     (let e = e10 - int nd + 1; s = pow10 e; q = r / s; lo = \<lfloor>q\<rfloor>; hi = lo + 1;
          ok_lo = (0 < lo \<and> round_mag (of_int lo * s) = Some r);
          ok_hi = (round_mag (of_int hi * s) = Some r)
      in if ok_lo \<and> (\<not> ok_hi \<or> q - of_int lo < 1 / 2) then Some (nat lo, e)
         else if ok_hi then Some (nat hi, e) else None)"

fun first_some :: "('a \<Rightarrow> 'b option) \<Rightarrow> 'a list \<Rightarrow> 'b option" where
  "first_some f [] = None"
| "first_some f (x # xs) = (case f x of Some y \<Rightarrow> Some y | None \<Rightarrow> first_some f xs)"

definition shortest_digits :: "rat \<Rightarrow> (nat \<times> int) option" where
  "shortest_digits r = first_some (shortest_at r (dec_exponent r)) [1..<18]"

definition f64_display :: "f64 \<Rightarrow> string" where
  "f64_display x = (case x of
      NaN \<Rightarrow> ''NaN''
    | PosInf \<Rightarrow> ''inf''
    | NegInf \<Rightarrow> ''-inf''
    | _ \<Rightarrow> (if sign_bit x then ''-'' else [])
             @ (if fval x = 0 then ''0''
                else case shortest_digits \<bar>fval x\<bar> of
                       None \<Rightarrow> []
                     | Some (c, e) \<Rightarrow> if 0 \<le> e then show_nat (c * 10 ^ nat e)
                                      else show_scaled (nat (- e)) c))"

section \<open>Laws of the order\<close>

lemma f64_le_finite: "is_finite a \<Longrightarrow> is_finite b \<Longrightarrow> f64_le a b \<longleftrightarrow> fval a \<le> fval b"
  by (cases a; cases b) auto

lemma f64_lt_finite: "is_finite a \<Longrightarrow> is_finite b \<Longrightarrow> f64_lt a b \<longleftrightarrow> fval a < fval b"
  by (auto simp: f64_lt_def f64_le_finite)

lemma f64_eq_finite: "is_finite a \<Longrightarrow> is_finite b \<Longrightarrow> f64_eq a b \<longleftrightarrow> fval a = fval b"
  by (auto simp: f64_eq_def f64_le_finite)

lemmas f64_order_finite = f64_le_finite f64_lt_finite f64_eq_finite

lemma f64_le_refl: "x \<noteq> NaN \<Longrightarrow> f64_le x x"
  by (cases x) auto

lemma f64_le_trans: "f64_le a b \<Longrightarrow> f64_le b c \<Longrightarrow> f64_le a c"
  by (cases a; cases b; cases c) auto

lemma f64_le_total: "a \<noteq> NaN \<Longrightarrow> b \<noteq> NaN \<Longrightarrow> f64_le a b \<or> f64_le b a"
  by (cases a; cases b) auto

lemma not_finite_NaN [simp]: "is_finite a \<Longrightarrow> a \<noteq> NaN"
  by auto

lemma in_range_finite: "f64_in_range (Fin lo) (Fin hi) x \<Longrightarrow> is_finite x \<and> lo \<le> fval x \<and> fval x \<le> hi"
  by (cases x) (auto simp: f64_in_range_def)

lemma reverse_simps [simp]:
  "reverse Less = Greater" "reverse Equal = Equal" "reverse Greater = Less"
  by (simp_all add: reverse_def)

section \<open>Laws of rounding\<close>

lemma half_even_of_int [simp]: "half_even (of_int n) = n"
  by (simp add: half_even_def)

lemma pow2_pos [simp]: "0 < pow2 e"
  by (simp add: pow2_def)

lemma rnd_0 [simp]: "rnd 0 = Fin 0"
  by (simp add: rnd_def rnd_sign_def)

lemma representable_0 [simp]: "representable 0"
  by (simp add: representable_def)

lemma rnd_not_NaN [simp]: "rnd r \<noteq> NaN"
  by (simp add: rnd_def rnd_sign_def split: option.splits)

lemma pow2_nonneg [simp]: "0 \<le> pow2 e"
  by (simp add: less_imp_le)

lemma pow2_not_neg [simp]: "\<not> pow2 e < 0" "pow2 e \<noteq> 0"
  using pow2_pos [of e] by linarith+

lemma pow2_power_int: "pow2 e = power_int 2 e"
  by (simp add: pow2_def power_int_def inverse_eq_divide power_one_over)

lemma pow2_add: "pow2 (a + b) = pow2 a * pow2 b"
  by (simp add: pow2_power_int power_int_add)

lemma pow2_mono: "a \<le> b \<Longrightarrow> pow2 a \<le> pow2 b"
  by (simp add: pow2_power_int power_int_increasing)

lemma pow2_less_imp: "pow2 a < pow2 b \<Longrightarrow> a < b"
  using pow2_mono [of b a] by linarith

lemma pow2_of_nat: "pow2 (int n) = of_nat (2 ^ n)"
  by (simp add: pow2_def)

lemma nbits_bounds: "0 < n \<Longrightarrow> 2 ^ nbits n \<le> 2 * n \<and> n < 2 ^ nbits n"
proof (induction n rule: nbits.induct)
  case (1 n)
  show ?case
  proof (cases "n div 2 = 0")
    case True
    with 1 have "n = 1" by simp
    then show ?thesis by (simp add: nbits.simps)
  next
    case False
    with 1 have "2 ^ nbits (n div 2) \<le> 2 * (n div 2)" "n div 2 < 2 ^ nbits (n div 2)" by auto
    then have "2 ^ nbits (n div 2) \<le> n" "n < 2 * 2 ^ nbits (n div 2)" by linarith+
    with 1 show ?thesis by (simp add: nbits.simps [of n])
  qed
qed

lemma nbits_pow2:
  assumes "0 < n"
  shows "pow2 (int (nbits n)) \<le> 2 * of_nat n" and "of_nat n < pow2 (int (nbits n))"
proof -
  have "of_nat (2 ^ nbits n) \<le> (of_nat (2 * n) :: rat)" "(of_nat n :: rat) < of_nat (2 ^ nbits n)"
    using nbits_bounds [OF assms] by (simp_all only: of_nat_le_iff of_nat_less_iff)
  then show "pow2 (int (nbits n)) \<le> 2 * of_nat n" "of_nat n < pow2 (int (nbits n))"
    unfolding pow2_of_nat by simp_all
qed

text \<open>The exponent is the binade of its argument.\<close>

lemma nbits_quotient:
  assumes "0 < a" and "0 < b"
  defines "e \<equiv> int (nbits a) - int (nbits b)"
  shows "pow2 (e - 1) \<le> of_nat a / of_nat b" and "of_nat a / of_nat b < pow2 (e + 1)"
proof -
  note a = nbits_pow2 [OF assms(1)] and b = nbits_pow2 [OF assms(2)]
  have sh: "pow2 (int (nbits a)) = pow2 (e - 1) * (2 * pow2 (int (nbits b)))"
    "2 * pow2 (int (nbits a)) = pow2 (e + 1) * pow2 (int (nbits b))"
    by (simp_all add: e_def pow2_power_int power_int_add power_int_diff)
  have "pow2 (e - 1) * (2 * of_nat b) \<le> pow2 (e - 1) * (2 * pow2 (int (nbits b)))"
    using b(2) by (intro mult_left_mono) auto
  then have "pow2 (e - 1) * of_nat b \<le> of_nat a" using a(1) sh(1) by linarith
  then show "pow2 (e - 1) \<le> of_nat a / of_nat b" using assms(2) by (simp add: pos_le_divide_eq)
  have "pow2 (e + 1) * pow2 (int (nbits b)) \<le> pow2 (e + 1) * (2 * of_nat b)"
    using b(1) by (intro mult_left_mono) auto
  then have "of_nat a < pow2 (e + 1) * of_nat b" using a(2) sh(2) by linarith
  then show "of_nat a / of_nat b < pow2 (e + 1)" using assms(2) by (simp add: pos_divide_less_eq)
qed

lemma exponent_of_bounds:
  assumes "0 < r"
  shows "pow2 (exponent_of r) \<le> r" and "r < pow2 (exponent_of r + 1)"
proof -
  obtain a b where q: "quotient_of r = (a, b)" by (cases "quotient_of r")
  then have b: "0 < b" and r: "r = of_int a / of_int b"
    by (simp_all add: quotient_of_denom_pos quotient_of_div)
  with assms have a: "0 < a" by (simp add: zero_less_divide_iff)
  have r': "r = of_nat (nat a) / of_nat (nat b)" using a b r by simp
  note N = nbits_quotient [of "nat a" "nat b"]
  show "pow2 (exponent_of r) \<le> r" "r < pow2 (exponent_of r + 1)"
    using N a b unfolding r' [symmetric] exponent_of_def q by (auto simp: Let_def not_le)
qed

lemma exponent_of_less: "0 < r \<Longrightarrow> r < pow2 n \<Longrightarrow> exponent_of r < n"
  using exponent_of_bounds(1) by (intro pow2_less_imp) force

lemma half_even_mono_int: "of_int n \<le> r \<Longrightarrow> n \<le> half_even r"
  unfolding le_floor_iff [symmetric] by (auto simp: half_even_def Let_def)

text \<open>The finest grid: every representable number is a multiple of \<open>2^-1074\<close>.\<close>

definition on_grid :: "rat \<Rightarrow> bool" where
  "on_grid r \<longleftrightarrow> (\<exists>k. r = of_int k * pow2 (- 1074))"

lemma pow2_on_grid:
  assumes "- 1074 \<le> q"
  shows "on_grid (of_int m * pow2 q)"
proof -
  have "pow2 q = pow2 (int (nat (q + 1074))) * pow2 (- 1074)"
    using assms by (simp flip: pow2_add)
  then have "pow2 q = 2 ^ nat (q + 1074) * pow2 (- 1074)"
    unfolding pow2_of_nat by simp
  then have "of_int m * pow2 q = of_int (m * 2 ^ nat (q + 1074)) * pow2 (- 1074)"
    by simp
  then show ?thesis unfolding on_grid_def by blast
qed

lemma representable_on_grid: "representable r \<Longrightarrow> on_grid r"
proof -
  have "on_grid v" "on_grid (- v)" if "round_mag m = Some v" for m v
    using that pow2_on_grid [of "max (exponent_of m - 52) (- 1074)" "half_even (m / pow2 (max (exponent_of m - 52) (- 1074)))"]
      pow2_on_grid [of "max (exponent_of m - 52) (- 1074)" "- half_even (m / pow2 (max (exponent_of m - 52) (- 1074)))"]
    by (auto simp: round_mag_def Let_def split: if_splits)
  moreover have "on_grid 0" using pow2_on_grid [of 0 0] by simp
  ultimately show "representable r \<Longrightarrow> on_grid r"
    by (auto simp: representable_def rnd_def rnd_sign_def split: if_splits option.splits)
qed

lemma on_grid_diff: "on_grid a \<Longrightarrow> on_grid b \<Longrightarrow> on_grid (a - b)"
  unfolding on_grid_def by (metis left_diff_distrib of_int_diff)

text \<open>A small non-zero multiple of the finest grid rounds to a finite non-zero number.\<close>

lemma round_mag_grid:
  assumes "on_grid r" and "0 < r" and "r < pow2 1023"
  obtains v where "round_mag r = Some v" and "0 < v"
proof -
  define e where "e = exponent_of r"
  define q where "q = max (e - 52) (- 1074)"
  have e: "e < 1023" using exponent_of_less [OF assms(2,3)] by (simp add: e_def)
  have "1 \<le> r / pow2 q"
  proof (cases "q = - 1074")
    case True
    from assms(1) obtain k where k: "r = of_int k * pow2 q" unfolding on_grid_def True by blast
    with assms(2) have "0 < k" by (simp add: zero_less_mult_iff)
    with k show ?thesis by simp
  next
    case False
    then have "pow2 q \<le> pow2 e" by (intro pow2_mono) (simp add: q_def)
    with exponent_of_bounds(1) [OF assms(2)] show ?thesis by (simp add: e_def pos_le_divide_eq)
  qed
  then have "1 \<le> half_even (r / pow2 q)" by (intro half_even_mono_int) simp
  then have "0 < of_int (half_even (r / pow2 q)) * pow2 q" by simp
  moreover have "round_mag r = Some (of_int (half_even (r / pow2 q)) * pow2 q)"
    using e by (simp add: round_mag_def Let_def e_def q_def)
  ultimately show thesis using that by blast
qed

lemma rnd_grid:
  assumes "on_grid r" and "r \<noteq> 0" and "\<bar>r\<bar> < pow2 1023"
  obtains v where "rnd r = Fin v" and "0 < v \<longleftrightarrow> 0 < r" and "v \<noteq> 0"
proof -
  have "on_grid \<bar>r\<bar>" using assms(1) unfolding on_grid_def abs_if
    by (metis mult_minus_left of_int_minus)
  from round_mag_grid [OF this _ assms(3)] assms(2) obtain v where "round_mag \<bar>r\<bar> = Some v" "0 < v" by auto
  with assms(2) have "rnd r = Fin (if r < 0 then - v else v)" by (simp add: rnd_def rnd_sign_def)
  with that assms(2) \<open>0 < v\<close> show thesis by (metis less_le neg_0_less_iff_less neg_equal_0_iff_equal not_less_iff_gr_or_eq)
qed

end
