(* ===== verification/BTree.thy ===== *)
theory BTree
  imports Rust_Str
begin

text \<open>
  \<^verbatim>\<open>BTreeMap\<close> (and \<^verbatim>\<open>serde_json::Map\<close>, which is a \<^verbatim>\<open>BTreeMap\<close> in this build) as the association
  list of its entries in key order. Iterating over the map is iterating over the list. The
  locale \<open>ordered_map\<close> is the interface its clients rely on; the lemmas they need about
  building a map from a sequence of entries are proved once in it.
\<close>

lemma map_of_distinct_rev: "distinct (map fst xs) \<Longrightarrow> map_of (rev xs) = map_of xs"
  by (subst map_of_inject_set) (simp_all add: rev_map [symmetric])

section \<open>The interface\<close>

locale ordered_map =
  fixes empty :: 'm
    and get :: "'m \<Rightarrow> 'k \<Rightarrow> 'v option"
    and insert :: "'k \<Rightarrow> 'v \<Rightarrow> 'm \<Rightarrow> 'm"
    and remove :: "'k \<Rightarrow> 'm \<Rightarrow> 'm"
    and entries :: "'m \<Rightarrow> ('k \<times> 'v) list"
    and wf :: "'m \<Rightarrow> bool"
  assumes get_empty: "get empty k = None"
    and wf_empty: "wf empty"
    and get_insert: "wf m \<Longrightarrow> get (insert k v m) = (get m)(k := Some v)"
    and wf_insert: "wf m \<Longrightarrow> wf (insert k v m)"
    and get_remove: "wf m \<Longrightarrow> get (remove k m) = (get m)(k := None)"
    and wf_remove: "wf m \<Longrightarrow> wf (remove k m)"
    and entries_get: "wf m \<Longrightarrow> (k, v) \<in> set (entries m) \<longleftrightarrow> get m k = Some v"
    and entries_distinct: "wf m \<Longrightarrow> distinct (map fst (entries m))"
    and extensional: "wf m \<Longrightarrow> wf m' \<Longrightarrow> get m = get m' \<Longrightarrow> m = m'"
begin

lemma wf_insert_all: "wf m \<Longrightarrow> wf (foldl (\<lambda>m (k, v). insert k v m) m xs)"
  by (induction xs arbitrary: m) (auto simp: wf_insert)

lemma get_insert_all:
  "wf m \<Longrightarrow> get (foldl (\<lambda>m (k, v). insert k v m) m xs) = get m ++ map_of (rev xs)"
proof (induction xs arbitrary: m)
  case (Cons x xs)
  obtain k v where x: "x = (k, v)" by (cases x)
  have "get (foldl (\<lambda>m (k, v). insert k v m) m (x # xs)) = (get m)(k := Some v) ++ map_of (rev xs)"
    using Cons x by (simp add: wf_insert get_insert fun_upd_def)
  then show ?case using x by (auto simp: map_add_def fun_eq_iff split: option.splits)
qed (simp add: fun_eq_iff)

lemma get_collect:
  assumes "distinct (map fst xs)"
  shows "get (foldl (\<lambda>m (k, v). insert k v m) empty xs) = map_of xs"
proof -
  have "get empty = Map.empty" by (simp add: get_empty fun_eq_iff)
  moreover have "map_of (rev xs) = map_of xs"
    using assms by (rule map_of_distinct_rev)
  ultimately show ?thesis by (simp add: get_insert_all wf_empty)
qed

lemma collect_entries: "wf m \<Longrightarrow> foldl (\<lambda>m (k, v). insert k v m) empty (entries m) = m"
proof (rule extensional)
  assume wf: "wf m"
  show "wf (foldl (\<lambda>m (k, v). insert k v m) empty (entries m))"
    by (simp add: wf_insert_all wf_empty)
  show "get (foldl (\<lambda>m (k, v). insert k v m) empty (entries m)) = get m"
  proof
    fix k
    have "map_of (entries m) k = Some v \<longleftrightarrow> get m k = Some v" for v
      using entries_distinct [OF wf] entries_get [OF wf] by simp
    then have "map_of (entries m) k = get m k" by (metis option.exhaust)
    then show "get (foldl (\<lambda>m (k, v). insert k v m) empty (entries m)) k = get m k"
      by (simp add: get_collect entries_distinct [OF wf])
  qed
qed

lemma get_dom_entries: "wf m \<Longrightarrow> get m k = None \<longleftrightarrow> k \<notin> fst ` set (entries m)"
proof -
  assume wf: "wf m"
  have "k \<in> fst ` set (entries m) \<longleftrightarrow> (\<exists>v. (k, v) \<in> set (entries m))" by force
  also have "\<dots> \<longleftrightarrow> (\<exists>v. get m k = Some v)" by (simp add: entries_get [OF wf])
  finally show ?thesis by auto
qed

end

section \<open>Sorted association lists\<close>

type_synonym ('k, 'v) btree = "('k \<times> 'v) list"

definition bt_wf :: "('k::linorder, 'v) btree \<Rightarrow> bool" where
  "bt_wf m \<longleftrightarrow> sorted_wrt (<) (map fst m)"

definition bt_get :: "('k::linorder, 'v) btree \<Rightarrow> 'k \<Rightarrow> 'v option" where
  "bt_get m k = map_of m k"

fun bt_insert :: "'k::linorder \<Rightarrow> 'v \<Rightarrow> ('k, 'v) btree \<Rightarrow> ('k, 'v) btree" where
  "bt_insert k v [] = [(k, v)]"
| "bt_insert k v ((k', v') # m) =
     (if k < k' then (k, v) # (k', v') # m
      else if k = k' then (k, v) # m
      else (k', v') # bt_insert k v m)"

definition bt_remove :: "'k::linorder \<Rightarrow> ('k, 'v) btree \<Rightarrow> ('k, 'v) btree" where
  "bt_remove k m = filter (\<lambda>e. fst e \<noteq> k) m"

definition bt_contains_key :: "('k::linorder, 'v) btree \<Rightarrow> 'k \<Rightarrow> bool" where
  "bt_contains_key m k \<longleftrightarrow> bt_get m k \<noteq> None"

text \<open>\<^verbatim>\<open>iter.collect::<BTreeMap<_, _>>()\<close>: insert one entry after the other, the last one wins.\<close>

definition bt_collect :: "('k::linorder \<times> 'v) list \<Rightarrow> ('k, 'v) btree" where
  "bt_collect xs = foldl (\<lambda>m (k, v). bt_insert k v m) [] xs"

lemma bt_wf_Cons:
  "bt_wf (e # m) \<longleftrightarrow> (\<forall>k \<in> fst ` set m. fst e < k) \<and> bt_wf m"
  by (auto simp: bt_wf_def)

lemma bt_wf_Nil [simp]: "bt_wf []"
  by (simp add: bt_wf_def)

lemma bt_get_simps [simp]:
  "bt_get [] k = None"
  "bt_get ((k', v) # m) k = (if k = k' then Some v else bt_get m k)"
  by (auto simp: bt_get_def)

lemma set_keys_bt_insert: "fst ` set (bt_insert k v m) = Set.insert k (fst ` set m)"
  by (induction k v m rule: bt_insert.induct) auto

lemma bt_wf_bt_insert: "bt_wf m \<Longrightarrow> bt_wf (bt_insert k v m)"
  by (induction k v m rule: bt_insert.induct) (auto simp: bt_wf_Cons set_keys_bt_insert)

lemma bt_get_bt_insert: "bt_get (bt_insert k v m) = (bt_get m)(k := Some v)"
  by (induction k v m rule: bt_insert.induct) (auto simp: fun_eq_iff)

lemma bt_get_bt_remove: "bt_get (bt_remove k m) = (bt_get m)(k := None)"
  by (induction m) (auto simp: bt_remove_def fun_eq_iff)

lemma bt_wf_filter: "bt_wf m \<Longrightarrow> bt_wf (filter p m)"
  by (induction m) (auto simp: bt_wf_Cons)

lemma bt_wf_bt_remove: "bt_wf m \<Longrightarrow> bt_wf (bt_remove k m)"
  by (simp add: bt_remove_def bt_wf_filter)

lemma bt_wf_distinct: "bt_wf m \<Longrightarrow> distinct (map fst m)"
  by (simp add: bt_wf_def strict_sorted_iff)

lemma bt_extensional:
  assumes "bt_wf m" and "bt_wf m'" and "bt_get m = bt_get m'"
  shows "m = m'"
proof -
  have d: "distinct (map fst m)" "distinct (map fst m')"
    using assms by (simp_all add: bt_wf_distinct)
  have "map_of m = map_of m'" using assms(3) by (simp add: bt_get_def fun_eq_iff)
  then have "set m = set m'" using d by (simp add: map_of_inject_set)
  moreover have "sorted (map fst m)" "sorted (map fst m')"
    using assms by (simp_all add: bt_wf_def strict_sorted_iff)
  ultimately show ?thesis
    using d map_sorted_distinct_set_unique [of fst m m']
    by (simp add: distinct_map)
qed

interpretation bt: ordered_map "[]" bt_get bt_insert bt_remove "\<lambda>m. m" bt_wf
proof
  fix m :: "('a, 'b) btree" and k v
  show "bt_wf m \<Longrightarrow> (k, v) \<in> set m \<longleftrightarrow> bt_get m k = Some v"
    by (simp add: bt_get_def bt_wf_distinct)
qed (simp_all add: bt_get_bt_insert bt_wf_bt_insert bt_get_bt_remove bt_wf_bt_remove
       bt_wf_distinct bt_extensional)

section \<open>What the clients use\<close>

lemma bt_wf_collect [simp]: "bt_wf (bt_collect xs)"
  unfolding bt_collect_def by (rule bt.wf_insert_all) simp

lemma bt_get_collect: "bt_get (bt_collect xs) = map_of (rev xs)"
proof -
  have "bt_get ([] :: ('a, 'b) btree) = Map.empty" by (simp add: fun_eq_iff)
  then show ?thesis unfolding bt_collect_def by (subst bt.get_insert_all) simp_all
qed

lemma bt_get_collect_distinct: "distinct (map fst xs) \<Longrightarrow> bt_get (bt_collect xs) = map_of xs"
  unfolding bt_collect_def by (rule bt.get_collect)

lemma bt_collect_id: "bt_wf m \<Longrightarrow> bt_collect m = m"
  unfolding bt_collect_def by (rule bt.collect_entries)

lemma bt_get_in_set: "bt_get m k = Some v \<Longrightarrow> (k, v) \<in> set m"
  by (simp add: bt_get_def map_of_SomeD)

lemma bt_get_filter:
  "bt_wf m \<Longrightarrow> bt_get (filter p m) k = (case bt_get m k of
     Some v \<Rightarrow> if p (k, v) then Some v else None | None \<Rightarrow> None)"
proof (induction m)
  case (Cons e m)
  obtain k' v' where e: "e = (k', v')" by (cases e)
  have "bt_get m k' = None"
    using Cons.prems e by (auto simp: bt_wf_Cons bt_get_def map_of_eq_None_iff)
  with Cons e show ?case by (auto simp: bt_wf_Cons split: option.splits)
qed simp

lemma bt_get_Nil_iff: "bt_wf m \<Longrightarrow> m = [] \<longleftrightarrow> (\<forall>k. bt_get m k = None)"
proof
  assume "bt_wf m" and none: "\<forall>k. bt_get m k = None"
  show "m = []"
  proof (cases m)
    case (Cons e n)
    then have "bt_get m (fst e) = Some (snd e)" by (cases e) simp
    with none show ?thesis by simp
  qed
qed simp

lemma bt_collect_same_map:
  "map_of (rev xs) = map_of (rev ys) \<Longrightarrow> bt_collect xs = bt_collect ys"
  by (rule bt_extensional) (simp_all add: bt_get_collect)

lemma bt_collect_distinct_cong:
  assumes "distinct (map fst xs)" and "distinct (map fst ys)" and "set xs = set ys"
  shows "bt_collect xs = bt_collect ys"
  by (rule bt_extensional)
    (simp_all add: bt_get_collect_distinct assms map_of_inject_set [OF assms(1,2)])

end
