(* ===== verification/Json.thy ===== *)
theory Json
  imports F64 BTree
begin

text \<open>
  The data of \<^verbatim>\<open>serde_json\<close>: one constructor per variant of \<^verbatim>\<open>Value\<close>, with objects as ordered
  maps and the three forms a \<^verbatim>\<open>Number\<close> takes (a \<^verbatim>\<open>u64\<close>, a negative \<^verbatim>\<open>i64\<close>, a finite
  \<^verbatim>\<open>f64\<close>). \<open>json_wf\<close> is the invariant every value the crate builds satisfies. Only data and
  its projections are here; parsing, printing and JSON-pointer resolution stay parameters of
  the definitions that use them.
\<close>

datatype jnum = PosInt nat | NegInt int | Float f64

datatype json =
    JNull
  | JBool bool
  | JNum jnum
  | JStr string
  | JArr "json list"
  | JObj "(string \<times> json) list"

type_synonym jmap = "(string, json) btree"

section \<open>Projections\<close>

fun as_bool :: "json \<Rightarrow> bool option" where
  "as_bool (JBool b) = Some b"
| "as_bool _ = None"

fun as_str :: "json \<Rightarrow> string option" where
  "as_str (JStr s) = Some s"
| "as_str _ = None"

fun as_array :: "json \<Rightarrow> json list option" where
  "as_array (JArr xs) = Some xs"
| "as_array _ = None"

fun as_object :: "json \<Rightarrow> jmap option" where
  "as_object (JObj m) = Some m"
| "as_object _ = None"

fun as_u64 :: "json \<Rightarrow> nat option" where
  "as_u64 (JNum (PosInt n)) = Some n"
| "as_u64 _ = None"

fun as_i64 :: "json \<Rightarrow> int option" where
  "as_i64 (JNum (PosInt n)) = (if n < 2 ^ 63 then Some (int n) else None)"
| "as_i64 (JNum (NegInt i)) = Some i"
| "as_i64 _ = None"

fun as_f64 :: "json \<Rightarrow> f64 option" where
  "as_f64 (JNum (PosInt n)) = Some (int_as_f64 (int n))"
| "as_f64 (JNum (NegInt i)) = Some (int_as_f64 i)"
| "as_f64 (JNum (Float x)) = Some x"
| "as_f64 _ = None"

fun is_null :: "json \<Rightarrow> bool" where
  "is_null JNull = True"
| "is_null _ = False"

fun is_boolean :: "json \<Rightarrow> bool" where
  "is_boolean (JBool b) = True"
| "is_boolean _ = False"

fun is_number :: "json \<Rightarrow> bool" where
  "is_number (JNum n) = True"
| "is_number _ = False"

fun is_string :: "json \<Rightarrow> bool" where
  "is_string (JStr s) = True"
| "is_string _ = False"

fun is_array :: "json \<Rightarrow> bool" where
  "is_array (JArr xs) = True"
| "is_array _ = False"

fun is_object :: "json \<Rightarrow> bool" where
  "is_object (JObj m) = True"
| "is_object _ = False"

text \<open>\<^verbatim>\<open>Value::get\<close> with a string key.\<close>

definition jget :: "json \<Rightarrow> string \<Rightarrow> json option" where
  "jget v k = (case v of JObj m \<Rightarrow> bt_get m k | _ \<Rightarrow> None)"

text \<open>\<^verbatim>\<open>value["key"]\<close> on a shared reference: null where there is no such member.\<close>

definition jindex :: "json \<Rightarrow> string \<Rightarrow> json" where
  "jindex v k = unwrap_or JNull (jget v k)"

section \<open>Equality and well-formedness\<close>

text \<open>
  \<^verbatim>\<open>PartialEq\<close> on values compares floats with \<^verbatim>\<open>==\<close>, so the two zeros are equal; everything
  else is structural. \<open>jnorm\<close> picks the positive zero.
\<close>

fun fnorm :: "jnum \<Rightarrow> jnum" where
  "fnorm (Float x) = Float (if x = NegZero then Fin 0 else x)"
| "fnorm n = n"

primrec jnorm :: "json \<Rightarrow> json" where
  "jnorm JNull = JNull"
| "jnorm (JBool b) = JBool b"
| "jnorm (JNum n) = JNum (fnorm n)"
| "jnorm (JStr s) = JStr s"
| "jnorm (JArr xs) = JArr (map jnorm xs)"
| "jnorm (JObj m) = JObj (map (map_prod id jnorm) m)"

definition json_eq :: "json \<Rightarrow> json \<Rightarrow> bool" where
  "json_eq a b \<longleftrightarrow> jnorm a = jnorm b"

fun jnum_wf :: "jnum \<Rightarrow> bool" where
  "jnum_wf (PosInt n) = (n < 2 ^ 64)"
| "jnum_wf (NegInt i) = (- (2 ^ 63) \<le> i \<and> i < 0)"
| "jnum_wf (Float x) = is_finite x"

fun json_wf :: "json \<Rightarrow> bool" where
  "json_wf (JNum n) = jnum_wf n"
| "json_wf (JArr xs) = (\<forall>x \<in> set xs. json_wf x)"
| "json_wf (JObj m) = (bt_wf m \<and> (\<forall>(k, v) \<in> set m. json_wf v))"
| "json_wf _ = True"

section \<open>Laws\<close>

lemma json_eq_refl [simp]: "json_eq a a"
  by (simp add: json_eq_def)

lemma json_eq_sym: "json_eq a b \<Longrightarrow> json_eq b a"
  by (simp add: json_eq_def)

lemma json_eq_trans: "json_eq a b \<Longrightarrow> json_eq b c \<Longrightarrow> json_eq a c"
  by (simp add: json_eq_def)

lemma json_eq_JNull [simp]: "json_eq JNull v \<longleftrightarrow> v = JNull" "json_eq v JNull \<longleftrightarrow> v = JNull"
  by (cases v; simp add: json_eq_def)+

lemma json_eq_JBool [simp]: "json_eq v (JBool b) \<longleftrightarrow> v = JBool b"
  by (cases v; simp add: json_eq_def)

lemma json_wf_get: "json_wf (JObj m) \<Longrightarrow> bt_get m k = Some v \<Longrightarrow> json_wf v"
  by (auto dest!: bt_get_in_set)

lemma json_wf_insert:
  assumes "json_wf (JObj m)" and "json_wf v"
  shows "json_wf (JObj (bt_insert k v m))"
proof -
  have wf: "bt_wf (bt_insert k v m)" using assms by (simp add: bt_wf_bt_insert)
  have "json_wf v'" if "(k', v') \<in> set (bt_insert k v m)" for k' v'
  proof -
    have "bt_get (bt_insert k v m) k' = Some v'" using that wf by (simp add: bt.entries_get)
    then show ?thesis
      using assms by (auto simp: bt_get_bt_insert split: if_splits dest: bt_get_in_set)
  qed
  with wf show ?thesis by auto
qed

lemma json_wf_remove: "json_wf (JObj m) \<Longrightarrow> json_wf (JObj (bt_remove k m))"
  by (auto simp: bt_wf_filter bt_remove_def)

lemma jget_simps [simp]:
  "jget (JObj m) k = bt_get m k" "jget JNull k = None" "jget (JStr s) k = None"
  "jget (JArr xs) k = None" "jget (JBool b) k = None" "jget (JNum n) k = None"
  by (simp_all add: jget_def)

end
