(* ===== verification/Shadow.thy ===== *)
theory Shadow
  imports Json
begin

text \<open>
  \<^verbatim>\<open>crates/backend-core/src/shadows.rs\<close>: a device shadow holds the state an operator wants
  (desired), the state the device last reported, and their difference (delta). Every mutation
  recomputes the delta and bumps a checked 32-bit version. The locale \<open>shadow_mutation\<close> is
  the contract the mutations share; histories of mutations are reasoned about in it.
\<close>

section \<open>Data\<close>

record shadow_record =
  sh_device_id :: string
  sh_desired :: json
  sh_reported :: json
  sh_delta :: json
  sh_version :: int
  sh_updated_at :: int

datatype shadow_mutation_error = VersionOverflow

section \<open>Operations\<close>

definition object_or_empty :: "json \<Rightarrow> json" where
  "object_or_empty value = (if is_object value then value else JObj [])"

definition next_version :: "int \<Rightarrow> (shadow_mutation_error, int) result" where
  "next_version version = (if version + 1 < 2 ^ 31 then Ok (version + 1) else Err VersionOverflow)"

definition compute_delta :: "json \<Rightarrow> json \<Rightarrow> json" where
  "compute_delta desired reported =
     (case (as_object desired, as_object reported) of
        (Some d, Some r) \<Rightarrow>
          JObj (foldl (\<lambda>delta (key, val).
                  (case bt_get r key of
                     Some reported_val \<Rightarrow>
                       if json_eq reported_val val then delta else bt_insert key val delta
                   | None \<Rightarrow> bt_insert key val delta)) [] d)
      | (Some _, None) \<Rightarrow> desired
      | _ \<Rightarrow> JObj [])"

definition merge_json :: "json \<Rightarrow> jmap \<Rightarrow> json" where
  "merge_json existing patch =
     JObj (foldl (\<lambda>obj (key, val). if is_null val then bt_remove key obj else bt_insert key val obj)
             (case existing of JObj m \<Rightarrow> m | _ \<Rightarrow> []) patch)"

definition apply_desired_patch ::
  "shadow_record \<Rightarrow> jmap \<Rightarrow> int \<Rightarrow> (shadow_mutation_error, shadow_record) result" where
  "apply_desired_patch shadow patch updated_at =
     (let desired = merge_json (object_or_empty (sh_desired shadow)) patch;
          reported = object_or_empty (sh_reported shadow);
          shadow' = shadow\<lparr>sh_delta := compute_delta desired reported,
                           sh_desired := desired, sh_reported := reported\<rparr>
      in rbind (next_version (sh_version shadow))
           (\<lambda>v. Ok (shadow'\<lparr>sh_version := v, sh_updated_at := updated_at\<rparr>)))"

definition apply_reported_patch ::
  "shadow_record \<Rightarrow> jmap \<Rightarrow> int \<Rightarrow> (shadow_mutation_error, shadow_record) result" where
  "apply_reported_patch shadow patch updated_at =
     (let desired = object_or_empty (sh_desired shadow);
          reported = merge_json (object_or_empty (sh_reported shadow)) patch;
          shadow' = shadow\<lparr>sh_delta := compute_delta desired reported,
                           sh_desired := desired, sh_reported := reported\<rparr>
      in rbind (next_version (sh_version shadow))
           (\<lambda>v. Ok (shadow'\<lparr>sh_version := v, sh_updated_at := updated_at\<rparr>)))"

definition reset_shadow ::
  "shadow_record \<Rightarrow> int \<Rightarrow> (shadow_mutation_error, shadow_record) result" where
  "reset_shadow shadow updated_at =
     (let shadow' = shadow\<lparr>sh_desired := JObj [], sh_reported := JObj [], sh_delta := JObj []\<rparr>
      in rbind (next_version (sh_version shadow))
           (\<lambda>v. Ok (shadow'\<lparr>sh_version := v, sh_updated_at := updated_at\<rparr>)))"

definition clear_ota_for_deployment ::
  "shadow_record \<Rightarrow> int \<Rightarrow> int \<Rightarrow> (shadow_mutation_error, shadow_record option) result" where
  "clear_ota_for_deployment shadow deployment_id updated_at =
     (if as_i64 (jindex (jindex (sh_desired shadow) ''ota'') ''deployment_id'') \<noteq> Some deployment_id
      then Ok None
      else rbind (apply_desired_patch shadow (bt_insert ''ota'' JNull []) updated_at)
             (\<lambda>s. Ok (Some s)))"

section \<open>Lookup in a delta and in a merged object\<close>

definition differs :: "json option \<Rightarrow> json \<Rightarrow> bool" where
  "differs rv v = (case rv of Some w \<Rightarrow> \<not> json_eq w v | None \<Rightarrow> True)"

lemma delta_fold_filter:
  "foldl (\<lambda>delta (key, val).
      (case bt_get r key of
         Some reported_val \<Rightarrow> if json_eq reported_val val then delta else bt_insert key val delta
       | None \<Rightarrow> bt_insert key val delta)) acc d
   = foldl (\<lambda>m (k, v). bt_insert k v m) acc (filter (\<lambda>(k, v). differs (bt_get r k) v) d)"
  by (induction d arbitrary: acc) (auto simp: differs_def split: option.splits)

lemma compute_delta_objects:
  assumes "bt_wf d"
  shows "compute_delta (JObj d) (JObj r) = JObj (filter (\<lambda>(k, v). differs (bt_get r k) v) d)"
proof -
  let ?f = "filter (\<lambda>(k, v). differs (bt_get r k) v) d"
  have "foldl (\<lambda>m (k, v). bt_insert k v m) [] ?f = ?f"
    using bt_collect_id [of ?f] assms by (simp add: bt_collect_def bt_wf_filter)
  then show ?thesis by (simp add: compute_delta_def delta_fold_filter)
qed

lemma merge_fold_wf:
  "bt_wf m \<Longrightarrow> bt_wf (foldl (\<lambda>obj (k, v). if is_null v then bt_remove k obj else bt_insert k v obj) m p)"
  by (induction p arbitrary: m) (auto simp: bt_wf_bt_remove bt_wf_bt_insert)

lemma merge_fold_get:
  "distinct (map fst p) \<Longrightarrow>
   bt_get (foldl (\<lambda>obj (k, v). if is_null v then bt_remove k obj else bt_insert k v obj) m p) k =
     (case map_of p k of
        Some v \<Rightarrow> if is_null v then None else Some v
      | None \<Rightarrow> bt_get m k)"
proof (induction p arbitrary: m)
  case (Cons e p)
  obtain k' v' where e: "e = (k', v')" by (cases e)
  have notin: "map_of p k' = None"
    using Cons.prems e by (simp add: map_of_eq_None_iff)
  show ?case
    using Cons e notin
    by (cases "k = k'") (simp_all add: bt_get_bt_remove bt_get_bt_insert split: option.splits)
qed simp

lemma merge_json_get:
  assumes "bt_wf p"
  shows "jget (merge_json (JObj m) p) k = (case bt_get p k of
           Some v \<Rightarrow> if is_null v then None else Some v
         | None \<Rightarrow> bt_get m k)"
  using merge_fold_get [OF bt_wf_distinct [OF assms]]
  by (simp add: merge_json_def bt_get_def [of p])

lemma merge_json_object:
  assumes "bt_wf m"
  obtains m' where "merge_json (JObj m) p = JObj m'" and "bt_wf m'"
  using merge_fold_wf [OF assms] by (simp add: merge_json_def)

section \<open>Well-formed shadows\<close>

definition no_null_members :: "jmap \<Rightarrow> bool" where
  "no_null_members m \<longleftrightarrow> (\<forall>(k, v) \<in> set m. v \<noteq> JNull)"

text \<open>The invariant every stored shadow satisfies once it has been mutated.\<close>

definition shadow_inv :: "shadow_record \<Rightarrow> bool" where
  "shadow_inv s \<longleftrightarrow>
     (\<exists>d r. sh_desired s = JObj d \<and> sh_reported s = JObj r \<and> bt_wf d \<and> bt_wf r
        \<and> no_null_members d
        \<and> sh_delta s = compute_delta (JObj d) (JObj r))
     \<and> - (2 ^ 31) \<le> sh_version s \<and> sh_version s < 2 ^ 31"


text \<open>A mutation of a stored shadow, as a caller requests it.\<close>

datatype shadow_op = PatchDesired jmap int | PatchReported jmap int | ResetShadow int

fun apply_op :: "shadow_op \<Rightarrow> shadow_record \<Rightarrow> (shadow_mutation_error, shadow_record) result" where
  "apply_op (PatchDesired patch t) s = apply_desired_patch s patch t"
| "apply_op (PatchReported patch t) s = apply_reported_patch s patch t"
| "apply_op (ResetShadow t) s = reset_shadow s t"

fun op_wf :: "shadow_op \<Rightarrow> bool" where
  "op_wf (PatchDesired patch t) = bt_wf patch"
| "op_wf (PatchReported patch t) = bt_wf patch"
| "op_wf (ResetShadow t) = True"

fun run_ops :: "('op \<Rightarrow> 's \<Rightarrow> ('e, 's) result) \<Rightarrow> 'op list \<Rightarrow> 's \<Rightarrow> ('e, 's) result" where
  "run_ops f [] s = Ok s"
| "run_ops f (x # xs) s = rbind (f x s) (run_ops f xs)"

section \<open>The contract of a mutation\<close>

locale shadow_mutation =
  fixes mutate :: "'op \<Rightarrow> shadow_record \<Rightarrow> (shadow_mutation_error, shadow_record) result"
    and wf_op :: "'op \<Rightarrow> bool"
  assumes fails_iff: "mutate x s = Err e \<longleftrightarrow> 2 ^ 31 \<le> sh_version s + 1"
    and bumps: "mutate x s = Ok s' \<Longrightarrow> sh_version s' = sh_version s + 1"
    and same_device: "mutate x s = Ok s' \<Longrightarrow> sh_device_id s' = sh_device_id s"
    and keeps_inv: "wf_op x \<Longrightarrow> shadow_inv s \<Longrightarrow> mutate x s = Ok s' \<Longrightarrow> shadow_inv s'"
begin

lemma history:
  assumes "run_ops mutate xs s = Ok s'" and "shadow_inv s" and "\<forall>x \<in> set xs. wf_op x"
  shows "shadow_inv s' \<and> sh_version s' = sh_version s + int (length xs)
    \<and> sh_device_id s' = sh_device_id s"
  using assms
proof (induction xs arbitrary: s)
  case (Cons x xs)
  from Cons.prems(1) obtain t where t: "mutate x s = Ok t" and rest: "run_ops mutate xs t = Ok s'"
    by (auto simp: rbind_Inr_iff)
  have "shadow_inv t" using keeps_inv t Cons.prems by auto
  with Cons.IH [OF rest] Cons.prems(3) bumps [OF t] same_device [OF t] show ?case by auto
qed simp

lemma succeeds_until_limit:
  "sh_version s + int (length xs) < 2 ^ 31 \<Longrightarrow> \<exists>s'. run_ops mutate xs s = Ok s'"
proof (induction xs arbitrary: s)
  case (Cons x xs)
  obtain t where t: "mutate x s = Ok t"
    using Cons.prems fails_iff [of x s] by (cases "mutate x s") auto
  with Cons bumps [OF t] show ?case by simp
qed simp

end

section \<open>The mutations satisfy the contract\<close>

lemma is_null_iff: "is_null v \<longleftrightarrow> v = JNull"
  by (cases v) auto

lemma no_null_members_iff: "bt_wf m \<Longrightarrow> no_null_members m \<longleftrightarrow> (\<forall>k. bt_get m k \<noteq> Some JNull)"
  by (auto simp: no_null_members_def bt.entries_get)

lemma next_version_iff [simp]:
  "next_version v = Ok w \<longleftrightarrow> v + 1 < 2 ^ 31 \<and> w = v + 1"
  "next_version v = Err e \<longleftrightarrow> 2 ^ 31 \<le> v + 1"
  by (cases e; auto simp: next_version_def)+

lemma mutation_shape:
  assumes "rbind (next_version (sh_version s)) (\<lambda>v. Ok (t\<lparr>sh_version := v, sh_updated_at := u\<rparr>)) = Ok s'"
  shows "sh_version s' = sh_version s + 1" "sh_version s + 1 < 2 ^ 31"
    "sh_device_id s' = sh_device_id t" "sh_desired s' = sh_desired t"
    "sh_reported s' = sh_reported t" "sh_delta s' = sh_delta t" "sh_updated_at s' = u"
  using assms by (auto simp: rbind_Inr_iff)

lemma object_or_empty_obj [simp]: "object_or_empty (JObj m) = JObj m"
  by (simp add: object_or_empty_def)

lemma no_null_merge:
  assumes "bt_wf m" "bt_wf p" "no_null_members m" "merge_json (JObj m) p = JObj m'" "bt_wf m'"
  shows "no_null_members m'"
  using merge_json_get [OF assms(2), of m] assms
  by (auto simp: no_null_members_iff is_null_iff split: option.splits if_splits)

lemma desired_patch_inv:
  assumes "bt_wf p" "shadow_inv s" "apply_desired_patch s p u = Ok s'"
  shows "shadow_inv s'"
proof -
  obtain d r where s: "sh_desired s = JObj d" "sh_reported s = JObj r" "bt_wf d" "bt_wf r"
      "no_null_members d" "- (2 ^ 31) \<le> sh_version s"
    using assms(2) by (auto simp: shadow_inv_def)
  obtain d' where d': "merge_json (JObj d) p = JObj d'" "bt_wf d'"
    using merge_json_object [OF s(3)] by blast
  note shape = mutation_shape [OF assms(3) [unfolded apply_desired_patch_def Let_def]]
  show ?thesis
    using shape s d' no_null_merge [OF s(3) assms(1) s(5) d'] by (simp add: shadow_inv_def)
qed

lemma reported_patch_inv:
  assumes "shadow_inv s" "apply_reported_patch s p u = Ok s'"
  shows "shadow_inv s'"
proof -
  obtain d r where s: "sh_desired s = JObj d" "sh_reported s = JObj r" "bt_wf d" "bt_wf r"
      "no_null_members d" "- (2 ^ 31) \<le> sh_version s"
    using assms(1) by (auto simp: shadow_inv_def)
  obtain r' where r': "merge_json (JObj r) p = JObj r'" "bt_wf r'"
    using merge_json_object [OF s(4)] by blast
  note shape = mutation_shape [OF assms(2) [unfolded apply_reported_patch_def Let_def]]
  show ?thesis using shape s r' by (simp add: shadow_inv_def)
qed

lemma reset_inv:
  assumes "shadow_inv s" "reset_shadow s u = Ok s'"
  shows "shadow_inv s'"
  using mutation_shape [OF assms(2) [unfolded reset_shadow_def Let_def]] assms(1)
  by (simp add: shadow_inv_def no_null_members_def compute_delta_def)

lemma apply_op_inv: "op_wf x \<Longrightarrow> shadow_inv s \<Longrightarrow> apply_op x s = Ok s' \<Longrightarrow> shadow_inv s'"
  by (cases x) (auto intro: desired_patch_inv reported_patch_inv reset_inv)

lemma apply_op_shape: "\<exists>t u. sh_device_id t = sh_device_id s \<and> apply_op x s =
    rbind (next_version (sh_version s)) (\<lambda>v. Ok (t\<lparr>sh_version := v, sh_updated_at := u\<rparr>))"
proof (cases x)
  case (PatchDesired p u)
  show ?thesis
    unfolding PatchDesired apply_op.simps apply_desired_patch_def Let_def
    by (intro exI conjI [rotated], rule refl) simp
next
  case (PatchReported p u)
  show ?thesis
    unfolding PatchReported apply_op.simps apply_reported_patch_def Let_def
    by (intro exI conjI [rotated], rule refl) simp
next
  case (ResetShadow u)
  show ?thesis
    unfolding ResetShadow apply_op.simps reset_shadow_def Let_def
    by (intro exI conjI [rotated], rule refl) simp
qed

interpretation mutation: shadow_mutation apply_op op_wf
proof
  fix x s e s'
  obtain t u where t: "sh_device_id t = sh_device_id s" and eq: "apply_op x s =
      rbind (next_version (sh_version s)) (\<lambda>v. Ok (t\<lparr>sh_version := v, sh_updated_at := u\<rparr>))"
    using apply_op_shape by metis
  show "apply_op x s = Err e \<longleftrightarrow> 2 ^ 31 \<le> sh_version s + 1"
    unfolding eq by (cases e) (auto simp: next_version_def)
  show "apply_op x s = Ok s' \<Longrightarrow> sh_version s' = sh_version s + 1"
    unfolding eq by (rule mutation_shape)
  show "apply_op x s = Ok s' \<Longrightarrow> sh_device_id s' = sh_device_id s"
    unfolding eq using t mutation_shape(3) by metis
qed (rule apply_op_inv)

section \<open>Properties\<close>

lemma delta_get:
  "bt_wf d \<Longrightarrow> jget (compute_delta (JObj d) (JObj r)) k =
     (case bt_get d k of
        Some v \<Rightarrow> if differs (bt_get r k) v then Some v else None
      | None \<Rightarrow> None)"
  by (simp add: compute_delta_objects bt_get_filter split: option.splits)

lemma not_differs: "\<not> differs rv v \<longleftrightarrow> (\<exists>w. rv = Some w \<and> json_eq w v)"
  by (auto simp: differs_def split: option.splits)

lemma delta_empty_iff:
  assumes "bt_wf d"
  shows "compute_delta (JObj d) (JObj r) = JObj [] \<longleftrightarrow>
    (\<forall>k v. bt_get d k = Some v \<longrightarrow> (\<exists>w. bt_get r k = Some w \<and> json_eq w v))"
proof -
  have "compute_delta (JObj d) (JObj r) = JObj [] \<longleftrightarrow>
      (\<forall>(k, v) \<in> set d. \<not> differs (bt_get r k) v)"
    using assms by (auto simp: compute_delta_objects filter_empty_conv)
  also have "\<dots> \<longleftrightarrow> (\<forall>k v. bt_get d k = Some v \<longrightarrow> \<not> differs (bt_get r k) v)"
    using assms by (auto simp: bt.entries_get)
  finally show ?thesis by (simp add: not_differs)
qed

lemma report_delta_converges:
  assumes d: "bt_wf d" and r: "bt_wf r" and nn: "no_null_members d"
    and delta: "compute_delta (JObj d) (JObj r) = JObj p"
    and merged: "merge_json (JObj r) p = JObj r'"
  shows "compute_delta (JObj d) (JObj r') = JObj []"
proof -
  have p: "bt_wf p" using delta d by (auto simp: compute_delta_objects bt_wf_filter)
  have get_p: "bt_get p k = (case bt_get d k of
      Some v \<Rightarrow> if differs (bt_get r k) v then Some v else None | None \<Rightarrow> None)" for k
    using delta_get [OF d, of r k] delta by simp
  have "\<exists>w. bt_get r' k = Some w \<and> json_eq w v" if v: "bt_get d k = Some v" for k v
  proof -
    have "v \<noteq> JNull" using nn d v by (auto simp: no_null_members_iff)
    moreover have "bt_get r' k = (case bt_get p k of
        Some v \<Rightarrow> if is_null v then None else Some v | None \<Rightarrow> bt_get r k)"
      using merge_json_get [OF p, of r k] merged by simp
    ultimately show ?thesis
      using v get_p [of k] by (auto simp: is_null_iff differs_def split: option.splits if_splits)
  qed
  with delta_empty_iff [OF d] show ?thesis by blast
qed

text \<open>
  C33. The delta of two objects holds, for every key, the desired value exactly when the device
  has not reported an equal value for that key, and it is the empty object exactly when every
  desired member has been reported.
\<close>

theorem delta_is_exact_difference:
  assumes "bt_wf d"
  shows "jget (compute_delta (JObj d) (JObj r)) k =
      (case bt_get d k of
         None \<Rightarrow> None
       | Some v \<Rightarrow> (case bt_get r k of
                    None \<Rightarrow> Some v
                  | Some w \<Rightarrow> if json_eq w v then None else Some v))
    \<and> (compute_delta (JObj d) (JObj r) = JObj [] \<longleftrightarrow>
        (\<forall>k v. bt_get d k = Some v \<longrightarrow> (\<exists>w. bt_get r k = Some w \<and> json_eq w v)))"
  using delta_get [OF assms, of r k] delta_empty_iff [OF assms, of r]
  by (auto simp: differs_def split: option.splits)

theorem delta_is_exact_difference_witness:
  "jget (compute_delta (JObj [(''a'', JBool True), (''b'', JNull)]) (JObj [(''a'', JBool True)])) ''b''
     = Some JNull"
proof -
  have wf: "bt_wf [(''a'', JBool True), (''b'', JNull)]" by (simp add: bt_wf_def)
  show ?thesis
    using delta_is_exact_difference [OF wf, of "[(''a'', JBool True)]" "''b''"] by simp
qed

text \<open>
  C34. A device that reports back exactly the delta it was sent ends up in sync: after the report
  the delta of a well-formed shadow is empty and its desired state is untouched.
\<close>

theorem reporting_the_delta_converges:
  assumes "shadow_inv s" and "sh_delta s = JObj p" and "apply_reported_patch s p t = Ok s'"
  shows "sh_delta s' = JObj [] \<and> sh_desired s' = sh_desired s"
proof -
  obtain d r where s: "sh_desired s = JObj d" "sh_reported s = JObj r" "bt_wf d" "bt_wf r"
      "no_null_members d" "compute_delta (JObj d) (JObj r) = JObj p"
    using assms(1,2) by (auto simp: shadow_inv_def)
  obtain r' where r': "merge_json (JObj r) p = JObj r'" using merge_json_object [OF s(4)] by blast
  note shape = mutation_shape [OF assms(3) [unfolded apply_reported_patch_def Let_def]]
  show ?thesis using shape s r' report_delta_converges [OF s(3-6) r'] by simp
qed

definition example_shadow :: shadow_record where
  "example_shadow =
     \<lparr>sh_device_id = ''device-1'',
      sh_desired = JObj [(''mode'', JStr ''eco''), (''rate'', JNum (PosInt 10))],
      sh_reported = JObj [(''rate'', JNum (PosInt 5))],
      sh_delta = JObj [(''mode'', JStr ''eco''), (''rate'', JNum (PosInt 10))],
      sh_version = 3, sh_updated_at = 1\<rparr>"

lemma example_shadow_inv: "shadow_inv example_shadow"
  by (simp add: shadow_inv_def example_shadow_def bt_wf_def no_null_members_def
      compute_delta_def json_eq_def)

theorem reporting_the_delta_converges_witness:
  "\<exists>s'. apply_reported_patch example_shadow
      [(''mode'', JStr ''eco''), (''rate'', JNum (PosInt 10))] 2 = Ok s' \<and> sh_delta s' = JObj []"
proof -
  let ?p = "[(''mode'', JStr ''eco''), (''rate'', JNum (PosInt 10))]"
  have "\<exists>s'. apply_reported_patch example_shadow ?p 2 = Ok s'"
    by (simp add: apply_reported_patch_def next_version_def Let_def example_shadow_def)
  then obtain s' where s': "apply_reported_patch example_shadow ?p 2 = Ok s'" by blast
  have "sh_delta example_shadow = JObj ?p" by (simp add: example_shadow_def)
  from reporting_the_delta_converges [OF example_shadow_inv this s'] s' show ?thesis by blast
qed

text \<open>
  C35. Any history of desired patches, reported patches and resets keeps the shadow consistent
  (its delta is the difference of its two states), never changes the device, counts every
  mutation once in the version, and fails only by exhausting the 32-bit version.
\<close>

theorem shadow_history_consistent:
  assumes "shadow_inv s" and "\<forall>x \<in> set ops. op_wf x"
  shows "(case run_ops apply_op ops s of
       Inr s' \<Rightarrow> shadow_inv s' \<and> sh_device_id s' = sh_device_id s
                \<and> sh_version s' = sh_version s + int (length ops)
     | Inl e \<Rightarrow> 2 ^ 31 \<le> sh_version s + int (length ops))"
proof (cases "run_ops apply_op ops s")
  case (Inl e)
  then have "\<not> sh_version s + int (length ops) < 2 ^ 31"
    using mutation.succeeds_until_limit [of s ops] by auto
  with Inl show ?thesis by simp
next
  case (Inr s')
  with mutation.history [OF Inr assms] show ?thesis by simp
qed

theorem shadow_history_consistent_witness:
  "\<exists>s'. run_ops apply_op [PatchDesired [(''rate'', JNull)] 2, ResetShadow 3] example_shadow = Ok s'
     \<and> shadow_inv s' \<and> sh_version s' = 5"
proof -
  let ?ops = "[PatchDesired [(''rate'', JNull)] 2, ResetShadow 3]"
  have "\<forall>x \<in> set ?ops. op_wf x" by (simp add: bt_wf_def)
  note * = shadow_history_consistent [OF example_shadow_inv this]
  have v: "sh_version example_shadow = 3" by (simp add: example_shadow_def)
  show ?thesis using * v by (cases "run_ops apply_op ?ops example_shadow") auto
qed

text \<open>
  A terminal deployment clears only its own over-the-air command: when the desired state
  carries another deployment the shadow is left alone, and when it is cleared every other desired
  member and the reported state are what they were.
\<close>

theorem clear_ota_only_own_deployment:
  assumes "shadow_inv s" and "clear_ota_for_deployment s dep t = Ok res"
  shows "(case res of
       None \<Rightarrow> as_i64 (jindex (jindex (sh_desired s) ''ota'') ''deployment_id'') \<noteq> Some dep
     | Some s' \<Rightarrow>
         as_i64 (jindex (jindex (sh_desired s) ''ota'') ''deployment_id'') = Some dep
         \<and> jget (sh_desired s') ''ota'' = None
         \<and> (\<forall>k. k \<noteq> ''ota'' \<longrightarrow> jget (sh_desired s') k = jget (sh_desired s) k)
         \<and> sh_reported s' = sh_reported s)"
proof -
  obtain d r where s: "sh_desired s = JObj d" "sh_reported s = JObj r"
    using assms(1) by (auto simp: shadow_inv_def)
  have wf: "bt_wf [(''ota'', JNull)]" by (simp add: bt_wf_def)
  show ?thesis
  proof (cases res)
    case None
    with assms(2) show ?thesis
      by (auto simp: clear_ota_for_deployment_def rbind_Inr_iff split: if_splits)
  next
    case (Some s')
    with assms(2) have own: "as_i64 (jindex (jindex (sh_desired s) ''ota'') ''deployment_id'') = Some dep"
      and ok: "apply_desired_patch s [(''ota'', JNull)] t = Ok s'"
      by (auto simp: clear_ota_for_deployment_def rbind_Inr_iff split: if_splits)
    note shape = mutation_shape [OF ok [unfolded apply_desired_patch_def Let_def]]
    show ?thesis
      using Some own shape s merge_json_get [OF wf, of d] by (simp add: bt_get_def)
  qed
qed

definition ota_shadow :: shadow_record where
  "ota_shadow =
     \<lparr>sh_device_id = ''device-1'',
      sh_desired = JObj [(''mode'', JStr ''eco''),
                         (''ota'', JObj [(''deployment_id'', JNum (PosInt 7))])],
      sh_reported = JObj [],
      sh_delta = JObj [(''mode'', JStr ''eco''),
                       (''ota'', JObj [(''deployment_id'', JNum (PosInt 7))])],
      sh_version = 3, sh_updated_at = 1\<rparr>"

theorem clear_ota_only_own_deployment_witness:
  "\<exists>s'. clear_ota_for_deployment ota_shadow 7 9 = Ok (Some s') \<and> jget (sh_desired s') ''ota'' = None"
proof -
  have inv: "shadow_inv ota_shadow"
    by (simp add: shadow_inv_def ota_shadow_def bt_wf_def no_null_members_def compute_delta_def)
  have "\<exists>s'. clear_ota_for_deployment ota_shadow 7 9 = Ok (Some s')"
    by (simp add: clear_ota_for_deployment_def apply_desired_patch_def next_version_def Let_def
        ota_shadow_def jindex_def)
  then obtain s' where s': "clear_ota_for_deployment ota_shadow 7 9 = Ok (Some s')" by blast
  from clear_ota_only_own_deployment [OF inv s'] s' show ?thesis by simp
qed

end
