(* ===== verification/Geo.thy ===== *)
theory Geo
  imports F64
begin

text \<open>
  \<^verbatim>\<open>crates/rule-engine/src/geo.rs\<close>: distances on the sphere and containment in a circle or a
  polygon, in \<open>f64\<close> arithmetic. The elementary functions whose precision the standard library
  leaves to the platform are the parameter \<open>libm\<close>.
\<close>

section \<open>Operations\<close>

record libm =
  lm_sin :: "f64 \<Rightarrow> f64"
  lm_cos :: "f64 \<Rightarrow> f64"
  lm_asin :: "f64 \<Rightarrow> f64"
  lm_sqrt :: "f64 \<Rightarrow> f64"
  lm_powi :: "f64 \<Rightarrow> int \<Rightarrow> f64"

text \<open>\<^verbatim>\<open>std::f64::consts::PI\<close> is this dyadic number.\<close>

definition PI :: f64 where
  "PI = Fin (884279719003555 / 281474976710656)"

definition EARTH_RADIUS_METERS :: f64 where
  "EARTH_RADIUS_METERS = Fin 6371000"

definition to_radians :: "f64 \<Rightarrow> f64" where
  "to_radians degrees = f64_div (f64_mul degrees PI) (Fin 180)"

definition haversine_distance :: "libm \<Rightarrow> f64 \<Rightarrow> f64 \<Rightarrow> f64 \<Rightarrow> f64 \<Rightarrow> f64" where
  "haversine_distance lm lat1 lon1 lat2 lon2 =
     (let d_lat = to_radians (f64_sub lat2 lat1);
          d_lon = to_radians (f64_sub lon2 lon1);
          lat1_rad = to_radians lat1;
          lat2_rad = to_radians lat2;
          a = f64_add (lm_powi lm (lm_sin lm (f64_div d_lat (Fin 2))) 2)
                (f64_mul (f64_mul (lm_cos lm lat1_rad) (lm_cos lm lat2_rad))
                   (lm_powi lm (lm_sin lm (f64_div d_lon (Fin 2))) 2));
          c = f64_mul (Fin 2) (lm_asin lm (lm_sqrt lm a))
      in f64_mul EARTH_RADIUS_METERS c)"

definition point_in_circle :: "libm \<Rightarrow> f64 \<Rightarrow> f64 \<Rightarrow> f64 \<Rightarrow> f64 \<Rightarrow> f64 \<Rightarrow> bool" where
  "point_in_circle lm lat lon center_lat center_lon radius_meters \<longleftrightarrow>
     f64_le (haversine_distance lm lat lon center_lat center_lon) radius_meters"

text \<open>One step of the ray: does the edge from vertex \<open>i\<close> to vertex \<open>j\<close> cross it?\<close>

fun crosses :: "f64 \<Rightarrow> f64 \<Rightarrow> f64 \<times> f64 \<Rightarrow> f64 \<times> f64 \<Rightarrow> bool" where
  "crosses lat lon (lati, loni) (latj, lonj) =
     (f64_lt lat lati \<noteq> f64_lt lat latj
      \<and> f64_lt lon
          (f64_add (f64_div (f64_mul (f64_sub lonj loni) (f64_sub lat lati)) (f64_sub latj lati)) loni))"

text \<open>The loop over the vertices: \<open>vj\<close> is the vertex before the first of the list.\<close>

fun ray_cast :: "f64 \<Rightarrow> f64 \<Rightarrow> f64 \<times> f64 \<Rightarrow> bool \<Rightarrow> (f64 \<times> f64) list \<Rightarrow> bool" where
  "ray_cast lat lon vj inside [] = inside"
| "ray_cast lat lon vj inside (vi # vs) =
     ray_cast lat lon vi (if crosses lat lon vi vj then \<not> inside else inside) vs"

definition point_in_polygon :: "f64 \<Rightarrow> f64 \<Rightarrow> (f64 \<times> f64) list \<Rightarrow> bool" where
  "point_in_polygon lat lon polygon =
     (if length polygon < 3 then False else ray_cast lat lon (last polygon) False polygon)"

section \<open>Floating-point facts for coordinates\<close>

text \<open>A coordinate as the evaluation admits it: finite, a number of the format, at most 180.\<close>

definition coord :: "f64 \<Rightarrow> bool" where
  "coord x \<longleftrightarrow> is_finite x \<and> representable (fval x) \<and> \<bar>fval x\<bar> \<le> 180"

lemma f64_neg_finite [simp]: "is_finite (f64_neg x) = is_finite x" "fval (f64_neg x) = - fval x"
  by (cases x; simp)+

lemma f64_sub_finite:
  "is_finite a \<Longrightarrow> is_finite b \<Longrightarrow> is_finite (f64_sub a b) = is_finite (rnd (fval a - fval b))
     \<and> fval (f64_sub a b) = fval (rnd (fval a - fval b))"
  by (cases b) (auto simp: f64_sub_def f64_add_def split: if_splits)

lemma pow2_1023_large: "361 \<le> pow2 1023"
proof -
  have "pow2 9 \<le> pow2 1023" by (rule pow2_mono) simp
  then show ?thesis by (simp add: pow2_def)
qed

lemma coord_diff:
  assumes "coord a" and "coord b"
  shows "is_finite (f64_sub a b)" and "f64_is_zero (f64_sub a b) \<longleftrightarrow> fval a = fval b"
proof -
  from assms have fin: "is_finite a" "is_finite b" and grid: "on_grid (fval a - fval b)"
    and small: "\<bar>fval a - fval b\<bar> < pow2 1023"
    using pow2_1023_large by (auto simp: coord_def representable_on_grid on_grid_diff)
  have "is_finite (f64_sub a b) \<and> (fval (f64_sub a b) = 0 \<longleftrightarrow> fval a = fval b)"
  proof (cases "fval a - fval b = 0")
    case True
    then show ?thesis using fin by (simp add: f64_sub_finite)
  next
    case False
    obtain v where "rnd (fval a - fval b) = Fin v" "v \<noteq> 0"
      by (rule rnd_grid [OF grid False small])
    with False show ?thesis using fin by (simp add: f64_sub_finite)
  qed
  then show "is_finite (f64_sub a b)" "f64_is_zero (f64_sub a b) \<longleftrightarrow> fval a = fval b"
    by (simp_all add: f64_is_zero_def)
qed

lemma zero_mul [simp]: "f64_is_zero z \<Longrightarrow> is_finite x \<Longrightarrow> f64_is_zero (f64_mul z x)"
  and mul_zero [simp]: "f64_is_zero z \<Longrightarrow> is_finite x \<Longrightarrow> f64_is_zero (f64_mul x z)"
  by (auto simp: f64_is_zero_def f64_mul_def rnd_sign_def)

lemma zero_div [simp]:
  "f64_is_zero z \<Longrightarrow> is_finite x \<Longrightarrow> \<not> f64_is_zero x \<Longrightarrow> f64_is_zero (f64_div z x)"
  by (auto simp: f64_is_zero_def f64_div_def rnd_sign_def)

lemma zero_add_coord:
  "f64_is_zero z \<Longrightarrow> coord x \<Longrightarrow> is_finite (f64_add z x) \<and> fval (f64_add z x) = fval x"
  by (auto simp: f64_is_zero_def f64_add_def coord_def representable_def)

lemma zero_add_zero [simp]: "f64_is_zero y \<Longrightarrow> f64_is_zero z \<Longrightarrow> f64_is_zero (f64_add y z)"
  by (auto simp: f64_is_zero_def f64_add_def)

section \<open>Polygons\<close>

text \<open>An edge along a meridian crosses the ray exactly when the point is west of it.\<close>

lemma crosses_vertical:
  assumes "coord lat" "coord lon" "coord a" "coord b" "coord lo" and "fval a \<noteq> fval b"
  shows "crosses lat lon (a, lo) (b, lo) \<longleftrightarrow>
    (fval lat < fval a) \<noteq> (fval lat < fval b) \<and> fval lon < fval lo"
proof -
  have "f64_is_zero (f64_div (f64_mul (f64_sub lo lo) (f64_sub lat a)) (f64_sub b a))"
    using assms by (simp add: coord_diff)
  from zero_add_coord [OF this assms(5)] show ?thesis
    using assms by (simp add: f64_lt_finite coord_def)
qed

lemma crosses_horizontal: "\<not> crosses lat lon (a, lo) (a, lo')"
  by simp

lemma rectangle_inside:
  assumes "coord lat" "coord lon" "coord s" "coord n" "coord w" "coord e"
    and "fval s < fval n" and "fval w < fval e"
  shows "point_in_polygon lat lon [(s, w), (s, e), (n, e), (n, w)] \<longleftrightarrow>
    fval s \<le> fval lat \<and> fval lat < fval n \<and> fval w \<le> fval lon \<and> fval lon < fval e"
proof -
  have 1: "crosses lat lon (s, w) (n, w) \<longleftrightarrow>
      (fval lat < fval s) \<noteq> (fval lat < fval n) \<and> fval lon < fval w"
    and 2: "crosses lat lon (n, e) (s, e) \<longleftrightarrow>
      (fval lat < fval n) \<noteq> (fval lat < fval s) \<and> fval lon < fval e"
    using assms by (intro crosses_vertical; simp)+
  show ?thesis
    using assms(7,8) unfolding point_in_polygon_def
    by (simp add: 1 2 crosses_horizontal del: crosses.simps) auto
qed

text \<open>
  A rectangular fence drawn as four corners contains exactly the points between its sides:
  for every point and every rectangle with coordinates in range, ray casting in \<open>f64\<close> arithmetic
  answers with no rounding error, the south and west sides belonging to the fence and the north
  and east sides not.
\<close>

theorem rectangle_fence_exact:
  assumes "coord lat" "coord lon" "coord s" "coord n" "coord w" "coord e"
    and "f64_lt s n" and "f64_lt w e"
  shows "point_in_polygon lat lon [(s, w), (s, e), (n, e), (n, w)] \<longleftrightarrow>
    f64_le s lat \<and> f64_lt lat n \<and> f64_le w lon \<and> f64_lt lon e"
  using assms rectangle_inside [OF assms(1-6)]
  by (simp add: coord_def f64_order_finite)

theorem rectangle_fence_exact_witness:
  "point_in_polygon (Fin (105 / 2)) (Fin 21) [(Fin 50, Fin 20), (Fin 50, Fin 22), (Fin 53, Fin 22), (Fin 53, Fin 20)]"
proof -
  have "coord (Fin (105 / 2)) \<and> coord (Fin 21) \<and> coord (Fin 50) \<and> coord (Fin 53) \<and> coord (Fin 20)
      \<and> coord (Fin 22)"
    by code_simp
  then show ?thesis
    using rectangle_fence_exact [of "Fin (105 / 2)" "Fin 21" "Fin 50" "Fin 53" "Fin 20" "Fin 22"]
    by (simp add: f64_order_finite)
qed

section \<open>Circles\<close>

text \<open>
  What the elementary functions promise at zero, and that the cosine of a finite argument is
  finite.
\<close>

definition libm_ok :: "libm \<Rightarrow> bool" where
  "libm_ok lm \<longleftrightarrow> (\<forall>z. f64_is_zero z \<longrightarrow> f64_is_zero (lm_sin lm z) \<and> f64_is_zero (lm_asin lm z)
      \<and> f64_is_zero (lm_sqrt lm z) \<and> f64_is_zero (lm_powi lm z 2))
     \<and> (\<forall>x. is_finite x \<longrightarrow> is_finite (lm_cos lm x) \<and> \<bar>fval (lm_cos lm x)\<bar> \<le> 1)"

lemma half_even_le: "of_int (half_even x) \<le> x + 1"
proof -
  have "half_even x \<le> \<lfloor>x\<rfloor> + 1" by (simp add: half_even_def Let_def)
  then have "(of_int (half_even x) :: rat) \<le> of_int (\<lfloor>x\<rfloor> + 1)" unfolding of_int_le_iff .
  also have "\<dots> \<le> x + 1" by simp
  finally show ?thesis .
qed

lemma half_even_nonneg: "0 \<le> x \<Longrightarrow> 0 \<le> half_even x"
  by (rule half_even_mono_int) simp

lemma round_mag_small:
  assumes "0 < r" and "r < pow2 50"
  obtains v where "round_mag r = Some v" and "0 \<le> v" and "v \<le> r + 1"
proof -
  define q where "q = max (exponent_of r - 52) (- 1074)"
  define m where "m = half_even (r / pow2 q)"
  have e: "exponent_of r < 50" by (rule exponent_of_less [OF assms])
  then have q: "pow2 q \<le> pow2 0" by (intro pow2_mono) (simp add: q_def)
  have "of_int m * pow2 q \<le> (r / pow2 q + 1) * pow2 q"
    unfolding m_def by (intro mult_right_mono half_even_le) simp
  also have "\<dots> \<le> r + 1" using q by (simp add: distrib_right pow2_def)
  finally have "of_int m * pow2 q \<le> r + 1" .
  moreover have "0 \<le> of_int m * pow2 q"
    using assms(1) by (simp add: m_def half_even_nonneg)
  moreover have "round_mag r = Some (of_int m * pow2 q)"
    using e by (simp add: round_mag_def Let_def q_def m_def)
  ultimately show thesis using that by blast
qed

lemma rnd_sign_small:
  "\<bar>r\<bar> < pow2 50 \<Longrightarrow> is_finite (rnd_sign neg \<bar>r\<bar>) \<and> \<bar>fval (rnd_sign neg \<bar>r\<bar>)\<bar> \<le> \<bar>r\<bar> + 1"
  by (cases "r = 0") (auto simp: rnd_sign_def elim!: round_mag_small [rotated])

lemma to_radians_finite:
  assumes "coord x"
  shows "is_finite (to_radians x)"
proof -
  have big: "(1000 :: rat) < pow2 50" by (simp add: pow2_def)
  from assms have x: "is_finite x" "\<bar>fval x\<bar> \<le> 180" by (simp_all add: coord_def)
  have pi: "is_finite PI" "\<bar>fval PI\<bar> \<le> 4" by (simp_all add: PI_def)
  have "\<bar>fval x * fval PI\<bar> \<le> 180 * 4" unfolding abs_mult by (rule mult_mono) (use x pi in auto)
  with big have "is_finite (f64_mul x PI) \<and> \<bar>fval (f64_mul x PI)\<bar> \<le> 721"
    using x pi rnd_sign_small [of "fval x * fval PI" "sign_bit x \<noteq> sign_bit PI"]
    by (auto simp: f64_mul_def Let_def)
  moreover from this have "\<bar>fval (f64_mul x PI) / 180\<bar> < pow2 50" using big by simp
  ultimately show ?thesis
    using rnd_sign_small [of "fval (f64_mul x PI) / 180" "sign_bit (f64_mul x PI)"]
    by (auto simp: to_radians_def f64_div_def Let_def f64_is_zero_def)
qed

lemma to_radians_zero: "f64_is_zero z \<Longrightarrow> f64_is_zero (to_radians z)"
  unfolding to_radians_def
  by (intro zero_div zero_mul) (simp_all add: PI_def f64_is_zero_def)

lemma haversine_same_point:
  assumes "libm_ok lm" and "coord lat" and "coord lon"
  shows "f64_is_zero (haversine_distance lm lat lon lat lon)"
proof -
  have half: "f64_is_zero (f64_div z (Fin 2))" if "f64_is_zero z" for z
    by (intro zero_div that) (simp_all add: f64_is_zero_def)
  have lm: "f64_is_zero (lm_sin lm z)" "f64_is_zero (lm_asin lm z)" "f64_is_zero (lm_sqrt lm z)"
      "f64_is_zero (lm_powi lm z 2)" if "f64_is_zero z" for z
    using assms(1) that by (simp_all add: libm_ok_def)
  have sq: "f64_is_zero (lm_powi lm (lm_sin lm (f64_div (to_radians (f64_sub x x)) (Fin 2))) 2)"
    if "coord x" for x
    by (intro lm half to_radians_zero) (simp add: coord_diff that)
  have cos: "is_finite (lm_cos lm (to_radians lat))" "\<bar>fval (lm_cos lm (to_radians lat))\<bar> \<le> 1"
    using assms to_radians_finite by (simp_all add: libm_ok_def)
  have "\<bar>fval (lm_cos lm (to_radians lat)) * fval (lm_cos lm (to_radians lat))\<bar> < pow2 50"
    using mult_mono [OF cos(2) cos(2)] by (simp add: abs_mult pow2_def)
  then have "is_finite (f64_mul (lm_cos lm (to_radians lat)) (lm_cos lm (to_radians lat)))"
    using cos rnd_sign_small [of "fval (lm_cos lm (to_radians lat)) * fval (lm_cos lm (to_radians lat))" False]
    by (auto simp: f64_mul_def Let_def)
  then show ?thesis
    unfolding haversine_distance_def Let_def
    by (intro mul_zero lm zero_add_zero sq assms) (simp_all add: EARTH_RADIUS_METERS_def)
qed

text \<open>
  A circular fence contains its centre whenever its radius is not negative, and contains
  everything a smaller circle around the same centre contains.
\<close>

theorem circle_fence_nested:
  assumes "libm_ok lm" and "coord lat" "coord lon" and "f64_le (Fin 0) r"
  shows "point_in_circle lm lat lon lat lon r
    \<and> (\<forall>y x r'. f64_le r r' \<longrightarrow> point_in_circle lm y x lat lon r \<longrightarrow> point_in_circle lm y x lat lon r')"
proof -
  have "f64_le z (Fin 0)" if "f64_is_zero z" for z
    using that by (auto simp: f64_is_zero_def f64_le_finite)
  with assms haversine_same_point show ?thesis
    unfolding point_in_circle_def by (blast intro: f64_le_trans)
qed

definition zero_libm :: libm where
  "zero_libm = \<lparr>lm_sin = (\<lambda>x. x), lm_cos = (\<lambda>x. Fin 1), lm_asin = (\<lambda>x. x), lm_sqrt = (\<lambda>x. x),
     lm_powi = (\<lambda>x n. f64_mul x x)\<rparr>"

theorem circle_fence_nested_witness:
  "point_in_circle zero_libm (Fin 52) (Fin 21) (Fin 52) (Fin 21) (Fin 500)
   \<and> point_in_circle zero_libm (Fin 52) (Fin 21) (Fin 52) (Fin 21) (Fin 750)"
proof -
  have ok: "libm_ok zero_libm"
    using zero_mul unfolding libm_ok_def zero_libm_def by (auto simp: f64_is_zero_def)
  have c: "coord (Fin 52)" "coord (Fin 21)" and r: "f64_le (Fin 0) (Fin 500)" "f64_le (Fin 500) (Fin 750)"
    by code_simp+
  from circle_fence_nested [OF ok c r(1)] r(2) show ?thesis by blast
qed

end
