(* ===== verification/Rule_Number.thy ===== *)
theory Rule_Number
  imports F64
begin

text \<open>
  \<^verbatim>\<open>crates/rule-engine/src/number.rs\<close> and \<^verbatim>\<open>metric.rs\<close>: the numbers a rule compares and the
  names of the metrics it reads. An integer observation is never converted to a float for a
  comparison; \<open>mn_compare\<close> is proved to be the exact order of the numbers.
\<close>

section \<open>Numbers\<close>

datatype metric_number = MInteger int | MFloat f64

fun mn_is_finite :: "metric_number \<Rightarrow> bool" where
  "mn_is_finite (MInteger i) = True"
| "mn_is_finite (MFloat x) = is_finite x"

definition mn_parse :: "string \<Rightarrow> metric_number option" where
  "mn_parse value =
     (case parse_i64 value of
        Some i \<Rightarrow> Some (MInteger i)
      | None \<Rightarrow>
          (case parse_f64 value of
             None \<Rightarrow> None
           | Some x \<Rightarrow> if is_finite x then Some (MFloat x) else None))"

text \<open>\<^verbatim>\<open>Ord::cmp\<close> on integers.\<close>

definition int_cmp :: "int \<Rightarrow> int \<Rightarrow> ordering" where
  "int_cmp a b = (if a < b then Less else if b < a then Greater else Equal)"

definition compare_integer_float :: "int \<Rightarrow> f64 \<Rightarrow> ordering" where
  "compare_integer_float integer float =
     (if f64_le (Fin 9223372036854775808) float then Less
      else if f64_lt float (Fin (- 9223372036854775808)) then Greater
      else case int_cmp integer (f64_as_i64 float) of
             Equal \<Rightarrow>
               if f64_lt (Fin 0) (f64_fract float) then Less
               else if f64_lt (f64_fract float) (Fin 0) then Greater
               else Equal
           | result \<Rightarrow> result)"

fun mn_compare_finite :: "metric_number \<Rightarrow> metric_number \<Rightarrow> ordering option" where
  "mn_compare_finite (MInteger left) (MInteger right) = Some (int_cmp left right)"
| "mn_compare_finite (MFloat left) (MFloat right) = f64_partial_cmp left right"
| "mn_compare_finite (MInteger left) (MFloat right) = Some (compare_integer_float left right)"
| "mn_compare_finite (MFloat left) (MInteger right) =
     Some (reverse (compare_integer_float right left))"

definition mn_compare :: "metric_number \<Rightarrow> metric_number \<Rightarrow> ordering option" where
  "mn_compare self other =
     (if \<not> mn_is_finite self \<or> \<not> mn_is_finite other then None else mn_compare_finite self other)"

text \<open>Printing; \<open>format_value\<close> is in \<^verbatim>\<open>evaluate.rs\<close>.\<close>

definition format_value :: "f64 \<Rightarrow> string" where
  "format_value val =
     (if f64_eq (f64_fract val) (Fin 0) then fmt_fixed 0 val
      else trim_end_matches (CHR ''.'') (trim_end_matches (CHR ''0'') (fmt_fixed 4 val)))"

fun mn_display :: "metric_number \<Rightarrow> string" where
  "mn_display (MInteger value) = show_int value"
| "mn_display (MFloat value) = format_value value"

section \<open>Metric selectors\<close>

record metric_selector =
  ms_stream_key :: string
  ms_field_path :: string

definition stream_key_byte :: "char \<Rightarrow> bool" where
  "stream_key_byte c \<longleftrightarrow> is_ascii_lowercase c \<or> is_ascii_digit c
     \<or> c = CHR ''-'' \<or> c = CHR ''_'' \<or> c = CHR ''.''"

definition stream_key_ok :: "string \<Rightarrow> bool" where
  "stream_key_ok stream \<longleftrightarrow> 1 \<le> length stream \<and> length stream \<le> 64
     \<and> is_ascii_lowercase (hd stream) \<and> list_all stream_key_byte stream"

fun tilde_ok :: "string \<Rightarrow> bool" where
  "tilde_ok [] = True"
| "tilde_ok [c] = (c \<noteq> CHR ''~'')"
| "tilde_ok (c # d # s) =
     (if c = CHR ''~'' then (d = CHR ''0'' \<or> d = CHR ''1'') \<and> tilde_ok s else tilde_ok (d # s))"

definition selector_parse :: "string \<Rightarrow> metric_selector option" where
  "selector_parse field =
     (case split_once ''./'' field of
        None \<Rightarrow> None
      | Some (stream, path) \<Rightarrow>
          if \<not> stream_key_ok stream then None
          else if \<not> tilde_ok path then None
          else Some \<lparr>ms_stream_key = stream, ms_field_path = CHR ''/'' # path\<rparr>)"

definition field_key :: "metric_selector \<Rightarrow> string" where
  "field_key sel = ms_stream_key sel @ ''.'' @ ms_field_path sel"

section \<open>The exact order\<close>

fun mn_val :: "metric_number \<Rightarrow> rat" where
  "mn_val (MInteger i) = of_int i"
| "mn_val (MFloat x) = fval x"

fun mn_wf :: "metric_number \<Rightarrow> bool" where
  "mn_wf (MInteger i) = in_i64 i"
| "mn_wf (MFloat x) = True"

definition rat_cmp :: "rat \<Rightarrow> rat \<Rightarrow> ordering" where
  "rat_cmp a b = (if a < b then Less else if b < a then Greater else Equal)"

lemma rat_cmp_reverse: "reverse (rat_cmp a b) = rat_cmp b a"
  by (simp add: rat_cmp_def)

lemma rtrunc_le: "0 \<le> r \<Longrightarrow> of_int (rtrunc r) \<le> r" "r < 0 \<Longrightarrow> r \<le> of_int (rtrunc r)"
  by (simp_all add: rtrunc_def)

lemma rtrunc_near: "r - 1 < of_int (rtrunc r)" "of_int (rtrunc r) < r + 1"
proof -
  show "r - 1 < of_int (rtrunc r)" unfolding rtrunc_def by (auto, linarith, linarith)
  show "of_int (rtrunc r) < r + 1" unfolding rtrunc_def by (auto, linarith, linarith)
qed

lemma rtrunc_in_i64:
  assumes "r < 9223372036854775808" and "- 9223372036854775808 \<le> r"
  shows "i64_min \<le> rtrunc r" and "rtrunc r \<le> i64_max"
proof -
  have "(of_int (- 9223372036854775808) :: rat) \<le> of_int (rtrunc r)"
  proof (cases "r < 0")
    case True
    with assms(2) rtrunc_le(2) [of r] show ?thesis by simp
  next
    case False
    then have "0 \<le> rtrunc r" by (simp add: rtrunc_def)
    then show ?thesis unfolding of_int_le_iff by simp
  qed
  then show "i64_min \<le> rtrunc r" unfolding of_int_le_iff by (simp add: i64_min_def)
  have "(of_int (rtrunc r) :: rat) < of_int 9223372036854775808"
  proof (cases "0 \<le> r")
    case True
    with assms(1) rtrunc_le(1) [of r] show ?thesis by simp
  next
    case False
    then have "rtrunc r \<le> 0" by (simp add: rtrunc_def ceiling_le_iff)
    then show ?thesis unfolding of_int_less_iff by simp
  qed
  then show "rtrunc r \<le> i64_max" unfolding of_int_less_iff by (simp add: i64_max_def)
qed

lemma compare_integer_float_exact:
  assumes i: "in_i64 i" and x: "is_finite x"
  shows "compare_integer_float i x = rat_cmp (of_int i) (fval x)"
proof -
  define r where "r = fval x"
  have "(of_int (- 9223372036854775808) :: rat) \<le> of_int i"
    using i unfolding of_int_le_iff by (simp add: in_i64_def)
  then have lo: "- 9223372036854775808 \<le> (of_int i :: rat)" by simp
  have "(of_int i :: rat) < of_int 9223372036854775808"
    using i unfolding of_int_less_iff by (simp add: in_i64_def)
  then have hi: "(of_int i :: rat) < 9223372036854775808" by simp
  have cast: "f64_as_i64 x = max i64_min (min i64_max (rtrunc r))"
    using x unfolding r_def by (cases x) (auto simp: f64_as_i64_def rtrunc_def i64_min_def i64_max_def)
  have fract: "f64_fract x = Fin (r - of_int (rtrunc r))"
    using x unfolding r_def by (cases x) (auto simp: f64_fract_def rtrunc_def)
  consider "9223372036854775808 \<le> r" | "r < - 9223372036854775808"
    | "r < 9223372036854775808" "- 9223372036854775808 \<le> r" by linarith
  then show ?thesis
  proof cases
    case 1
    then show ?thesis using hi x
      by (simp add: compare_integer_float_def f64_order_finite rat_cmp_def flip: r_def)
  next
    case 2
    then show ?thesis using lo x
      by (simp add: compare_integer_float_def f64_order_finite rat_cmp_def flip: r_def)
  next
    case 3
    let ?t = "rtrunc r"
    have t: "f64_as_i64 x = ?t" using rtrunc_in_i64 [OF 3] cast by simp
    have body: "compare_integer_float i x = (case int_cmp i ?t of
        Equal \<Rightarrow> if 0 < r - of_int ?t then Less else if r - of_int ?t < 0 then Greater else Equal
      | result \<Rightarrow> result)"
      using 3 x by (simp add: compare_integer_float_def f64_order_finite t fract flip: r_def)
    consider "i < ?t" | "?t < i" | "i = ?t" by linarith
    then show ?thesis
    proof cases
      case 1
      then have "(of_int i :: rat) \<le> of_int ?t - 1" by (metis of_int_le_iff of_int_1 of_int_diff zle_diff1_eq)
      with rtrunc_near(2) [of r] have "(of_int i :: rat) < r" by linarith
      with 1 show ?thesis by (simp add: body int_cmp_def rat_cmp_def flip: r_def)
    next
      case 2
      then have "(of_int ?t :: rat) + 1 \<le> of_int i" by (metis of_int_le_iff of_int_1 of_int_add add1_zle_eq)
      with rtrunc_near(1) [of r] have "r < (of_int i :: rat)" by linarith
      with 2 show ?thesis by (simp add: body int_cmp_def rat_cmp_def flip: r_def)
    next
      case 3
      then show ?thesis unfolding body by (simp add: int_cmp_def rat_cmp_def flip: r_def)
    qed
  qed
qed

lemma mn_compare_exact:
  assumes "mn_wf a" and "mn_wf b"
  shows "mn_compare a b =
    (if mn_is_finite a \<and> mn_is_finite b then Some (rat_cmp (mn_val a) (mn_val b)) else None)"
  using assms
  by (cases a; cases b)
    (auto simp: mn_compare_def int_cmp_def rat_cmp_def compare_integer_float_exact
      f64_partial_cmp_def f64_order_finite)

lemma mn_parse_wf: "mn_parse v = Some n \<Longrightarrow> mn_wf n \<and> mn_is_finite n"
  by (auto simp: mn_parse_def dest: parse_i64_range split: option.splits if_splits)

section \<open>Selectors are lossless\<close>

lemma stream_key_no_slash: "stream_key_ok s \<Longrightarrow> CHR ''/'' \<notin> set s"
  by (auto simp: stream_key_ok_def list_all_iff stream_key_byte_def is_ascii_lowercase_def
      is_ascii_digit_def byte_def)

lemma selector_split:
  "stream_key_ok s \<Longrightarrow> split_once ''./'' (s @ ''./'' @ p) = Some (s, p)"
  using split_once_at_last [of "CHR ''/''" s "''.''" p] by (simp add: stream_key_no_slash)

lemma selector_parse_iff:
  "selector_parse f = Some sel \<longleftrightarrow>
     f = field_key sel \<and> stream_key_ok (ms_stream_key sel)
     \<and> (\<exists>p. ms_field_path sel = CHR ''/'' # p \<and> tilde_ok p)"
proof
  assume "selector_parse f = Some sel"
  then obtain s p where sp: "split_once ''./'' f = Some (s, p)" "stream_key_ok s" "tilde_ok p"
      "sel = \<lparr>ms_stream_key = s, ms_field_path = CHR ''/'' # p\<rparr>"
    by (auto simp: selector_parse_def split: option.splits if_splits)
  from split_once_Some [OF sp(1)] sp show "f = field_key sel \<and> stream_key_ok (ms_stream_key sel)
     \<and> (\<exists>p. ms_field_path sel = CHR ''/'' # p \<and> tilde_ok p)"
    by (simp add: field_key_def)
next
  assume "f = field_key sel \<and> stream_key_ok (ms_stream_key sel)
     \<and> (\<exists>p. ms_field_path sel = CHR ''/'' # p \<and> tilde_ok p)"
  then obtain p where p: "f = ms_stream_key sel @ ''./'' @ p" "stream_key_ok (ms_stream_key sel)"
      "ms_field_path sel = CHR ''/'' # p" "tilde_ok p"
    by (auto simp: field_key_def)
  then show "selector_parse f = Some sel"
    using selector_split [OF p(2), of p] by (cases sel) (simp add: selector_parse_def)
qed

section \<open>Properties\<close>

text \<open>
  Comparing two observations is exact: when both are finite the result is the order of the
  rational numbers they stand for, whatever mixture of 64-bit integers and floats they are, and
  there is no result when one is not finite.
\<close>

theorem metric_compare_is_exact_order:
  assumes "mn_wf a" and "mn_wf b"
  shows "mn_compare a b =
    (if mn_is_finite a \<and> mn_is_finite b
     then Some (if mn_val a < mn_val b then Less else if mn_val b < mn_val a then Greater else Equal)
     else None)"
  using mn_compare_exact [OF assms] by (simp add: rat_cmp_def)

theorem metric_compare_is_exact_order_witness:
  "mn_compare (MInteger 9007199254740993) (MFloat (Fin 9007199254740992)) = Some Greater
   \<and> mn_compare (MInteger 9223372036854775807) (MFloat (Fin 9223372036854775808)) = Some Less"
  using metric_compare_is_exact_order [of "MInteger 9007199254740993" "MFloat (Fin 9007199254740992)"]
    metric_compare_is_exact_order [of "MInteger 9223372036854775807" "MFloat (Fin 9223372036854775808)"]
  by (simp add: in_i64_def)

text \<open>
  A metric selector is lossless: a stored field parses to a selector exactly when the selector
  is well formed and prints back as that field, so nested, dotted and escaped paths never collapse
  into one another.
\<close>

theorem selector_roundtrip:
  "selector_parse f = Some sel \<longleftrightarrow>
     f = field_key sel \<and> stream_key_ok (ms_stream_key sel)
     \<and> (\<exists>p. ms_field_path sel = CHR ''/'' # p \<and> tilde_ok p)"
  by (rule selector_parse_iff)

end
