(* ===== verification/Rule_Model.thy ===== *)
theory Rule_Model
  imports Json Rule_Number
begin

text \<open>
  \<^verbatim>\<open>crates/rule-engine/src/model.rs\<close>, \<^verbatim>\<open>types.rs\<close> and \<^verbatim>\<open>compiler.rs\<close>: the rules as they are
  stored, the observations they are evaluated against, the actions an evaluation asks for, and
  the compilation of the stored strings to their enumerations. A point in time is an \<open>int\<close>; what
  the chrono crate computes from it is the parameter \<open>clock_api\<close>.
\<close>

section \<open>Enumerations\<close>

datatype rule_trigger = TrTelemetry | TrDeviceStatus | TrGeofence

datatype rule_target_type = TgGlobal | TgBlueprint | TgFleet | TgDevice

datatype condition_field = CfMetric | CfStatus | CfZone

datatype condition_operator = OpGt | OpGte | OpLt | OpLte | OpEq | OpNeq

datatype rule_action_kind = AkAlert | AkWebhook | AkCommand

record compiled_condition =
  kc_field :: condition_field
  kc_operator :: condition_operator
  kc_value :: string
  kc_numeric_value :: "f64 option"
  kc_zone_id :: "string option"

record compiled_action =
  ka_kind :: rule_action_kind
  ka_config :: json

section \<open>Stored rules\<close>

record cached_condition =
  cc_field :: string
  cc_blueprint_id :: "string option"
  cc_blueprint_revision_id :: "string option"
  cc_operator :: string
  cc_value :: string
  cc_zone_id :: "string option"

record cached_action =
  ca_action_type :: string
  ca_config :: json

record cached_rule =
  cr_tenant_id :: string
  cr_id :: string
  cr_name :: string
  cr_trigger_type :: string
  cr_target_type :: string
  cr_target_id :: "string option"
  cr_cooldown_seconds :: int
  cr_conditions :: "cached_condition list"
  cr_actions :: "cached_action list"

section \<open>Actions an evaluation asks for\<close>

type_synonym time = int

datatype pending_action =
    CreateAlert (pa_tenant_id: string) (pa_rule_id: string) (pa_device_id: string)
      (pa_severity: string) (pa_message: string) (pa_triggered: "string option")
  | UpdateAlertValue (pa_tenant_id: string) (pa_alert_id: string) (pa_value: string)
  | ResolveAlert (pa_tenant_id: string) (pa_alert_id: string)
  | SendWebhook (pa_tenant_id: string) (pa_url: string) (pa_headers: "(string \<times> string) list")
      (pa_payload: json)
  | SendCommand (pa_tenant_id: string) (pa_device_id: string) (pa_command: string)
      (pa_params: json)
  | UpdateCooldown (pa_tenant_id: string) (pa_rule_id: string) (pa_device_id: string)
      (pa_fired_at: time)
  | UpdateZoneEntry (pa_tenant_id: string) (pa_rule_id: string) (pa_device_id: string)
      (pa_entered_at: "time option")

section \<open>Observations and zones\<close>

record telemetry_data =
  td_latitude :: "f64 option"
  td_longitude :: "f64 option"
  td_metrics :: "(string, metric_number) btree"

record status_change =
  sc_old_status :: string
  sc_new_status :: string

datatype zone_geometry = Circle f64 f64 f64 | Polygon "(f64 \<times> f64) list"

record cached_zone =
  cz_id :: string
  cz_name :: string
  cz_geometry :: zone_geometry

text \<open>
  What the evaluation takes from chrono: \<^verbatim>\<open>now.signed_duration_since(then).num_seconds()\<close> and
  \<^verbatim>\<open>now.and_utc().to_rfc3339()\<close>.
\<close>

record clock_api =
  seconds_since :: "time \<Rightarrow> time \<Rightarrow> int"
  to_rfc3339 :: "time \<Rightarrow> string"

section \<open>Compilation\<close>

definition compile_trigger :: "string \<Rightarrow> rule_trigger option" where
  "compile_trigger value =
     (if value = ''telemetry'' then Some TrTelemetry
      else if value = ''device_status'' then Some TrDeviceStatus
      else if value = ''geofence'' then Some TrGeofence
      else None)"

definition compile_target_type :: "string \<Rightarrow> rule_target_type option" where
  "compile_target_type value =
     (if value = ''global'' then Some TgGlobal
      else if value = ''blueprint'' then Some TgBlueprint
      else if value = ''fleet'' then Some TgFleet
      else if value = ''device'' then Some TgDevice
      else None)"

definition compile_operator :: "string \<Rightarrow> condition_operator option" where
  "compile_operator value =
     (if value = ''gt'' then Some OpGt
      else if value = ''gte'' then Some OpGte
      else if value = ''lt'' then Some OpLt
      else if value = ''lte'' then Some OpLte
      else if value = ''eq'' then Some OpEq
      else if value = ''neq'' then Some OpNeq
      else None)"

definition compile_action_kind :: "string \<Rightarrow> rule_action_kind option" where
  "compile_action_kind value =
     (if value = ''alert'' then Some AkAlert
      else if value = ''webhook'' then Some AkWebhook
      else if value = ''command'' then Some AkCommand
      else None)"

definition compile_condition :: "cached_condition \<Rightarrow> compiled_condition option" where
  "compile_condition condition =
     (case (if cc_field condition = ''status'' then Some CfStatus
            else if cc_zone_id condition \<noteq> None then Some CfZone
            else if cc_field condition \<noteq> [] then Some CfMetric
            else None) of
        None \<Rightarrow> None
      | Some field \<Rightarrow>
          (case compile_operator (cc_operator condition) of
             None \<Rightarrow> None
           | Some operator \<Rightarrow>
               Some \<lparr>kc_field = field, kc_operator = operator, kc_value = cc_value condition,
                     kc_numeric_value = parse_f64 (cc_value condition),
                     kc_zone_id = cc_zone_id condition\<rparr>))"

definition compile_action :: "cached_action \<Rightarrow> compiled_action option" where
  "compile_action action =
     map_option (\<lambda>kind. \<lparr>ka_kind = kind, ka_config = ca_config action\<rparr>)
       (compile_action_kind (ca_action_type action))"

text \<open>Serializing an untagged metric number; a float that is not finite becomes null.\<close>

fun metric_to_json :: "metric_number \<Rightarrow> json" where
  "metric_to_json (MInteger i) = JNum (if 0 \<le> i then PosInt (nat i) else NegInt i)"
| "metric_to_json (MFloat x) = (if is_finite x then JNum (Float x) else JNull)"

definition metrics_to_json :: "(string, metric_number) btree \<Rightarrow> json" where
  "metrics_to_json m = JObj (map (\<lambda>(k, n). (k, metric_to_json n)) m)"

end
