(* ===== verification/Rule_Cache.thy ===== *)
theory Rule_Cache
  imports Rule_Model
begin

text \<open>
  \<^verbatim>\<open>crates/rule-engine/src/cache.rs\<close>: the in-memory index of rules by target and the runtime
  state (active alerts, cooldowns, zone entries) an evaluation reads. The locale
  \<open>tenant_scoped_rules\<close> is what the evaluators rely on when they ask the cache for the rules of
  a device.
\<close>

section \<open>State\<close>

type_synonym rule_device_key = "string \<times> string \<times> string"

record rule_definitions =
  global_rules :: "cached_rule list"
  by_blueprint :: "cached_rule list"
  by_fleet :: "cached_rule list"
  by_device :: "cached_rule list"
  rd_zones :: "string \<rightharpoonup> cached_zone"

record rule_cache =
  rc_definitions :: rule_definitions
  rc_rule_allowlist :: "string set option"
  rc_active_alerts :: "rule_device_key \<rightharpoonup> string"
  rc_cooldowns :: "rule_device_key \<rightharpoonup> time"
  rc_zone_entry_times :: "rule_device_key \<rightharpoonup> time"
  rc_version :: nat

definition empty_definitions :: rule_definitions where
  "empty_definitions = \<lparr>global_rules = [], by_blueprint = [], by_fleet = [], by_device = [],
     rd_zones = Map.empty\<rparr>"

definition default_cache :: rule_cache where
  "default_cache = \<lparr>rc_definitions = empty_definitions, rc_rule_allowlist = None,
     rc_active_alerts = Map.empty, rc_cooldowns = Map.empty, rc_zone_entry_times = Map.empty,
     rc_version = 0\<rparr>"

section \<open>Operations\<close>

definition restrict_to_rule_ids :: "rule_cache \<Rightarrow> string set \<Rightarrow> rule_cache" where
  "restrict_to_rule_ids cache ids = cache\<lparr>rc_rule_allowlist := Some ids\<rparr>"

definition definitions_only :: "rule_cache \<Rightarrow> rule_cache" where
  "definitions_only cache = default_cache\<lparr>rc_definitions := rc_definitions cache\<rparr>"

definition rules_for_tenant_device ::
  "rule_cache \<Rightarrow> string \<Rightarrow> string \<Rightarrow> string option \<Rightarrow> string option \<Rightarrow> cached_rule list" where
  "rules_for_tenant_device cache tenant_id device_id fleet_id blueprint_id =
     (let defs = rc_definitions cache;
          mine = (\<lambda>rule. cr_tenant_id rule = tenant_id);
          targets = (\<lambda>t rule. cr_tenant_id rule = tenant_id \<and> cr_target_id rule = Some t);
          applicable =
            filter mine (global_rules defs)
            @ (case blueprint_id of None \<Rightarrow> [] | Some b \<Rightarrow> filter (targets b) (by_blueprint defs))
            @ (case fleet_id of None \<Rightarrow> [] | Some f \<Rightarrow> filter (targets f) (by_fleet defs))
            @ filter (targets device_id) (by_device defs)
      in case rc_rule_allowlist cache of
           None \<Rightarrow> applicable
         | Some ids \<Rightarrow> filter (\<lambda>rule. cr_id rule \<in> ids) applicable)"

text \<open>Replace the first rule with the same tenant and id, or append.\<close>

fun upsert_rule :: "cached_rule \<Rightarrow> cached_rule list \<Rightarrow> cached_rule list" where
  "upsert_rule rule [] = [rule]"
| "upsert_rule rule (r # rs) =
     (if cr_tenant_id r = cr_tenant_id rule \<and> cr_id r = cr_id rule then rule # rs
      else r # upsert_rule rule rs)"

definition insert_rule :: "rule_cache \<Rightarrow> cached_rule \<Rightarrow> rule_cache" where
  "insert_rule cache rule =
     (let defs = rc_definitions cache;
          bump = (\<lambda>defs'. cache\<lparr>rc_definitions := defs', rc_version := (rc_version cache + 1) mod 2 ^ 64\<rparr>)
      in case compile_target_type (cr_target_type rule) of
           Some TgGlobal \<Rightarrow> bump (defs\<lparr>global_rules := upsert_rule rule (global_rules defs)\<rparr>)
         | Some TgBlueprint \<Rightarrow> bump (defs\<lparr>by_blueprint := upsert_rule rule (by_blueprint defs)\<rparr>)
         | Some TgFleet \<Rightarrow> bump (defs\<lparr>by_fleet := upsert_rule rule (by_fleet defs)\<rparr>)
         | Some TgDevice \<Rightarrow> bump (defs\<lparr>by_device := upsert_rule rule (by_device defs)\<rparr>)
         | None \<Rightarrow> cache)"

section \<open>Invariant of the index\<close>

text \<open>
  Every bucket holds only rules of its own target type and at most one rule per tenant and id.
\<close>

definition rule_key :: "cached_rule \<Rightarrow> string \<times> string" where
  "rule_key r = (cr_tenant_id r, cr_id r)"

definition bucket_ok :: "rule_target_type \<Rightarrow> cached_rule list \<Rightarrow> bool" where
  "bucket_ok t rs \<longleftrightarrow> distinct (map rule_key rs)
     \<and> (\<forall>r \<in> set rs. compile_target_type (cr_target_type r) = Some t)"

definition cache_inv :: "rule_cache \<Rightarrow> bool" where
  "cache_inv c \<longleftrightarrow> (let d = rc_definitions c in
     bucket_ok TgGlobal (global_rules d) \<and> bucket_ok TgBlueprint (by_blueprint d)
     \<and> bucket_ok TgFleet (by_fleet d) \<and> bucket_ok TgDevice (by_device d))
     \<and> rc_version c < 2 ^ 64"

text \<open>The specification of rule selection: which stored rule applies to which device.\<close>

definition rule_applies ::
  "rule_cache \<Rightarrow> string \<Rightarrow> string \<Rightarrow> string option \<Rightarrow> string option \<Rightarrow> cached_rule \<Rightarrow> bool" where
  "rule_applies c tenant device fleet blueprint r \<longleftrightarrow>
     cr_tenant_id r = tenant
     \<and> (case rc_rule_allowlist c of None \<Rightarrow> True | Some ids \<Rightarrow> cr_id r \<in> ids)
     \<and> (let d = rc_definitions c in
          r \<in> set (global_rules d)
          \<or> (r \<in> set (by_blueprint d) \<and> blueprint \<noteq> None \<and> cr_target_id r = blueprint)
          \<or> (r \<in> set (by_fleet d) \<and> fleet \<noteq> None \<and> cr_target_id r = fleet)
          \<or> (r \<in> set (by_device d) \<and> cr_target_id r = Some device))"

section \<open>What the evaluators rely on\<close>

locale tenant_scoped_rules =
  fixes rules :: "'cache \<Rightarrow> string \<Rightarrow> string \<Rightarrow> string option \<Rightarrow> string option \<Rightarrow> cached_rule list"
    and allowed :: "'cache \<Rightarrow> string \<Rightarrow> bool"
  assumes tenant: "r \<in> set (rules c t d f b) \<Longrightarrow> cr_tenant_id r = t"
    and allowlisted: "r \<in> set (rules c t d f b) \<Longrightarrow> allowed c (cr_id r)"
begin

text \<open>Whatever a per-rule step emits under the rule's own tenant stays inside the tenant.\<close>

lemma emitted_in_tenant:
  assumes "\<And>r x. x \<in> set (step r) \<Longrightarrow> tenant_of x = cr_tenant_id r"
    and "x \<in> set (concat (map step (rules c t d f b)))"
  shows "tenant_of x = t"
  using assms tenant by fastforce

lemma emitted_by_allowed:
  assumes "x \<in> set (concat (map step (rules c t d f b)))"
  obtains r where "r \<in> set (rules c t d f b)" and "x \<in> set (step r)" and "allowed c (cr_id r)"
proof -
  from assms obtain r where r: "r \<in> set (rules c t d f b)" "x \<in> set (step r)" by auto
  from r allowlisted [OF r(1)] show thesis by (rule that)
qed

end

definition rule_allowed :: "rule_cache \<Rightarrow> string \<Rightarrow> bool" where
  "rule_allowed c i \<longleftrightarrow> (case rc_rule_allowlist c of None \<Rightarrow> True | Some ids \<Rightarrow> i \<in> ids)"

interpretation cache_rules: tenant_scoped_rules rules_for_tenant_device rule_allowed
  by unfold_locales
    (auto simp: rules_for_tenant_device_def rule_allowed_def Let_def split: option.splits)

lemma rules_for_tenant_device_spec:
  "r \<in> set (rules_for_tenant_device c tenant device fleet blueprint) \<longleftrightarrow>
     rule_applies c tenant device fleet blueprint r"
  by (auto simp: rules_for_tenant_device_def rule_applies_def Let_def split: option.splits)

section \<open>Inserting keeps the index well formed\<close>

lemma upsert_rule_Cons:
  "upsert_rule rule (r # rs) =
     (if rule_key r = rule_key rule then rule # rs else r # upsert_rule rule rs)"
  by (simp add: rule_key_def)

declare upsert_rule.simps(2) [simp del] upsert_rule_Cons [simp]

lemma set_upsert_rule:
  "distinct (map rule_key rs) \<Longrightarrow>
   set (upsert_rule rule rs) = {r \<in> set rs. rule_key r \<noteq> rule_key rule} \<union> {rule}"
proof (induction rs)
  case (Cons r rs)
  show ?case
  proof (cases "rule_key r = rule_key rule")
    case True
    have "\<forall>x \<in> set rs. rule_key x \<noteq> rule_key rule"
      using Cons.prems True by (metis distinct.simps(2) image_eqI list.set_map list.simps(9))
    with True show ?thesis by auto
  next
    case False
    with Cons show ?thesis by auto
  qed
qed simp

lemma rule_keys_upsert:
  "rule_key ` set (upsert_rule rule rs) = insert (rule_key rule) (rule_key ` set rs)"
  by (induction rs) auto

lemma distinct_upsert_rule:
  "distinct (map rule_key rs) \<Longrightarrow> distinct (map rule_key (upsert_rule rule rs))"
  by (induction rs) (simp_all add: rule_keys_upsert, metis)

lemma bucket_ok_upsert:
  assumes "bucket_ok t rs" and "compile_target_type (cr_target_type rule) = Some t"
  shows "bucket_ok t (upsert_rule rule rs)"
  using assms by (auto simp: bucket_ok_def distinct_upsert_rule set_upsert_rule)

lemma cache_inv_default: "cache_inv default_cache"
  by (simp add: cache_inv_def default_cache_def empty_definitions_def bucket_ok_def)

lemma cache_inv_insert_rule: "cache_inv c \<Longrightarrow> cache_inv (insert_rule c rule)"
  by (auto simp: cache_inv_def insert_rule_def Let_def bucket_ok_upsert
      split: option.splits rule_target_type.splits)

lemma cache_inv_foldl: "cache_inv c \<Longrightarrow> cache_inv (foldl insert_rule c rules)"
  by (induction rules arbitrary: c) (simp_all add: cache_inv_insert_rule)

section \<open>Properties\<close>

text \<open>The part of rule selection that depends on where a rule is filed.\<close>

definition targets_device ::
  "cached_rule \<Rightarrow> rule_target_type \<Rightarrow> string \<Rightarrow> string option \<Rightarrow> string option \<Rightarrow> bool" where
  "targets_device r target device fleet blueprint = (case target of
      TgGlobal \<Rightarrow> True
    | TgBlueprint \<Rightarrow> blueprint \<noteq> None \<and> cr_target_id r = blueprint
    | TgFleet \<Rightarrow> fleet \<noteq> None \<and> cr_target_id r = fleet
    | TgDevice \<Rightarrow> cr_target_id r = Some device)"

definition bucket :: "rule_cache \<Rightarrow> rule_target_type \<Rightarrow> cached_rule list" where
  "bucket c target = (let d = rc_definitions c in case target of
      TgGlobal \<Rightarrow> global_rules d | TgBlueprint \<Rightarrow> by_blueprint d
    | TgFleet \<Rightarrow> by_fleet d | TgDevice \<Rightarrow> by_device d)"

lemma rule_applies_bucket:
  "rule_applies c tenant device fleet blueprint r \<longleftrightarrow>
     cr_tenant_id r = tenant \<and> rule_allowed c (cr_id r)
     \<and> (\<exists>t. r \<in> set (bucket c t) \<and> targets_device r t device fleet blueprint)"
proof -
  have ex: "(\<exists>t. P t) \<longleftrightarrow> P TgGlobal \<or> P TgBlueprint \<or> P TgFleet \<or> P TgDevice"
    for P :: "rule_target_type \<Rightarrow> bool"
    by (metis rule_target_type.exhaust)
  show ?thesis
    unfolding ex by (simp add: rule_applies_def rule_allowed_def bucket_def targets_device_def Let_def)
qed

lemma cache_inv_bucket: "cache_inv c \<Longrightarrow> bucket_ok t (bucket c t)"
  by (cases t) (simp_all add: cache_inv_def bucket_def Let_def)

lemma bucket_insert_rule:
  "compile_target_type (cr_target_type rule) = Some target \<Longrightarrow>
     bucket (insert_rule c rule) t =
       (if t = target then upsert_rule rule (bucket c t) else bucket c t)"
  by (cases target; cases t) (simp_all add: insert_rule_def bucket_def Let_def)

lemma allowed_insert_rule [simp]: "rule_allowed (insert_rule c rule) = rule_allowed c"
  by (auto simp: insert_rule_def rule_allowed_def Let_def split: option.splits rule_target_type.splits)

lemma rule_applies_after_insert:
  assumes "cache_inv c" and "compile_target_type (cr_target_type rule) = Some target"
  shows "rule_applies (insert_rule c rule) tenant device fleet blueprint r \<longleftrightarrow>
    (if compile_target_type (cr_target_type r) = Some target \<and> rule_key r = rule_key rule
     then r = rule \<and> cr_tenant_id r = tenant \<and> rule_allowed c (cr_id r)
        \<and> targets_device r target device fleet blueprint
     else rule_applies c tenant device fleet blueprint r)"
proof -
  have filed: "compile_target_type (cr_target_type r) = Some t" if "r \<in> set (bucket c t)" for r t
    using cache_inv_bucket [OF assms(1), of t] that by (simp add: bucket_ok_def)
  have new: "r \<in> set (bucket (insert_rule c rule) t) \<longleftrightarrow>
      (if t = target then r \<in> set (bucket c t) \<and> rule_key r \<noteq> rule_key rule \<or> r = rule
       else r \<in> set (bucket c t))" for t
    using cache_inv_bucket [OF assms(1), of t]
    by (auto simp: bucket_insert_rule [OF assms(2)] bucket_ok_def set_upsert_rule)
  show ?thesis
  proof (cases "compile_target_type (cr_target_type r) = Some target \<and> rule_key r = rule_key rule")
    case True
    then have "r \<in> set (bucket (insert_rule c rule) t) \<longleftrightarrow> t = target \<and> r = rule" for t
      unfolding new using filed [of r t] by auto
    then show ?thesis unfolding rule_applies_bucket allowed_insert_rule using True by auto
  next
    case False
    then have "r \<in> set (bucket (insert_rule c rule) t) \<longleftrightarrow> r \<in> set (bucket c t)" for t
      unfolding new using filed [of r t] assms(2) by auto
    then show ?thesis unfolding rule_applies_bucket allowed_insert_rule using False by auto
  qed
qed

text \<open>
  C32. Inserting a rule into the index makes exactly that rule take the place of the one filed
  under the same target type, tenant and id, and changes the selection of no other rule: every
  device then gets the inserted rule exactly when its target covers the device, and gets any
  other rule exactly when it did before. In particular a rule of the same tenant and id filed
  under another target type stays selectable. The index stays well formed.
\<close>

theorem insert_rule_selection:
  assumes "cache_inv c" and "compile_target_type (cr_target_type rule) = Some target"
  shows "cache_inv (insert_rule c rule)
    \<and> (r \<in> set (rules_for_tenant_device (insert_rule c rule) tenant device fleet blueprint) \<longleftrightarrow>
        (if compile_target_type (cr_target_type r) = Some target \<and> rule_key r = rule_key rule
         then r = rule \<and> cr_tenant_id r = tenant \<and> rule_allowed c (cr_id r)
            \<and> targets_device r target device fleet blueprint
         else r \<in> set (rules_for_tenant_device c tenant device fleet blueprint)))"
  unfolding rules_for_tenant_device_spec
  using assms cache_inv_insert_rule rule_applies_after_insert by blast

definition sample_filed :: "string \<Rightarrow> string option \<Rightarrow> cached_rule" where
  "sample_filed target target_id = \<lparr>cr_tenant_id = ''t'', cr_id = ''r'', cr_name = [],
     cr_trigger_type = ''telemetry'', cr_target_type = target, cr_target_id = target_id,
     cr_cooldown_seconds = 0, cr_conditions = [], cr_actions = []\<rparr>"

theorem insert_rule_selection_witness:
  "let c = insert_rule default_cache (sample_filed ''global'' None);
       c' = insert_rule c (sample_filed ''device'' (Some ''d''))
   in sample_filed ''device'' (Some ''d'') \<in> set (rules_for_tenant_device c' ''t'' ''d'' None None)
      \<and> sample_filed ''global'' None \<in> set (rules_for_tenant_device c' ''t'' ''d'' None None)"
proof -
  define c where "c = insert_rule default_cache (sample_filed ''global'' None)"
  have inv: "cache_inv c" unfolding c_def by (intro cache_inv_insert_rule cache_inv_default)
  have t: "compile_target_type (cr_target_type (sample_filed ''device'' (Some ''d''))) = Some TgDevice"
    and g: "compile_target_type (cr_target_type (sample_filed ''global'' None)) = Some TgGlobal"
    by (simp_all add: sample_filed_def compile_target_type_def)
  have old: "sample_filed ''global'' None \<in> set (rules_for_tenant_device c ''t'' ''d'' None None)"
    unfolding c_def by code_simp
  have al: "rule_allowed c x" for x
    by (simp add: rule_allowed_def c_def insert_rule_def g default_cache_def Let_def)
  show ?thesis
    using insert_rule_selection [OF inv t, of "sample_filed ''device'' (Some ''d'')" "''t''" "''d''" None None]
      insert_rule_selection [OF inv t, of "sample_filed ''global'' None" "''t''" "''d''" None None] old t g al
    by (simp add: c_def [symmetric] Let_def targets_device_def)
      (simp add: sample_filed_def)
qed

end
