(* ===== verification/Rule_Eval.thy ===== *)
theory Rule_Eval
  imports Rule_Cache Geo
begin

text \<open>
  \<^verbatim>\<open>crates/rule-engine/src/evaluate.rs\<close>: the evaluation of telemetry, status changes and
  locations against the rules of a device. Each evaluator is a loop over the applicable rules;
  its body is a definition of its own here (\<open>telemetry_rule\<close>, \<open>status_rule\<close>,
  \<open>geofence_rule\<close>), where \<open>[]\<close> stands for \<^verbatim>\<open>continue\<close>. The locale \<open>alert_rule\<close> is the contract
  the three bodies share.
\<close>

section \<open>Conditions\<close>

definition get_field_value :: "string \<Rightarrow> telemetry_data \<Rightarrow> metric_number option" where
  "get_field_value field data =
     (case bt_get (td_metrics data) field of
        None \<Rightarrow> None
      | Some v \<Rightarrow> if mn_is_finite v then Some v else None)"

fun operator_holds :: "condition_operator \<Rightarrow> ordering \<Rightarrow> bool" where
  "operator_holds OpGt ord = (ord = Greater)"
| "operator_holds OpGte ord = (ord \<noteq> Less)"
| "operator_holds OpLt ord = (ord = Less)"
| "operator_holds OpLte ord = (ord \<noteq> Greater)"
| "operator_holds OpEq ord = (ord = Equal)"
| "operator_holds OpNeq ord = (ord \<noteq> Equal)"

definition evaluate_condition :: "cached_condition \<Rightarrow> telemetry_data \<Rightarrow> bool" where
  "evaluate_condition condition data =
     (case get_field_value (cc_field condition) data of
        None \<Rightarrow> False
      | Some v \<Rightarrow>
          (case compile_operator (cc_operator condition) of
             None \<Rightarrow> False
           | Some operator \<Rightarrow>
               (case mn_parse (cc_value condition) of
                  None \<Rightarrow> False
                | Some threshold \<Rightarrow>
                    (case mn_compare v threshold of
                       None \<Rightarrow> False
                     | Some ord \<Rightarrow> operator_holds operator ord))))"

definition evaluate_status_condition :: "cached_condition \<Rightarrow> string \<Rightarrow> bool" where
  "evaluate_status_condition condition new_status =
     (case compile_condition condition of
        None \<Rightarrow> False
      | Some c \<Rightarrow>
          if kc_field c \<noteq> CfStatus then False
          else (case kc_operator c of
                  OpEq \<Rightarrow> kc_value c = new_status
                | OpNeq \<Rightarrow> kc_value c \<noteq> new_status
                | _ \<Rightarrow> False))"

section \<open>Cooldown\<close>

definition is_in_cooldown_for_tenant_at ::
  "clock_api \<Rightarrow> rule_cache \<Rightarrow> string \<Rightarrow> string \<Rightarrow> string \<Rightarrow> int \<Rightarrow> time \<Rightarrow> bool" where
  "is_in_cooldown_for_tenant_at clk cache tenant_id rule_id device_id cooldown_seconds now =
     (if cooldown_seconds \<le> 0 then False
      else case rc_cooldowns cache (tenant_id, rule_id, device_id) of
             Some last_fired \<Rightarrow> seconds_since clk now last_fired < cooldown_seconds
           | None \<Rightarrow> False)"

section \<open>Messages\<close>

definition operator_phrase :: "string \<Rightarrow> string" where
  "operator_phrase operator = (case compile_operator operator of
      Some OpGt \<Rightarrow> ''exceeded'' | Some OpGte \<Rightarrow> ''exceeded''
    | Some OpLt \<Rightarrow> ''dropped below'' | Some OpLte \<Rightarrow> ''dropped below''
    | Some OpEq \<Rightarrow> ''equals'' | Some OpNeq \<Rightarrow> ''is not''
    | None \<Rightarrow> ''triggered'')"

definition build_alert_message :: "cached_condition list \<Rightarrow> telemetry_data \<Rightarrow> string" where
  "build_alert_message conditions data =
     join '' AND '' (map (\<lambda>c.
       let phrase = operator_phrase (cc_operator c)
       in case get_field_value (cc_field c) data of
            Some val \<Rightarrow> cc_field c @ '' ('' @ mn_display val @ '') '' @ phrase @ '' '' @ cc_value c
          | None \<Rightarrow> cc_field c @ '' '' @ phrase @ '' '' @ cc_value c) conditions)"

definition build_status_alert_message :: "string \<Rightarrow> string" where
  "build_status_alert_message new_status = ''status changed to '' @ new_status"

definition triggered_value_for :: "cached_condition list \<Rightarrow> telemetry_data \<Rightarrow> string option" where
  "triggered_value_for conditions data = (case conditions of
      [] \<Rightarrow> None
    | c # _ \<Rightarrow> map_option mn_display (get_field_value (cc_field c) data))"

section \<open>Actions of a rule that fires\<close>

text \<open>\<^verbatim>\<open>config.get(key).and_then(as_str).unwrap_or(default)\<close>, and the \<^verbatim>\<open>json!\<close> object literal.\<close>

definition config_str :: "json \<Rightarrow> string \<Rightarrow> string \<Rightarrow> string" where
  "config_str config key d =
     unwrap_or d (case jget config key of None \<Rightarrow> None | Some v \<Rightarrow> as_str v)"

definition json_obj :: "(string \<times> json) list \<Rightarrow> json" where
  "json_obj kvs = JObj (bt_collect kvs)"

definition telemetry_action ::
  "clock_api \<Rightarrow> string \<Rightarrow> telemetry_data \<Rightarrow> time \<Rightarrow> cached_rule \<Rightarrow> cached_action \<Rightarrow> pending_action list" where
  "telemetry_action clk device_id data now rule rule_action =
     (case compile_action rule_action of
        None \<Rightarrow> []
      | Some a \<Rightarrow>
          let config = ka_config a in
          (case ka_kind a of
             AkAlert \<Rightarrow>
               [CreateAlert (cr_tenant_id rule) (cr_id rule) device_id
                  (config_str config ''severity'' ''warning'')
                  (build_alert_message (cr_conditions rule) data)
                  (triggered_value_for (cr_conditions rule) data)]
           | AkWebhook \<Rightarrow>
               [SendWebhook (cr_tenant_id rule) (config_str config ''url'' [])
                  [(''X-Extrittio-Event'', ''rule_triggered'')]
                  (json_obj [(''event'', JStr ''rule_triggered''),
                     (''timestamp'', JStr (to_rfc3339 clk now)),
                     (''rule'', json_obj [(''id'', JStr (cr_id rule)), (''name'', JStr (cr_name rule))]),
                     (''device'', json_obj [(''id'', JStr device_id)]),
                     (''trigger'', JStr ''telemetry''),
                     (''triggered_values'', metrics_to_json (td_metrics data))])]
           | AkCommand \<Rightarrow>
               [SendCommand (cr_tenant_id rule) device_id (config_str config ''command'' [])
                  (unwrap_or JNull (jget config ''params''))]))"

definition status_action ::
  "clock_api \<Rightarrow> string \<Rightarrow> status_change \<Rightarrow> time \<Rightarrow> cached_rule \<Rightarrow> cached_action \<Rightarrow> pending_action list" where
  "status_action clk device_id change now rule rule_action =
     (case compile_action rule_action of
        None \<Rightarrow> []
      | Some a \<Rightarrow>
          let config = ka_config a in
          (case ka_kind a of
             AkAlert \<Rightarrow>
               [CreateAlert (cr_tenant_id rule) (cr_id rule) device_id
                  (config_str config ''severity'' ''warning'')
                  (build_status_alert_message (sc_new_status change))
                  (Some (sc_new_status change))]
           | AkWebhook \<Rightarrow>
               [SendWebhook (cr_tenant_id rule) (config_str config ''url'' [])
                  [(''X-Extrittio-Event'', ''rule_triggered'')]
                  (json_obj [(''event'', JStr ''rule_triggered''),
                     (''timestamp'', JStr (to_rfc3339 clk now)),
                     (''rule'', json_obj [(''id'', JStr (cr_id rule)), (''name'', JStr (cr_name rule))]),
                     (''device'', json_obj [(''id'', JStr device_id)]),
                     (''trigger'', JStr ''device_status''),
                     (''triggered_values'', json_obj [(''status'', JStr (sc_new_status change))])])]
           | AkCommand \<Rightarrow>
               [SendCommand (cr_tenant_id rule) device_id (config_str config ''command'' [])
                  (unwrap_or JNull (jget config ''params''))]))"

text \<open>\<^verbatim>\<open>CHR 0x27\<close> is the apostrophe around the zone's name.\<close>

definition geofence_action ::
  "clock_api \<Rightarrow> string \<Rightarrow> f64 \<Rightarrow> f64 \<Rightarrow> bool \<Rightarrow> cached_zone \<Rightarrow> time \<Rightarrow> cached_rule \<Rightarrow> cached_action
     \<Rightarrow> pending_action list" where
  "geofence_action clk device_id latitude longitude target_inside zone now rule rule_action =
     (let event = if target_inside then ''geofence_entered'' else ''geofence_exited'' in
      case compile_action rule_action of
        None \<Rightarrow> []
      | Some a \<Rightarrow>
          let config = ka_config a in
          (case ka_kind a of
             AkAlert \<Rightarrow>
               [CreateAlert (cr_tenant_id rule) (cr_id rule) device_id
                  (config_str config ''severity'' ''warning'')
                  (''device '' @ (if target_inside then ''entered'' else ''exited'') @ '' zone ''
                    @ [CHR 0x27] @ cz_name zone @ [CHR 0x27] @ '' at ''
                    @ fmt_fixed 6 latitude @ '','' @ fmt_fixed 6 longitude)
                  (Some (f64_display latitude @ '','' @ f64_display longitude))]
           | AkWebhook \<Rightarrow>
               [SendWebhook (cr_tenant_id rule) (config_str config ''url'' [])
                  [(''X-Extrittio-Event'', event)]
                  (json_obj [(''event'', JStr event),
                     (''timestamp'', JStr (to_rfc3339 clk now)),
                     (''rule'', json_obj [(''id'', JStr (cr_id rule)), (''name'', JStr (cr_name rule))]),
                     (''device'', json_obj [(''id'', JStr device_id)]),
                     (''location'', json_obj [(''latitude'', JNum (Float latitude)),
                        (''longitude'', JNum (Float longitude))])])]
           | AkCommand \<Rightarrow>
               [SendCommand (cr_tenant_id rule) device_id (config_str config ''command'' [])
                  (unwrap_or JNull (jget config ''params''))]))"

section \<open>One rule\<close>

definition condition_out_of_scope :: "string option \<Rightarrow> string option \<Rightarrow> cached_condition \<Rightarrow> bool" where
  "condition_out_of_scope blueprint_id blueprint_revision_id condition \<longleftrightarrow>
     is_some_and (\<lambda>i. Some i \<noteq> blueprint_id) (cc_blueprint_id condition)
     \<or> is_some_and (\<lambda>i. Some i \<noteq> blueprint_revision_id) (cc_blueprint_revision_id condition)"

definition telemetry_rule ::
  "clock_api \<Rightarrow> string \<Rightarrow> string option \<Rightarrow> string option \<Rightarrow> telemetry_data \<Rightarrow> rule_cache \<Rightarrow> time
     \<Rightarrow> cached_rule \<Rightarrow> pending_action list" where
  "telemetry_rule clk device_id blueprint_id blueprint_revision_id data cache now rule =
     (if compile_trigger (cr_trigger_type rule) \<noteq> Some TrTelemetry then []
      else if \<exists>c \<in> set (cr_conditions rule). condition_out_of_scope blueprint_id blueprint_revision_id c
      then []
      else if cr_conditions rule = []
        \<or> (\<exists>c \<in> set (cr_conditions rule). get_field_value (cc_field c) data = None) then []
      else
        let conditions_met = \<forall>c \<in> set (cr_conditions rule). evaluate_condition c data;
            existing_alert_id = rc_active_alerts cache (cr_tenant_id rule, cr_id rule, device_id)
        in if conditions_met then
             (case existing_alert_id of
                Some alert_id \<Rightarrow>
                  if alert_id \<noteq> [] then
                    [UpdateAlertValue (cr_tenant_id rule) alert_id
                       (unwrap_or [] (triggered_value_for (cr_conditions rule) data))]
                  else []
              | None \<Rightarrow>
                  if is_in_cooldown_for_tenant_at clk cache (cr_tenant_id rule) (cr_id rule) device_id
                       (cr_cooldown_seconds rule) now then []
                  else concat (map (telemetry_action clk device_id data now rule) (cr_actions rule))
                    @ [UpdateCooldown (cr_tenant_id rule) (cr_id rule) device_id now])
           else
             (case existing_alert_id of
                Some alert_id \<Rightarrow>
                  if alert_id \<noteq> [] then [ResolveAlert (cr_tenant_id rule) alert_id] else []
              | None \<Rightarrow> []))"

definition status_rule ::
  "clock_api \<Rightarrow> string \<Rightarrow> status_change \<Rightarrow> rule_cache \<Rightarrow> time \<Rightarrow> cached_rule \<Rightarrow> pending_action list" where
  "status_rule clk device_id change cache now rule =
     (if compile_trigger (cr_trigger_type rule) \<noteq> Some TrDeviceStatus then []
      else
        let conditions_met =
              \<forall>c \<in> set (cr_conditions rule). evaluate_status_condition c (sc_new_status change);
            existing_alert_id = rc_active_alerts cache (cr_tenant_id rule, cr_id rule, device_id)
        in if conditions_met then
             (case existing_alert_id of
                Some alert_id \<Rightarrow>
                  if alert_id \<noteq> [] then
                    [UpdateAlertValue (cr_tenant_id rule) alert_id (sc_new_status change)]
                  else []
              | None \<Rightarrow>
                  if is_in_cooldown_for_tenant_at clk cache (cr_tenant_id rule) (cr_id rule) device_id
                       (cr_cooldown_seconds rule) now then []
                  else concat (map (status_action clk device_id change now rule) (cr_actions rule))
                    @ [UpdateCooldown (cr_tenant_id rule) (cr_id rule) device_id now])
           else
             (case existing_alert_id of
                Some alert_id \<Rightarrow>
                  if alert_id \<noteq> [] then [ResolveAlert (cr_tenant_id rule) alert_id] else []
              | None \<Rightarrow> []))"

definition point_in_zone :: "libm \<Rightarrow> f64 \<Rightarrow> f64 \<Rightarrow> zone_geometry \<Rightarrow> bool" where
  "point_in_zone lm lat lon geometry = (case geometry of
      Circle center_lat center_lon radius_meters \<Rightarrow>
        point_in_circle lm lat lon center_lat center_lon radius_meters
    | Polygon points \<Rightarrow> point_in_polygon lat lon points)"

definition valid_location :: "telemetry_data \<Rightarrow> (f64 \<times> f64) option" where
  "valid_location data =
     (case (td_latitude data, td_longitude data) of
        (Some latitude, Some longitude) \<Rightarrow>
          if is_finite latitude \<and> is_finite longitude
            \<and> f64_in_range (Fin (- 90)) (Fin 90) latitude \<and> f64_in_range (Fin (- 180)) (Fin 180) longitude
          then Some (latitude, longitude) else None
      | _ \<Rightarrow> None)"

text \<open>The zone the first condition names, and the two parameters the conditions carry.\<close>

definition rule_zone :: "rule_cache \<Rightarrow> cached_rule \<Rightarrow> cached_zone option" where
  "rule_zone cache rule = (case cr_conditions rule of
      [] \<Rightarrow> None
    | c # _ \<Rightarrow> (case cc_zone_id c of None \<Rightarrow> None | Some i \<Rightarrow> rd_zones (rc_definitions cache) i))"

definition target_inside_of :: "cached_rule \<Rightarrow> bool" where
  "target_inside_of rule =
     is_some_and (\<lambda>c. cc_value c = ''inside'') (find (\<lambda>c. cc_field c = ''zone_state'') (cr_conditions rule))"

definition dwell_seconds_of :: "cached_rule \<Rightarrow> int" where
  "dwell_seconds_of rule =
     unwrap_or 0 (case find (\<lambda>c. cc_field c = ''dwell_seconds'') (cr_conditions rule) of
        None \<Rightarrow> None | Some c \<Rightarrow> parse_i64 (cc_value c))"

definition geofence_conditions_met ::
  "clock_api \<Rightarrow> rule_cache \<Rightarrow> string \<Rightarrow> time \<Rightarrow> cached_rule \<Rightarrow> bool \<Rightarrow> bool" where
  "geofence_conditions_met clk cache device_id now rule inside =
     (let key = (cr_tenant_id rule, cr_id rule, device_id);
          target_inside = target_inside_of rule;
          dwell_seconds = dwell_seconds_of rule;
          was_inside = (rc_zone_entry_times cache key \<noteq> None);
          inside_long_enough = (dwell_seconds = 0
            \<or> is_some_and (\<lambda>entered_at. dwell_seconds \<le> seconds_since clk now entered_at)
                (rc_zone_entry_times cache key))
      in inside = target_inside
         \<and> (if target_inside then inside_long_enough
             else was_inside \<or> rc_active_alerts cache key \<noteq> None))"

definition zone_entry_update ::
  "rule_cache \<Rightarrow> string \<Rightarrow> time \<Rightarrow> cached_rule \<Rightarrow> bool \<Rightarrow> pending_action list" where
  "zone_entry_update cache device_id now rule inside =
     (let was_inside = (rc_zone_entry_times cache (cr_tenant_id rule, cr_id rule, device_id) \<noteq> None)
      in if inside \<and> \<not> was_inside then
           [UpdateZoneEntry (cr_tenant_id rule) (cr_id rule) device_id (Some now)]
         else if \<not> inside \<and> was_inside then
           [UpdateZoneEntry (cr_tenant_id rule) (cr_id rule) device_id None]
         else [])"

definition geofence_rule ::
  "libm \<Rightarrow> clock_api \<Rightarrow> string \<Rightarrow> f64 \<Rightarrow> f64 \<Rightarrow> rule_cache \<Rightarrow> time \<Rightarrow> cached_rule \<Rightarrow> pending_action list" where
  "geofence_rule lm clk device_id latitude longitude cache now rule =
     (if compile_trigger (cr_trigger_type rule) \<noteq> Some TrGeofence then []
      else case rule_zone cache rule of
        None \<Rightarrow> []
      | Some zone \<Rightarrow>
          let inside = point_in_zone lm latitude longitude (cz_geometry zone);
              target_inside = target_inside_of rule;
              existing_alert_id = rc_active_alerts cache (cr_tenant_id rule, cr_id rule, device_id);
              active_state = (inside = target_inside);
              conditions_met = geofence_conditions_met clk cache device_id now rule inside
          in zone_entry_update cache device_id now rule inside
             @ (if conditions_met then
                  (case existing_alert_id of
                     Some alert_id \<Rightarrow>
                       if alert_id \<noteq> [] then
                         [UpdateAlertValue (cr_tenant_id rule) alert_id
                            (f64_display latitude @ '','' @ f64_display longitude)]
                       else []
                   | None \<Rightarrow>
                       if is_in_cooldown_for_tenant_at clk cache (cr_tenant_id rule) (cr_id rule)
                            device_id (cr_cooldown_seconds rule) now then []
                       else concat (map (geofence_action clk device_id latitude longitude target_inside
                                           zone now rule) (cr_actions rule))
                         @ [UpdateCooldown (cr_tenant_id rule) (cr_id rule) device_id now])
                else if \<not> active_state then
                  (case existing_alert_id of
                     Some alert_id \<Rightarrow>
                       if alert_id \<noteq> [] then [ResolveAlert (cr_tenant_id rule) alert_id] else []
                   | None \<Rightarrow> [])
                else []))"

section \<open>The evaluators\<close>

definition evaluate_telemetry_for_tenant_revision_at ::
  "clock_api \<Rightarrow> string \<Rightarrow> string \<Rightarrow> int option \<Rightarrow> string option \<Rightarrow> string option \<Rightarrow> telemetry_data
     \<Rightarrow> rule_cache \<Rightarrow> time \<Rightarrow> pending_action list" where
  "evaluate_telemetry_for_tenant_revision_at clk tenant_id device_id fleet_id blueprint_id
       blueprint_revision_id data cache now =
     concat (map (telemetry_rule clk device_id blueprint_id blueprint_revision_id data cache now)
       (rules_for_tenant_device cache tenant_id device_id (map_option show_int fleet_id) blueprint_id))"

definition evaluate_telemetry_for_tenant_at ::
  "clock_api \<Rightarrow> string \<Rightarrow> string \<Rightarrow> int option \<Rightarrow> string option \<Rightarrow> telemetry_data
     \<Rightarrow> rule_cache \<Rightarrow> time \<Rightarrow> pending_action list" where
  "evaluate_telemetry_for_tenant_at clk tenant_id device_id fleet_id blueprint_id data cache now =
     evaluate_telemetry_for_tenant_revision_at clk tenant_id device_id fleet_id blueprint_id None
       data cache now"

definition evaluate_status_change_for_tenant_at ::
  "clock_api \<Rightarrow> string \<Rightarrow> string \<Rightarrow> int option \<Rightarrow> string option \<Rightarrow> status_change
     \<Rightarrow> rule_cache \<Rightarrow> time \<Rightarrow> pending_action list" where
  "evaluate_status_change_for_tenant_at clk tenant_id device_id fleet_id blueprint_id change cache now =
     concat (map (status_rule clk device_id change cache now)
       (rules_for_tenant_device cache tenant_id device_id (map_option show_int fleet_id) blueprint_id))"

definition evaluate_geofence_for_tenant_at ::
  "libm \<Rightarrow> clock_api \<Rightarrow> string \<Rightarrow> string \<Rightarrow> int option \<Rightarrow> string option \<Rightarrow> telemetry_data
     \<Rightarrow> rule_cache \<Rightarrow> time \<Rightarrow> pending_action list" where
  "evaluate_geofence_for_tenant_at lm clk tenant_id device_id fleet_id blueprint_id data cache now =
     (case valid_location data of
        None \<Rightarrow> []
      | Some (latitude, longitude) \<Rightarrow>
          concat (map (geofence_rule lm clk device_id latitude longitude cache now)
            (rules_for_tenant_device cache tenant_id device_id (map_option show_int fleet_id)
               blueprint_id)))"

section \<open>The life cycle of an alert\<close>

text \<open>
  What an observation says of a rule: that its conditions hold, that they fail, or neither. The
  specification \<open>alert_step\<close> is the life cycle every evaluator promises: a holding rule
  refreshes its open alert or, outside its cooldown, fires and stamps the cooldown; a failing
  rule resolves its open alert; a reservation (an alert without id) is left alone.
\<close>

datatype verdict = Holds | Fails | Silent

fun alert_step ::
  "clock_api \<Rightarrow> string \<Rightarrow> rule_cache \<Rightarrow> time \<Rightarrow> cached_rule \<Rightarrow> verdict \<Rightarrow> string \<Rightarrow> pending_action list
     \<Rightarrow> pending_action list" where
  "alert_step clk device c now r Silent shown fire = []"
| "alert_step clk device c now r Fails shown fire =
     (case rc_active_alerts c (cr_tenant_id r, cr_id r, device) of
        None \<Rightarrow> []
      | Some a \<Rightarrow> if a = [] then [] else [ResolveAlert (cr_tenant_id r) a])"
| "alert_step clk device c now r Holds shown fire =
     (case rc_active_alerts c (cr_tenant_id r, cr_id r, device) of
        Some a \<Rightarrow> if a = [] then [] else [UpdateAlertValue (cr_tenant_id r) a shown]
      | None \<Rightarrow>
          if is_in_cooldown_for_tenant_at clk c (cr_tenant_id r) (cr_id r) device (cr_cooldown_seconds r) now
          then [] else fire @ [UpdateCooldown (cr_tenant_id r) (cr_id r) device now])"

text \<open>The actions that open something: an alert, a request to the outside, a cooldown.\<close>

fun firing :: "pending_action \<Rightarrow> bool" where
  "firing (CreateAlert t r d s m v) = True"
| "firing (SendWebhook t u h p) = True"
| "firing (SendCommand t d c p) = True"
| "firing (UpdateCooldown t r d w) = True"
| "firing _ = False"

text \<open>An action that one rule may ask for on behalf of one device.\<close>

fun of_rule :: "cached_rule \<Rightarrow> string \<Rightarrow> pending_action \<Rightarrow> bool" where
  "of_rule r device (CreateAlert t i d s m v) = (t = cr_tenant_id r \<and> i = cr_id r \<and> d = device)"
| "of_rule r device (SendWebhook t u h p) = (t = cr_tenant_id r)"
| "of_rule r device (SendCommand t d c p) = (t = cr_tenant_id r \<and> d = device)"
| "of_rule r device (UpdateCooldown t i d w) = (t = cr_tenant_id r \<and> i = cr_id r \<and> d = device)"
| "of_rule r device (UpdateZoneEntry t i d w) = (t = cr_tenant_id r \<and> i = cr_id r \<and> d = device)"
| "of_rule r device (UpdateAlertValue t a v) = (t = cr_tenant_id r)"
| "of_rule r device (ResolveAlert t a) = (t = cr_tenant_id r)"

fun alert_reference :: "pending_action \<Rightarrow> string option" where
  "alert_reference (UpdateAlertValue t a v) = Some a"
| "alert_reference (ResolveAlert t a) = Some a"
| "alert_reference _ = None"

lemma of_rule_tenant: "of_rule r device x \<Longrightarrow> pa_tenant_id x = cr_tenant_id r"
  by (cases x) auto

locale alert_rule =
  fixes clk :: clock_api and device :: string
    and body :: "rule_cache \<Rightarrow> time \<Rightarrow> cached_rule \<Rightarrow> pending_action list"
    and judge :: "rule_cache \<Rightarrow> time \<Rightarrow> cached_rule \<Rightarrow> verdict"
    and shown :: "cached_rule \<Rightarrow> string"
    and fire :: "rule_cache \<Rightarrow> time \<Rightarrow> cached_rule \<Rightarrow> pending_action list"
    and zone :: "rule_cache \<Rightarrow> time \<Rightarrow> cached_rule \<Rightarrow> pending_action list"
  assumes body: "body c now r =
      zone c now r @ alert_step clk device c now r (judge c now r) (shown r) (fire c now r)"
    and fire: "x \<in> set (fire c now r) \<Longrightarrow> firing x \<and> of_rule r device x \<and> alert_reference x = None"
    and zone: "x \<in> set (zone c now r) \<Longrightarrow>
      \<not> firing x \<and> of_rule r device x \<and> alert_reference x = None"
begin

lemma of_the_rule: "x \<in> set (body c now r) \<Longrightarrow> of_rule r device x"
  using fire zone
  by (cases "judge c now r") (auto simp: body split: option.splits if_splits)

lemma fires_when:
  assumes "x \<in> set (body c now r)" and "firing x"
  shows "judge c now r = Holds" and "rc_active_alerts c (cr_tenant_id r, cr_id r, device) = None"
    and "\<not> is_in_cooldown_for_tenant_at clk c (cr_tenant_id r) (cr_id r) device (cr_cooldown_seconds r) now"
    and "UpdateCooldown (cr_tenant_id r) (cr_id r) device now \<in> set (body c now r)"
  using assms zone
  by (cases "judge c now r"; auto simp: body split: option.splits if_splits)+

lemma refers_when:
  assumes "x \<in> set (body c now r)" and "alert_reference x = Some a"
  shows "rc_active_alerts c (cr_tenant_id r, cr_id r, device) = Some a" and "a \<noteq> []"
  using assms zone fire
  by (cases "judge c now r"; force simp: body split: option.splits if_splits)+

lemma resolves_when:
  assumes "ResolveAlert t a \<in> set (body c now r)"
  shows "judge c now r = Fails"
  using assms zone fire
  by (cases "judge c now r"; force simp: body split: option.splits if_splits)

end

text \<open>What each kind of observation says of a rule.\<close>

definition telemetry_verdict ::
  "string option \<Rightarrow> string option \<Rightarrow> telemetry_data \<Rightarrow> cached_rule \<Rightarrow> verdict" where
  "telemetry_verdict b v data r =
     (if compile_trigger (cr_trigger_type r) = Some TrTelemetry \<and> cr_conditions r \<noteq> []
        \<and> (\<forall>c \<in> set (cr_conditions r).
             \<not> condition_out_of_scope b v c \<and> get_field_value (cc_field c) data \<noteq> None)
      then if \<forall>c \<in> set (cr_conditions r). evaluate_condition c data then Holds else Fails
      else Silent)"

definition status_verdict :: "status_change \<Rightarrow> cached_rule \<Rightarrow> verdict" where
  "status_verdict change r =
     (if compile_trigger (cr_trigger_type r) = Some TrDeviceStatus
      then if \<forall>c \<in> set (cr_conditions r). evaluate_status_condition c (sc_new_status change)
           then Holds else Fails
      else Silent)"

definition rule_inside :: "libm \<Rightarrow> f64 \<Rightarrow> f64 \<Rightarrow> rule_cache \<Rightarrow> cached_rule \<Rightarrow> bool" where
  "rule_inside lm lat lon c r =
     is_some_and (\<lambda>z. point_in_zone lm lat lon (cz_geometry z)) (rule_zone c r)"

definition geofence_watched :: "rule_cache \<Rightarrow> cached_rule \<Rightarrow> bool" where
  "geofence_watched c r \<longleftrightarrow> compile_trigger (cr_trigger_type r) = Some TrGeofence \<and> rule_zone c r \<noteq> None"

definition geofence_verdict ::
  "libm \<Rightarrow> clock_api \<Rightarrow> string \<Rightarrow> f64 \<Rightarrow> f64 \<Rightarrow> rule_cache \<Rightarrow> time \<Rightarrow> cached_rule \<Rightarrow> verdict" where
  "geofence_verdict lm clk device lat lon c now r =
     (if \<not> geofence_watched c r then Silent
      else if geofence_conditions_met clk c device now r (rule_inside lm lat lon c r) then Holds
      else if rule_inside lm lat lon c r \<noteq> target_inside_of r then Fails
      else Silent)"

definition geofence_zone ::
  "libm \<Rightarrow> string \<Rightarrow> f64 \<Rightarrow> f64 \<Rightarrow> rule_cache \<Rightarrow> time \<Rightarrow> cached_rule \<Rightarrow> pending_action list" where
  "geofence_zone lm device lat lon c now r =
     (if geofence_watched c r then zone_entry_update c device now r (rule_inside lm lat lon c r) else [])"

definition telemetry_fire ::
  "clock_api \<Rightarrow> string \<Rightarrow> telemetry_data \<Rightarrow> rule_cache \<Rightarrow> time \<Rightarrow> cached_rule \<Rightarrow> pending_action list" where
  "telemetry_fire clk device data c now r =
     concat (map (telemetry_action clk device data now r) (cr_actions r))"

definition status_fire ::
  "clock_api \<Rightarrow> string \<Rightarrow> status_change \<Rightarrow> rule_cache \<Rightarrow> time \<Rightarrow> cached_rule \<Rightarrow> pending_action list" where
  "status_fire clk device change c now r =
     concat (map (status_action clk device change now r) (cr_actions r))"

definition geofence_fire ::
  "clock_api \<Rightarrow> string \<Rightarrow> f64 \<Rightarrow> f64 \<Rightarrow> rule_cache \<Rightarrow> time \<Rightarrow> cached_rule \<Rightarrow> pending_action list" where
  "geofence_fire clk device lat lon c now r = (case rule_zone c r of
      None \<Rightarrow> []
    | Some z \<Rightarrow>
        concat (map (geofence_action clk device lat lon (target_inside_of r) z now r) (cr_actions r)))"

lemma fire_action_of_rule:
  "x \<in> set (telemetry_action clk device data now r a) \<Longrightarrow>
     firing x \<and> of_rule r device x \<and> alert_reference x = None"
  "x \<in> set (status_action clk device change now r a) \<Longrightarrow>
     firing x \<and> of_rule r device x \<and> alert_reference x = None"
  "x \<in> set (geofence_action clk device lat lon ti z now r a) \<Longrightarrow>
     firing x \<and> of_rule r device x \<and> alert_reference x = None"
  by (cases "compile_action a"; cases "ka_kind (the (compile_action a))";
      auto simp: telemetry_action_def status_action_def geofence_action_def Let_def)+

lemma telemetry_rule_life_cycle:
  "telemetry_rule clk device b v data c now r =
     alert_step clk device c now r (telemetry_verdict b v data r)
       (unwrap_or [] (triggered_value_for (cr_conditions r) data)) (telemetry_fire clk device data c now r)"
  by (auto simp: telemetry_rule_def telemetry_verdict_def telemetry_fire_def Let_def
      split: option.splits)

lemma status_rule_life_cycle:
  "status_rule clk device change c now r =
     alert_step clk device c now r (status_verdict change r) (sc_new_status change)
       (status_fire clk device change c now r)"
  by (auto simp: status_rule_def status_verdict_def status_fire_def Let_def split: option.splits)

lemma geofence_rule_life_cycle:
  "geofence_rule lm clk device lat lon c now r =
     geofence_zone lm device lat lon c now r
     @ alert_step clk device c now r (geofence_verdict lm clk device lat lon c now r)
         (f64_display lat @ '','' @ f64_display lon) (geofence_fire clk device lat lon c now r)"
  by (auto simp: geofence_rule_def geofence_verdict_def geofence_fire_def geofence_zone_def
      rule_inside_def geofence_watched_def Let_def split: option.splits)

interpretation telemetry: alert_rule clk device "telemetry_rule clk device b v data"
  "\<lambda>c now. telemetry_verdict b v data"
  "\<lambda>r. unwrap_or [] (triggered_value_for (cr_conditions r) data)"
  "telemetry_fire clk device data" "\<lambda>c now r. []"
  for clk device b v data
  by unfold_locales (auto simp: telemetry_rule_life_cycle telemetry_fire_def dest: fire_action_of_rule)

interpretation status: alert_rule clk device "status_rule clk device change"
  "\<lambda>c now. status_verdict change" "\<lambda>r. sc_new_status change"
  "status_fire clk device change" "\<lambda>c now r. []"
  for clk device change
  by unfold_locales (auto simp: status_rule_life_cycle status_fire_def dest: fire_action_of_rule)

interpretation geofence: alert_rule clk device "geofence_rule lm clk device lat lon"
  "geofence_verdict lm clk device lat lon" "\<lambda>r. f64_display lat @ '','' @ f64_display lon"
  "geofence_fire clk device lat lon" "geofence_zone lm device lat lon"
  for lm clk device lat lon
  by unfold_locales
    (auto simp: geofence_rule_life_cycle geofence_fire_def geofence_zone_def zone_entry_update_def Let_def
      split: option.splits if_splits dest: fire_action_of_rule)

section \<open>Whole evaluations\<close>

text \<open>An action that a rule of this tenant, applicable to this device, may ask for.\<close>

definition action_in_scope ::
  "rule_cache \<Rightarrow> string \<Rightarrow> string \<Rightarrow> int option \<Rightarrow> string option \<Rightarrow> pending_action \<Rightarrow> bool" where
  "action_in_scope c tenant device fleet b x \<longleftrightarrow>
     (\<exists>r. rule_applies c tenant device (map_option show_int fleet) b r \<and> of_rule r device x
        \<and> pa_tenant_id x = tenant
        \<and> (\<forall>a. alert_reference x = Some a \<longrightarrow>
             a \<noteq> [] \<and> rc_active_alerts c (tenant, cr_id r, device) = Some a))"

text \<open>
  A batch whose firing actions each come from a rule whose conditions hold, that has no open
  alert, is outside its cooldown, and whose cooldown the same batch stamps.
\<close>

definition disciplined ::
  "clock_api \<Rightarrow> rule_cache \<Rightarrow> string \<Rightarrow> string \<Rightarrow> int option \<Rightarrow> string option \<Rightarrow> time
     \<Rightarrow> (cached_rule \<Rightarrow> bool) \<Rightarrow> pending_action list \<Rightarrow> bool" where
  "disciplined clk c tenant device fleet b now holds xs \<longleftrightarrow>
     (\<forall>x \<in> set xs. firing x \<longrightarrow>
        (\<exists>r. rule_applies c tenant device (map_option show_int fleet) b r \<and> of_rule r device x
           \<and> holds r \<and> rc_active_alerts c (tenant, cr_id r, device) = None
           \<and> \<not> is_in_cooldown_for_tenant_at clk c tenant (cr_id r) device (cr_cooldown_seconds r) now
           \<and> UpdateCooldown tenant (cr_id r) device now \<in> set xs))"

context alert_rule
begin

lemma batch_in_scope:
  assumes "x \<in> set (concat (map (body c now) (rules_for_tenant_device c t device (map_option show_int f) b)))"
  shows "action_in_scope c t device f b x"
proof -
  from assms obtain r where r: "r \<in> set (rules_for_tenant_device c t device (map_option show_int f) b)"
      "x \<in> set (body c now r)" by auto
  have t: "cr_tenant_id r = t" by (rule cache_rules.tenant [OF r(1)])
  with r show ?thesis
    unfolding action_in_scope_def rules_for_tenant_device_spec
    using of_the_rule [OF r(2)] of_rule_tenant refers_when [OF r(2)] by (intro exI [of _ r]) auto
qed

lemma batch_disciplined:
  "disciplined clk c t device f b now (\<lambda>r. judge c now r = Holds)
     (concat (map (body c now) (rules_for_tenant_device c t device (map_option show_int f) b)))"
  unfolding disciplined_def
proof (intro ballI impI)
  fix x
  assume "x \<in> set (concat (map (body c now) (rules_for_tenant_device c t device (map_option show_int f) b)))"
    and x: "firing x"
  then obtain r where r: "r \<in> set (rules_for_tenant_device c t device (map_option show_int f) b)"
      "x \<in> set (body c now r)" by auto
  have t: "cr_tenant_id r = t" by (rule cache_rules.tenant [OF r(1)])
  note f = fires_when [OF r(2) x, unfolded t]
  from f(4) r(1) have "UpdateCooldown t (cr_id r) device now
      \<in> set (concat (map (body c now) (rules_for_tenant_device c t device (map_option show_int f) b)))"
    by auto
  with r f(1-3) of_the_rule [OF r(2)] rules_for_tenant_device_spec
  show "\<exists>r. rule_applies c t device (map_option show_int f) b r \<and> of_rule r device x
      \<and> judge c now r = Holds \<and> rc_active_alerts c (t, cr_id r, device) = None
      \<and> \<not> is_in_cooldown_for_tenant_at clk c t (cr_id r) device (cr_cooldown_seconds r) now
      \<and> UpdateCooldown t (cr_id r) device now
          \<in> set (concat (map (body c now) (rules_for_tenant_device c t device (map_option show_int f) b)))"
    by blast
qed

lemma batch_resolves:
  assumes "ResolveAlert t' a
      \<in> set (concat (map (body c now) (rules_for_tenant_device c t device (map_option show_int f) b)))"
  shows "\<exists>r. rule_applies c t device (map_option show_int f) b r
    \<and> rc_active_alerts c (t, cr_id r, device) = Some a \<and> judge c now r = Fails"
proof -
  from assms obtain r where r: "r \<in> set (rules_for_tenant_device c t device (map_option show_int f) b)"
      "ResolveAlert t' a \<in> set (body c now r)" by auto
  have t: "cr_tenant_id r = t" by (rule cache_rules.tenant [OF r(1)])
  from refers_when(1) [OF r(2), of a] resolves_when [OF r(2)] r(1) rules_for_tenant_device_spec t
  show ?thesis by auto
qed

end

lemma geofence_not_empty:
  assumes "x \<in> set (evaluate_geofence_for_tenant_at lm clk t d f b data c now)"
  obtains lat lon where "valid_location data = Some (lat, lon)"
    and "x \<in> set (concat (map (geofence_rule lm clk d lat lon c now)
           (rules_for_tenant_device c t d (map_option show_int f) b)))"
  using assms that
  by (cases "valid_location data") (auto simp: evaluate_geofence_for_tenant_at_def)

lemma telemetry_in_scope:
  "x \<in> set (evaluate_telemetry_for_tenant_revision_at clk t d f b v data c now) \<Longrightarrow>
     action_in_scope c t d f b x"
  unfolding evaluate_telemetry_for_tenant_revision_at_def by (rule telemetry.batch_in_scope)

lemma status_in_scope:
  "x \<in> set (evaluate_status_change_for_tenant_at clk t d f b change c now) \<Longrightarrow>
     action_in_scope c t d f b x"
  unfolding evaluate_status_change_for_tenant_at_def by (rule status.batch_in_scope)

lemma geofence_in_scope:
  "x \<in> set (evaluate_geofence_for_tenant_at lm clk t d f b data c now) \<Longrightarrow>
     action_in_scope c t d f b x"
  by (elim geofence_not_empty geofence.batch_in_scope)

lemma telemetry_disciplined:
  "disciplined clk c t d f b now (\<lambda>r. telemetry_verdict b v data r = Holds)
     (evaluate_telemetry_for_tenant_revision_at clk t d f b v data c now)"
  unfolding evaluate_telemetry_for_tenant_revision_at_def by (rule telemetry.batch_disciplined)

lemma status_disciplined:
  "disciplined clk c t d f b now (\<lambda>r. status_verdict change r = Holds)
     (evaluate_status_change_for_tenant_at clk t d f b change c now)"
  unfolding evaluate_status_change_for_tenant_at_def by (rule status.batch_disciplined)

lemma geofence_disciplined:
  "disciplined clk c t d f b now
     (\<lambda>r. is_some_and (\<lambda>(lat, lon). geofence_verdict lm clk d lat lon c now r = Holds) (valid_location data))
     (evaluate_geofence_for_tenant_at lm clk t d f b data c now)"
  using geofence.batch_disciplined
  by (cases "valid_location data") (auto simp: evaluate_geofence_for_tenant_at_def disciplined_def)

lemma disciplined_append:
  "disciplined clk c t d f b now p xs \<Longrightarrow> disciplined clk c t d f b now q ys \<Longrightarrow>
     disciplined clk c t d f b now (\<lambda>r. p r \<or> q r) (xs @ ys)"
  unfolding disciplined_def set_append by blast

lemma disciplined_mono:
  "disciplined clk c t d f b now p xs \<Longrightarrow> (\<And>r. p r \<Longrightarrow> q r) \<Longrightarrow> disciplined clk c t d f b now q xs"
  unfolding disciplined_def by blast

lemma get_field_value_observed:
  "get_field_value field data \<noteq> None \<longleftrightarrow>
     (\<exists>n. bt_get (td_metrics data) field = Some n \<and> mn_is_finite n)"
  by (auto simp: get_field_value_def split: option.splits)

text \<open>The relation an operator names.\<close>

definition relates :: "condition_operator \<Rightarrow> rat \<Rightarrow> rat \<Rightarrow> bool" where
  "relates operator x y = (case operator of OpGt \<Rightarrow> x > y | OpGte \<Rightarrow> x \<ge> y | OpLt \<Rightarrow> x < y
     | OpLte \<Rightarrow> x \<le> y | OpEq \<Rightarrow> x = y | OpNeq \<Rightarrow> x \<noteq> y)"

section \<open>A sample rule\<close>

definition sample_clock :: clock_api where
  "sample_clock = \<lparr>seconds_since = (\<lambda>a b. a - b), to_rfc3339 = show_int\<rparr>"

definition sample_rule :: cached_rule where
  "sample_rule = \<lparr>cr_tenant_id = ''t'', cr_id = ''r'', cr_name = ''hot'', cr_trigger_type = ''telemetry'',
     cr_target_type = ''global'', cr_target_id = None, cr_cooldown_seconds = 60,
     cr_conditions = [\<lparr>cc_field = ''air./temp'', cc_blueprint_id = None,
        cc_blueprint_revision_id = None, cc_operator = ''gt'', cc_value = ''80'', cc_zone_id = None\<rparr>],
     cr_actions = [\<lparr>ca_action_type = ''alert'', ca_config = JNull\<rparr>]\<rparr>"

definition sample_data :: "int \<Rightarrow> telemetry_data" where
  "sample_data i = \<lparr>td_latitude = None, td_longitude = None, td_metrics = [(''air./temp'', MInteger i)]\<rparr>"

definition sample_cache :: rule_cache where
  "sample_cache = insert_rule default_cache sample_rule"

definition sample_alert_cache :: rule_cache where
  "sample_alert_cache = sample_cache\<lparr>rc_active_alerts := [(''t'', ''r'', ''d'') \<mapsto> ''a'']\<rparr>"

section \<open>Properties\<close>

text \<open>
  C2. Evaluation never leaves its scope: whatever telemetry, a status change or a location makes
  the rules ask for is asked by a rule of the evaluated tenant that applies to the evaluated
  device, names that tenant, rule and device, and touches only a real alert that is open for
  that rule on that device.
\<close>

theorem evaluation_stays_in_scope:
  "(\<forall>x \<in> set (evaluate_telemetry_for_tenant_revision_at clk t d f b v data c now).
      action_in_scope c t d f b x)
   \<and> (\<forall>x \<in> set (evaluate_status_change_for_tenant_at clk t d f b change c now).
      action_in_scope c t d f b x)
   \<and> (\<forall>x \<in> set (evaluate_geofence_for_tenant_at lm clk t d f b data c now).
      action_in_scope c t d f b x)"
  by (intro conjI ballI; erule telemetry_in_scope status_in_scope geofence_in_scope)

theorem evaluation_stays_in_scope_witness:
  "action_in_scope sample_cache ''t'' ''d'' None None (UpdateCooldown ''t'' ''r'' ''d'' 7)
   \<and> action_in_scope sample_alert_cache ''t'' ''d'' None None (ResolveAlert ''t'' ''a'')"
proof -
  have "UpdateCooldown ''t'' ''r'' ''d'' 7 \<in> set (evaluate_telemetry_for_tenant_revision_at sample_clock
      ''t'' ''d'' None None None (sample_data 85) sample_cache 7)" by code_simp
  moreover have "ResolveAlert ''t'' ''a'' \<in> set (evaluate_telemetry_for_tenant_revision_at sample_clock
      ''t'' ''d'' None None None (sample_data 75) sample_alert_cache 7)" by code_simp
  ultimately show ?thesis using evaluation_stays_in_scope by blast
qed

text \<open>
  C3. The three evaluators implement one alert life cycle, \<open>alert_step\<close>: they differ only in what
  they observe, in the value they show and in the actions they start, and the geofence evaluator
  in the zone entry it maintains besides.
\<close>

theorem evaluators_share_life_cycle:
  "telemetry_rule clk d b v data c now r =
     alert_step clk d c now r (telemetry_verdict b v data r)
       (unwrap_or [] (triggered_value_for (cr_conditions r) data))
       (concat (map (telemetry_action clk d data now r) (cr_actions r)))
   \<and> status_rule clk d change c now r =
     alert_step clk d c now r (status_verdict change r) (sc_new_status change)
       (concat (map (status_action clk d change now r) (cr_actions r)))
   \<and> geofence_rule lm clk d lat lon c now r =
     geofence_zone lm d lat lon c now r
     @ alert_step clk d c now r (geofence_verdict lm clk d lat lon c now r)
         (f64_display lat @ '','' @ f64_display lon) (geofence_fire clk d lat lon c now r)"
  using telemetry_rule_life_cycle [of clk d b v data c now r] status_rule_life_cycle [of clk d change c now r]
    geofence_rule_life_cycle [of lm clk d lat lon c now r]
  by (simp add: telemetry_fire_def status_fire_def)

text \<open>
  Nothing is opened twice or too soon: an alert, webhook, command or cooldown is only asked
  for by a rule whose conditions hold, that has no open alert or reservation on the device and
  is outside its cooldown, and the same batch of actions restarts that cooldown.
\<close>

theorem firing_is_disciplined:
  "disciplined clk c t d f b now (\<lambda>r. telemetry_verdict b v data r = Holds)
     (evaluate_telemetry_for_tenant_revision_at clk t d f b v data c now)
   \<and> disciplined clk c t d f b now (\<lambda>r. status_verdict change r = Holds)
     (evaluate_status_change_for_tenant_at clk t d f b change c now)
   \<and> disciplined clk c t d f b now
     (\<lambda>r. is_some_and (\<lambda>(lat, lon). geofence_verdict lm clk d lat lon c now r = Holds) (valid_location data))
     (evaluate_geofence_for_tenant_at lm clk t d f b data c now)"
  by (intro conjI telemetry_disciplined status_disciplined geofence_disciplined)

text \<open>
  An alert is only resolved on contrary evidence: telemetry resolves an alert of a rule only
  when it observes every metric of that rule, in the rule's own blueprint and revision, and one
  of its conditions is false; a location only when the device is on the other side of the fence
  than the rule watches for. A missing or non-finite metric and an unusable location resolve
  nothing.
\<close>

theorem resolution_needs_contrary_evidence:
  "(ResolveAlert t' a \<in> set (evaluate_telemetry_for_tenant_revision_at clk t d f b v data c now) \<longrightarrow>
      (\<exists>r. rule_applies c t d (map_option show_int f) b r
         \<and> rc_active_alerts c (t, cr_id r, d) = Some a
         \<and> (\<forall>k \<in> set (cr_conditions r). \<exists>n. bt_get (td_metrics data) (cc_field k) = Some n \<and> mn_is_finite n)
         \<and> (\<forall>k \<in> set (cr_conditions r). \<not> condition_out_of_scope b v k)
         \<and> (\<exists>k \<in> set (cr_conditions r). \<not> evaluate_condition k data)))
   \<and> (ResolveAlert t' a \<in> set (evaluate_geofence_for_tenant_at lm clk t d f b data c now) \<longrightarrow>
      (\<exists>r lat lon. rule_applies c t d (map_option show_int f) b r
         \<and> rc_active_alerts c (t, cr_id r, d) = Some a
         \<and> valid_location data = Some (lat, lon)
         \<and> rule_inside lm lat lon c r \<noteq> target_inside_of r))"
proof (intro conjI impI)
  assume "ResolveAlert t' a \<in> set (evaluate_telemetry_for_tenant_revision_at clk t d f b v data c now)"
  from telemetry.batch_resolves [OF this [unfolded evaluate_telemetry_for_tenant_revision_at_def]]
  obtain r where "rule_applies c t d (map_option show_int f) b r"
      "rc_active_alerts c (t, cr_id r, d) = Some a" "telemetry_verdict b v data r = Fails" by blast
  moreover from this(3) have "(\<forall>k \<in> set (cr_conditions r). get_field_value (cc_field k) data \<noteq> None)
      \<and> (\<forall>k \<in> set (cr_conditions r). \<not> condition_out_of_scope b v k)
      \<and> (\<exists>k \<in> set (cr_conditions r). \<not> evaluate_condition k data)"
    by (auto simp: telemetry_verdict_def split: if_splits)
  ultimately show "\<exists>r. rule_applies c t d (map_option show_int f) b r
         \<and> rc_active_alerts c (t, cr_id r, d) = Some a
         \<and> (\<forall>k \<in> set (cr_conditions r). \<exists>n. bt_get (td_metrics data) (cc_field k) = Some n \<and> mn_is_finite n)
         \<and> (\<forall>k \<in> set (cr_conditions r). \<not> condition_out_of_scope b v k)
         \<and> (\<exists>k \<in> set (cr_conditions r). \<not> evaluate_condition k data)"
    unfolding get_field_value_observed by blast
next
  assume "ResolveAlert t' a \<in> set (evaluate_geofence_for_tenant_at lm clk t d f b data c now)"
  then obtain lat lon where l: "valid_location data = Some (lat, lon)"
      "ResolveAlert t' a \<in> set (concat (map (geofence_rule lm clk d lat lon c now)
           (rules_for_tenant_device c t d (map_option show_int f) b)))"
    by (rule geofence_not_empty)
  from geofence.batch_resolves [OF l(2)] obtain r where
      "rule_applies c t d (map_option show_int f) b r" "rc_active_alerts c (t, cr_id r, d) = Some a"
      "geofence_verdict lm clk d lat lon c now r = Fails" by blast
  moreover from this(3) have "rule_inside lm lat lon c r \<noteq> target_inside_of r"
    by (auto simp: geofence_verdict_def split: if_splits)
  ultimately show "\<exists>r lat lon. rule_applies c t d (map_option show_int f) b r
         \<and> rc_active_alerts c (t, cr_id r, d) = Some a
         \<and> valid_location data = Some (lat, lon)
         \<and> rule_inside lm lat lon c r \<noteq> target_inside_of r"
    using l(1) by blast
qed

theorem resolution_needs_contrary_evidence_witness:
  "\<exists>r. rule_applies sample_alert_cache ''t'' ''d'' None None r
     \<and> rc_active_alerts sample_alert_cache (''t'', cr_id r, ''d'') = Some ''a''
     \<and> (\<exists>k \<in> set (cr_conditions r). \<not> evaluate_condition k (sample_data 75))"
proof -
  have "ResolveAlert ''t'' ''a'' \<in> set (evaluate_telemetry_for_tenant_revision_at sample_clock
      ''t'' ''d'' None None None (sample_data 75) sample_alert_cache 7)" by code_simp
  with resolution_needs_contrary_evidence [of "''t''" "''a''" sample_clock "''t''" "''d''" None None None
      "sample_data 75" sample_alert_cache 7, THEN conjunct1]
  show ?thesis by auto
qed

text \<open>
  A condition on a metric decides the exact order of the observed number and the written
  threshold: for an observation that is present and finite, and an operator and a threshold that
  parse, the condition is true exactly when the rational numbers are so related, whether they
  are held as 64-bit integers or floats; in every other case it is false.
\<close>

theorem condition_is_exact_comparison:
  assumes "\<And>k n. bt_get (td_metrics data) k = Some n \<Longrightarrow> mn_wf n"
  shows "evaluate_condition c data \<longleftrightarrow>
    (\<exists>n operator threshold.
       bt_get (td_metrics data) (cc_field c) = Some n \<and> mn_is_finite n
       \<and> compile_operator (cc_operator c) = Some operator
       \<and> mn_parse (cc_value c) = Some threshold
       \<and> relates operator (mn_val n) (mn_val threshold))"
proof -
  have cmp: "mn_compare n th = Some (rat_cmp (mn_val n) (mn_val th))"
    if "bt_get (td_metrics data) k = Some n" "mn_is_finite n" "mn_parse v = Some th" for k n v th
    using that assms mn_parse_wf [OF that(3)] by (simp add: mn_compare_exact)
  have holds: "operator_holds op (rat_cmp x y) = relates op x y" for op x y
    by (cases op) (auto simp: relates_def rat_cmp_def)
  show ?thesis
    unfolding evaluate_condition_def get_field_value_def
    by (auto simp: holds dest: cmp split: option.splits if_splits)
qed

theorem condition_is_exact_comparison_witness:
  "evaluate_condition (hd (cr_conditions sample_rule)) (sample_data 81)"
proof -
  have "mn_parse ''80'' = Some (MInteger 80)" by code_simp
  then show ?thesis
    by (intro condition_is_exact_comparison [THEN iffD2])
      (auto simp: sample_data_def sample_rule_def relates_def compile_operator_def bt_get_def in_i64_def
        split: if_splits)
qed

end
