(* ===== verification/Rule_Decision.thy ===== *)
theory Rule_Decision
  imports Rule_Eval
begin

text \<open>
  \<^verbatim>\<open>crates/backend-core/src/rule_snapshots.rs\<close> and \<^verbatim>\<open>rule_actions.rs\<close>: a prepared evaluation is
  decided against the runtime rows of one device, the actions are split into deliveries and
  runtime mutations, and a delivery becomes an outbox event that is decoded again before it is
  carried out. Serialization by serde, the digest and the identifier of a new event are
  parameters.
\<close>

section \<open>Snapshots and decisions\<close>

record rule_snapshot_records =
  rsr_rules :: "cached_rule list"
  rsr_zones :: "string \<rightharpoonup> cached_zone"

definition compile_snapshot :: "rule_snapshot_records \<Rightarrow> rule_cache" where
  "compile_snapshot records =
     (let cache = foldl insert_rule default_cache (rsr_rules records)
      in cache\<lparr>rc_definitions := (rc_definitions cache)\<lparr>rd_zones := rsr_zones records\<rparr>\<rparr>)"

record device_rule_runtime =
  live_rule_ids :: "string set"
  rt_active_alerts :: "rule_device_key \<rightharpoonup> string"
  rt_cooldowns :: "rule_device_key \<rightharpoonup> time"
  rt_zone_entries :: "rule_device_key \<rightharpoonup> time"

datatype rule_evaluation_input = StatusInput status_change | TelemetryInput telemetry_data bool

record device_rule_evaluation =
  ev_snapshot :: rule_cache
  ev_tenant :: string
  ev_device_id :: string
  ev_fleet_id :: "int option"
  ev_blueprint_id :: "string option"
  ev_blueprint_revision_id :: "string option"
  ev_input :: rule_evaluation_input
  ev_observed_at :: time

record cooldown_record =
  cd_tenant_id :: string
  cd_rule_id :: string
  cd_device_id :: string
  cd_last_fired_at :: time

record zone_entry_mutation =
  ze_tenant_id :: string
  ze_rule_id :: string
  ze_device_id :: string
  ze_entered_at :: "time option"

record device_rule_decision =
  deliveries :: "pending_action list"
  dec_cooldowns :: "cooldown_record list"
  dec_zone_entries :: "zone_entry_mutation list"

definition candidate_rule_ids :: "device_rule_evaluation \<Rightarrow> string list" where
  "candidate_rule_ids ev =
     map cr_id (rules_for_tenant_device (ev_snapshot ev) (ev_tenant ev) (ev_device_id ev)
       (map_option show_int (ev_fleet_id ev)) (ev_blueprint_id ev))"

definition decision_cache :: "device_rule_evaluation \<Rightarrow> device_rule_runtime \<Rightarrow> rule_cache" where
  "decision_cache ev runtime =
     (restrict_to_rule_ids (definitions_only (ev_snapshot ev)) (live_rule_ids runtime))
       \<lparr>rc_active_alerts := rt_active_alerts runtime, rc_cooldowns := rt_cooldowns runtime,
        rc_zone_entry_times := rt_zone_entries runtime\<rparr>"

definition decision_actions ::
  "libm \<Rightarrow> clock_api \<Rightarrow> device_rule_evaluation \<Rightarrow> device_rule_runtime \<Rightarrow> pending_action list" where
  "decision_actions lm clk ev runtime =
     (let cache = decision_cache ev runtime in
      case ev_input ev of
        StatusInput change \<Rightarrow>
          evaluate_status_change_for_tenant_at clk (ev_tenant ev) (ev_device_id ev) (ev_fleet_id ev)
            (ev_blueprint_id ev) change cache (ev_observed_at ev)
      | TelemetryInput data geofence \<Rightarrow>
          evaluate_telemetry_for_tenant_revision_at clk (ev_tenant ev) (ev_device_id ev) (ev_fleet_id ev)
            (ev_blueprint_id ev) (ev_blueprint_revision_id ev) data cache (ev_observed_at ev)
          @ (if geofence then
               evaluate_geofence_for_tenant_at lm clk (ev_tenant ev) (ev_device_id ev) (ev_fleet_id ev)
                 (ev_blueprint_id ev) data cache (ev_observed_at ev)
             else []))"

text \<open>The loop that files each action of the evaluation.\<close>

fun file_action :: "device_rule_decision \<Rightarrow> pending_action \<Rightarrow> device_rule_decision" where
  "file_action d (UpdateCooldown t r dev fired) = d\<lparr>dec_cooldowns := dec_cooldowns d
     @ [\<lparr>cd_tenant_id = t, cd_rule_id = r, cd_device_id = dev, cd_last_fired_at = fired\<rparr>]\<rparr>"
| "file_action d (UpdateZoneEntry t r dev entered) = d\<lparr>dec_zone_entries := dec_zone_entries d
     @ [\<lparr>ze_tenant_id = t, ze_rule_id = r, ze_device_id = dev, ze_entered_at = entered\<rparr>]\<rparr>"
| "file_action d delivery = d\<lparr>deliveries := deliveries d @ [delivery]\<rparr>"

definition decide ::
  "libm \<Rightarrow> clock_api \<Rightarrow> device_rule_evaluation \<Rightarrow> device_rule_runtime \<Rightarrow> device_rule_decision" where
  "decide lm clk ev runtime =
     foldl file_action \<lparr>deliveries = [], dec_cooldowns = [], dec_zone_entries = []\<rparr>
       (decision_actions lm clk ev runtime)"

section \<open>Deliveries as outbox events\<close>

record serde_api =
  action_to_value :: "pending_action \<Rightarrow> (string, json) result"
  action_from_value :: "json \<Rightarrow> (string, pending_action) result"
  headers_to_vec :: "(string \<times> string) list \<Rightarrow> (string, string) result"
  value_to_vec :: "json \<Rightarrow> (string, string) result"
  sha256_hex :: "string \<Rightarrow> string"

record new_outbox_event =
  ne_id :: string
  ne_tenant_id :: string
  ne_event_type :: string
  ne_aggregate_type :: string
  ne_aggregate_id :: string
  ne_idempotency_key :: "string option"
  ne_payload :: json

fun is_runtime_state :: "pending_action \<Rightarrow> bool" where
  "is_runtime_state (UpdateZoneEntry t r d e) = True"
| "is_runtime_state (UpdateCooldown t r d f) = True"
| "is_runtime_state _ = False"

definition tenant_id_for_action :: "pending_action \<Rightarrow> string" where
  "tenant_id_for_action action = pa_tenant_id action"

fun event_type_for_action :: "pending_action \<Rightarrow> string" where
  "event_type_for_action (CreateAlert _ _ _ _ _ _) = ''rule.create_alert''"
| "event_type_for_action (UpdateAlertValue _ _ _) = ''rule.update_alert_value''"
| "event_type_for_action (ResolveAlert _ _) = ''rule.resolve_alert''"
| "event_type_for_action (SendWebhook _ _ _ _) = ''rule.send_webhook''"
| "event_type_for_action (SendCommand _ _ _ _) = ''rule.send_command''"
| "event_type_for_action (UpdateCooldown _ _ _ _) = ''rule.update_cooldown''"
| "event_type_for_action (UpdateZoneEntry _ _ _ _) = ''rule.update_zone_entry''"

fun aggregate_type_for_action :: "pending_action \<Rightarrow> string" where
  "aggregate_type_for_action (CreateAlert _ _ _ _ _ _) = ''alert''"
| "aggregate_type_for_action (UpdateAlertValue _ _ _) = ''alert''"
| "aggregate_type_for_action (ResolveAlert _ _) = ''alert''"
| "aggregate_type_for_action (SendWebhook _ _ _ _) = ''webhook''"
| "aggregate_type_for_action (SendCommand _ _ _ _) = ''command''"
| "aggregate_type_for_action (UpdateCooldown _ _ _ _) = ''rule_cooldown''"
| "aggregate_type_for_action (UpdateZoneEntry _ _ _ _) = ''zone_entry''"

fun aggregate_id_for_action :: "pending_action \<Rightarrow> string" where
  "aggregate_id_for_action (CreateAlert _ rule_id device_id _ _ _) = rule_id @ '':'' @ device_id"
| "aggregate_id_for_action (UpdateCooldown _ rule_id device_id _) = rule_id @ '':'' @ device_id"
| "aggregate_id_for_action (UpdateZoneEntry _ rule_id device_id _) = rule_id @ '':'' @ device_id"
| "aggregate_id_for_action (UpdateAlertValue _ alert_id _) = alert_id"
| "aggregate_id_for_action (ResolveAlert _ alert_id) = alert_id"
| "aggregate_id_for_action (SendWebhook _ url _ _) = url"
| "aggregate_id_for_action (SendCommand _ device_id command _) = device_id @ '':'' @ command"

text \<open>\<^verbatim>\<open>serde_json::to_vec(value).unwrap_or_default()\<close> and its digest.\<close>

definition stable_hash :: "serde_api \<Rightarrow> string \<Rightarrow> string" where
  "stable_hash S bytes = sha256_hex S bytes"

definition stable_json_hash :: "serde_api \<Rightarrow> (string, string) result \<Rightarrow> string" where
  "stable_json_hash S serialized = stable_hash S (case serialized of Inl _ \<Rightarrow> [] | Inr bytes \<Rightarrow> bytes)"

fun idempotency_key_for_action :: "serde_api \<Rightarrow> pending_action \<Rightarrow> string" where
  "idempotency_key_for_action S (CreateAlert _ rule_id device_id _ _ _) =
     ''create-alert:'' @ rule_id @ '':'' @ device_id"
| "idempotency_key_for_action S (UpdateAlertValue _ alert_id triggered_value) =
     ''update-alert-value:'' @ alert_id @ '':'' @ stable_hash S triggered_value"
| "idempotency_key_for_action S (ResolveAlert _ alert_id) = ''resolve-alert:'' @ alert_id"
| "idempotency_key_for_action S (SendWebhook _ url headers payload) =
     ''webhook:'' @ url @ '':'' @ stable_json_hash S (headers_to_vec S headers) @ '':''
       @ stable_json_hash S (value_to_vec S payload)"
| "idempotency_key_for_action S (SendCommand _ device_id command params) =
     ''send-command:'' @ device_id @ '':'' @ command @ '':'' @ stable_json_hash S (value_to_vec S params)"
| "idempotency_key_for_action S (UpdateCooldown _ rule_id device_id _) =
     ''update-cooldown:'' @ rule_id @ '':'' @ device_id"
| "idempotency_key_for_action S (UpdateZoneEntry _ rule_id device_id _) =
     ''update-zone-entry:'' @ rule_id @ '':'' @ device_id"

definition outbox_event_for_action ::
  "serde_api \<Rightarrow> string \<Rightarrow> pending_action \<Rightarrow> (string, new_outbox_event) result" where
  "outbox_event_for_action S uuid action =
     (if is_runtime_state action then Err ''runtime state is not a deliverable action''
      else rbind (action_to_value S action) (\<lambda>value. Ok
        \<lparr>ne_id = uuid,
         ne_tenant_id = tenant_id_for_action action,
         ne_event_type = event_type_for_action action,
         ne_aggregate_type = aggregate_type_for_action action,
         ne_aggregate_id = aggregate_id_for_action action,
         ne_idempotency_key = Some (idempotency_key_for_action S action),
         ne_payload = json_obj [(''version'', JNum (PosInt 1)), (''action'', value)]\<rparr>))"

definition decode_event ::
  "serde_api \<Rightarrow> string \<Rightarrow> string \<Rightarrow> json \<Rightarrow> (string, pending_action) result" where
  "decode_event S event_tenant_id event_type payload =
     (if (case jget payload ''version'' of None \<Rightarrow> None | Some v \<Rightarrow> as_u64 v) \<noteq> Some 1
      then Err ''rule-action envelope requires version 1''
      else case jget payload ''action'' of
        None \<Rightarrow> Err ''rule-action envelope has no action''
      | Some value \<Rightarrow>
          (case action_from_value S value of
             Inl e \<Rightarrow> Err (''invalid persisted rule action: '' @ e)
           | Inr action \<Rightarrow>
               if is_runtime_state action then Err ''runtime state is not a deliverable action''
               else if tenant_id_for_action action \<noteq> event_tenant_id
                 \<or> event_type_for_action action \<noteq> event_type
               then Err ''persisted rule-action metadata does not match its payload''
               else Ok action))"

section \<open>How a decision splits its actions\<close>

fun cooldown_of :: "pending_action \<Rightarrow> cooldown_record list" where
  "cooldown_of (UpdateCooldown t r d f) =
     [\<lparr>cd_tenant_id = t, cd_rule_id = r, cd_device_id = d, cd_last_fired_at = f\<rparr>]"
| "cooldown_of _ = []"

fun zone_entry_of :: "pending_action \<Rightarrow> zone_entry_mutation list" where
  "zone_entry_of (UpdateZoneEntry t r d e) =
     [\<lparr>ze_tenant_id = t, ze_rule_id = r, ze_device_id = d, ze_entered_at = e\<rparr>]"
| "zone_entry_of _ = []"

lemma foldl_file_action:
  "deliveries (foldl file_action d xs) = deliveries d @ filter (\<lambda>x. \<not> is_runtime_state x) xs"
  "dec_cooldowns (foldl file_action d xs) = dec_cooldowns d @ concat (map cooldown_of xs)"
  "dec_zone_entries (foldl file_action d xs) = dec_zone_entries d @ concat (map zone_entry_of xs)"
proof (induction xs arbitrary: d)
  case (Cons x xs)
  {
    case 1
    show ?case by (cases x) (simp_all add: Cons)
  next
    case 2
    show ?case by (cases x) (simp_all add: Cons)
  next
    case 3
    show ?case by (cases x) (simp_all add: Cons)
  }
qed simp_all

lemma decide_splits:
  "deliveries (decide lm clk ev rt) = filter (\<lambda>x. \<not> is_runtime_state x) (decision_actions lm clk ev rt)"
  "dec_cooldowns (decide lm clk ev rt) = concat (map cooldown_of (decision_actions lm clk ev rt))"
  "dec_zone_entries (decide lm clk ev rt) = concat (map zone_entry_of (decision_actions lm clk ev rt))"
  by (simp_all add: decide_def foldl_file_action)

lemma cooldown_of_iff:
  "c \<in> set (cooldown_of x) \<longleftrightarrow> x = UpdateCooldown (cd_tenant_id c) (cd_rule_id c) (cd_device_id c) (cd_last_fired_at c)"
  by (cases x) auto

lemma zone_entry_of_iff:
  "z \<in> set (zone_entry_of x) \<longleftrightarrow> x = UpdateZoneEntry (ze_tenant_id z) (ze_rule_id z) (ze_device_id z) (ze_entered_at z)"
  by (cases x) auto

lemma decision_cache_simps [simp]:
  "rc_definitions (decision_cache ev rt) = rc_definitions (ev_snapshot ev)"
  "rc_rule_allowlist (decision_cache ev rt) = Some (live_rule_ids rt)"
  "rc_active_alerts (decision_cache ev rt) = rt_active_alerts rt"
  "rc_cooldowns (decision_cache ev rt) = rt_cooldowns rt"
  "rc_zone_entry_times (decision_cache ev rt) = rt_zone_entries rt"
  by (simp_all add: decision_cache_def restrict_to_rule_ids_def definitions_only_def)

lemma decision_actions_in_scope:
  "x \<in> set (decision_actions lm clk ev rt) \<Longrightarrow>
     action_in_scope (decision_cache ev rt) (ev_tenant ev) (ev_device_id ev) (ev_fleet_id ev) (ev_blueprint_id ev) x"
  by (auto simp: decision_actions_def Let_def status_in_scope telemetry_in_scope geofence_in_scope
      split: rule_evaluation_input.splits if_splits)

lemma decision_actions_disciplined:
  "disciplined clk (decision_cache ev rt) (ev_tenant ev) (ev_device_id ev) (ev_fleet_id ev)
     (ev_blueprint_id ev) (ev_observed_at ev) (\<lambda>_. True) (decision_actions lm clk ev rt)"
  using disciplined_mono [OF status_disciplined] disciplined_mono [OF telemetry_disciplined]
    disciplined_mono [OF disciplined_append [OF telemetry_disciplined geofence_disciplined]]
  by (auto simp: decision_actions_def Let_def split: rule_evaluation_input.split)

lemma action_in_scope_live:
  assumes "action_in_scope (decision_cache ev rt) t d f b x"
  obtains r where "cr_id r \<in> live_rule_ids rt" and "of_rule r d x" and "cr_tenant_id r = t"
  using assms by (auto simp: action_in_scope_def rule_applies_def)

section \<open>The snapshot index\<close>

text \<open>Two rules filed in the same place: same target type, tenant and id.\<close>

definition same_file :: "cached_rule \<Rightarrow> cached_rule \<Rightarrow> bool" where
  "same_file r r' \<longleftrightarrow> compile_target_type (cr_target_type r) = compile_target_type (cr_target_type r')
     \<and> rule_key r = rule_key r'"

text \<open>The rule is in the list and no later rule is filed in its place.\<close>

fun latest_in :: "cached_rule list \<Rightarrow> cached_rule \<Rightarrow> bool" where
  "latest_in [] r = False"
| "latest_in (x # xs) r = (latest_in xs r \<or> x = r \<and> (\<forall>y \<in> set xs. \<not> same_file y r))"

lemma latest_in_snoc:
  "latest_in (xs @ [y]) r \<longleftrightarrow> (if same_file y r then y = r else latest_in xs r)"
  by (induction xs) (auto simp: same_file_def)

lemma insert_rule_unfiled:
  "compile_target_type (cr_target_type rule) = None \<Longrightarrow> insert_rule c rule = c"
  by (simp add: insert_rule_def)

lemma rule_applies_foldl_insert:
  "rule_applies (foldl insert_rule default_cache rules) tenant device fleet blueprint r \<longleftrightarrow>
     latest_in rules r \<and> cr_tenant_id r = tenant
     \<and> (\<exists>target. compile_target_type (cr_target_type r) = Some target
          \<and> targets_device r target device fleet blueprint)"
proof (induction rules rule: rev_induct)
  case Nil
  show ?case by (simp add: rule_applies_def default_cache_def empty_definitions_def)
next
  case (snoc x xs)
  let ?c = "foldl insert_rule default_cache xs"
  have inv: "cache_inv ?c" by (intro cache_inv_foldl cache_inv_default)
  have al: "rule_allowed ?c i" for i
  proof -
    have "rule_allowed (foldl insert_rule c xs) = rule_allowed c" for c
      by (induction xs arbitrary: c) simp_all
    then show ?thesis by (simp add: rule_allowed_def default_cache_def)
  qed
  show ?case
  proof (cases "compile_target_type (cr_target_type x)")
    case None
    then show ?thesis using snoc
      by (auto simp: insert_rule_unfiled latest_in_snoc same_file_def)
  next
    case (Some target)
    show ?thesis
      using snoc rule_applies_after_insert [OF inv Some, of tenant device fleet blueprint r] Some al
      by (auto simp: latest_in_snoc same_file_def)
  qed
qed

lemma rule_applies_compile_snapshot:
  "rule_applies (compile_snapshot recs) tenant device fleet blueprint r \<longleftrightarrow>
     rule_applies (foldl insert_rule default_cache (rsr_rules recs)) tenant device fleet blueprint r"
  by (simp add: compile_snapshot_def rule_applies_def Let_def)

section \<open>A sample decision\<close>

definition sample_evaluation :: device_rule_evaluation where
  "sample_evaluation = \<lparr>ev_snapshot = sample_cache, ev_tenant = ''t'', ev_device_id = ''d'',
     ev_fleet_id = None, ev_blueprint_id = None, ev_blueprint_revision_id = None,
     ev_input = TelemetryInput (sample_data 85) False, ev_observed_at = 7\<rparr>"

definition sample_runtime :: device_rule_runtime where
  "sample_runtime = \<lparr>live_rule_ids = {''r''}, rt_active_alerts = Map.empty, rt_cooldowns = Map.empty,
     rt_zone_entries = Map.empty\<rparr>"

definition sample_alert :: pending_action where
  "sample_alert = CreateAlert ''t'' ''r'' ''d'' ''warning'' ''air./temp (85) exceeded 80'' (Some ''85'')"

definition sample_serde :: serde_api where
  "sample_serde = \<lparr>action_to_value = (\<lambda>a. Ok JNull), action_from_value = (\<lambda>v. Ok sample_alert),
     headers_to_vec = (\<lambda>h. Ok []), value_to_vec = (\<lambda>v. Ok []), sha256_hex = (\<lambda>s. s)\<rparr>"

text \<open>
  An instance of the serialization for the examples: a variant is an object whose one key is the
  variant's name and whose value has the fields, here with times as numbers.
\<close>

definition tagged :: "string \<Rightarrow> (string \<times> json) list \<Rightarrow> json" where
  "tagged variant fs = json_obj [(variant, json_obj fs)]"

fun tagged_action :: "pending_action \<Rightarrow> json" where
  "tagged_action (CreateAlert t r d severity message v) = tagged ''CreateAlert'' [(''tenant_id'', JStr t), (''rule_id'', JStr r),
     (''device_id'', JStr d), (''severity'', JStr severity), (''message'', JStr message),
     (''triggered_value'', case v of None \<Rightarrow> JNull | Some x \<Rightarrow> JStr x)]"
| "tagged_action (UpdateAlertValue t a v) = tagged ''UpdateAlertValue'' [(''tenant_id'', JStr t), (''alert_id'', JStr a), (''triggered_value'', JStr v)]"
| "tagged_action (ResolveAlert t a) = tagged ''ResolveAlert'' [(''tenant_id'', JStr t), (''alert_id'', JStr a)]"
| "tagged_action (SendWebhook t u hs p) = tagged ''SendWebhook'' [(''tenant_id'', JStr t), (''url'', JStr u),
     (''headers'', JObj (map (\<lambda>(k, v). (k, JStr v)) hs)), (''payload'', p)]"
| "tagged_action (SendCommand t d c p) = tagged ''SendCommand'' [(''tenant_id'', JStr t), (''device_id'', JStr d), (''command'', JStr c), (''params'', p)]"
| "tagged_action (UpdateCooldown t r d f) = tagged ''UpdateCooldown'' [(''tenant_id'', JStr t), (''rule_id'', JStr r), (''device_id'', JStr d),
     (''fired_at'', JNum (NegInt f))]"
| "tagged_action (UpdateZoneEntry t r d e) = tagged ''UpdateZoneEntry'' [(''tenant_id'', JStr t), (''rule_id'', JStr r), (''device_id'', JStr d),
     (''entered_at'', case e of None \<Rightarrow> JNull | Some x \<Rightarrow> JNum (NegInt x))]"

fun text_of :: "json option \<Rightarrow> string" where
  "text_of (Some (JStr x)) = x"
| "text_of _ = []"

fun time_of :: "json option \<Rightarrow> time option" where
  "time_of (Some (JNum (NegInt x))) = Some x"
| "time_of _ = None"

fun headers_of :: "json option \<Rightarrow> (string \<times> string) list" where
  "headers_of (Some (JObj hs)) = map (\<lambda>(k, v). (k, text_of (Some v))) hs"
| "headers_of _ = []"

definition read_tagged :: "json \<Rightarrow> (string, pending_action) result" where
  "read_tagged v = (case v of JObj [(variant, b)] \<Rightarrow>
       let f = (\<lambda>k. text_of (jget b k)) in
       if variant = ''CreateAlert'' then Ok (CreateAlert (f ''tenant_id'') (f ''rule_id'') (f ''device_id'') (f ''severity'') (f ''message'')
         (if jget b ''triggered_value'' = Some JNull then None else Some (f ''triggered_value'')))
       else if variant = ''UpdateAlertValue'' then Ok (UpdateAlertValue (f ''tenant_id'') (f ''alert_id'') (f ''triggered_value''))
       else if variant = ''ResolveAlert'' then Ok (ResolveAlert (f ''tenant_id'') (f ''alert_id''))
       else if variant = ''SendWebhook'' then Ok (SendWebhook (f ''tenant_id'') (f ''url'') (headers_of (jget b ''headers'')) (the (jget b ''payload'')))
       else if variant = ''SendCommand'' then Ok (SendCommand (f ''tenant_id'') (f ''device_id'') (f ''command'') (the (jget b ''params'')))
       else if variant = ''UpdateCooldown'' then Ok (UpdateCooldown (f ''tenant_id'') (f ''rule_id'') (f ''device_id'') (the (time_of (jget b ''fired_at''))))
       else if variant = ''UpdateZoneEntry'' then Ok (UpdateZoneEntry (f ''tenant_id'') (f ''rule_id'') (f ''device_id'') (time_of (jget b ''entered_at'')))
       else Err ''unknown variant''
     | _ \<Rightarrow> Err ''expected one variant'')"

definition tagged_serde :: serde_api where
  "tagged_serde = sample_serde\<lparr>action_to_value := (\<lambda>a. Ok (tagged_action a)), action_from_value := read_tagged\<rparr>"

lemma tagged_round_trip: "read_tagged (tagged_action a) = Ok a"
proof -
  have one: "json_obj [(k, v)] = JObj [(k, v)]" for k v by (simp add: json_obj_def bt_collect_def)
  have get: "jget (json_obj fs) = map_of (rev fs)" for fs by (simp add: json_obj_def jget_def bt_get_collect fun_eq_iff)
  have texts: "map ((\<lambda>(k, v). (k, text_of (Some v))) \<circ> (\<lambda>(k, v). (k, JStr v))) hs = hs" for hs :: "(string \<times> string) list"
    by (induction hs) auto
  show ?thesis by (cases a) (simp_all add: tagged_def read_tagged_def one get texts Let_def split: option.split)
qed

section \<open>Properties\<close>

text \<open>
  A decision keeps every action and mixes none: in order, its deliveries are the actions
  that reach out, its cooldowns and zone entries the runtime state; every cooldown and zone
  entry it writes is for the evaluated tenant and device and for a rule still live in the
  database.
\<close>

theorem decision_partitions_actions:
  "deliveries (decide lm clk ev rt) = filter (\<lambda>x. \<not> is_runtime_state x) (decision_actions lm clk ev rt)
   \<and> length (deliveries (decide lm clk ev rt)) + length (dec_cooldowns (decide lm clk ev rt))
       + length (dec_zone_entries (decide lm clk ev rt)) = length (decision_actions lm clk ev rt)
   \<and> (\<forall>c \<in> set (dec_cooldowns (decide lm clk ev rt)).
        cd_tenant_id c = ev_tenant ev \<and> cd_device_id c = ev_device_id ev
        \<and> cd_rule_id c \<in> live_rule_ids rt)
   \<and> (\<forall>z \<in> set (dec_zone_entries (decide lm clk ev rt)).
        ze_tenant_id z = ev_tenant ev \<and> ze_device_id z = ev_device_id ev
        \<and> ze_rule_id z \<in> live_rule_ids rt)"
proof -
  have "length (filter (\<lambda>x. \<not> is_runtime_state x) xs) + length (concat (map cooldown_of xs))
      + length (concat (map zone_entry_of xs)) = length xs" for xs
  proof (induction xs)
    case (Cons x xs)
    then show ?case by (cases x) simp_all
  qed simp
  moreover have "cd_tenant_id c = ev_tenant ev \<and> cd_device_id c = ev_device_id ev
      \<and> cd_rule_id c \<in> live_rule_ids rt"
    if "c \<in> set (cooldown_of x)" "x \<in> set (decision_actions lm clk ev rt)" for c x
    using that(1) unfolding cooldown_of_iff
    by (auto intro: action_in_scope_live [OF decision_actions_in_scope [OF that(2)]])
  moreover have "ze_tenant_id z = ev_tenant ev \<and> ze_device_id z = ev_device_id ev
      \<and> ze_rule_id z \<in> live_rule_ids rt"
    if "z \<in> set (zone_entry_of x)" "x \<in> set (decision_actions lm clk ev rt)" for z x
    using that(1) unfolding zone_entry_of_iff
    by (auto intro: action_in_scope_live [OF decision_actions_in_scope [OF that(2)]])
  ultimately show ?thesis by (simp add: decide_splits)
qed

theorem decision_partitions_actions_witness:
  "let d = decide zero_libm sample_clock sample_evaluation sample_runtime in
   deliveries d = [sample_alert]
   \<and> (\<forall>c \<in> set (dec_cooldowns d). cd_tenant_id c = ''t'' \<and> cd_device_id c = ''d'' \<and> cd_rule_id c = ''r'')"
proof -
  have 1: "deliveries (decide zero_libm sample_clock sample_evaluation sample_runtime) = [sample_alert]"
    by code_simp
  show ?thesis
    using decision_partitions_actions [of zero_libm sample_clock sample_evaluation sample_runtime] 1
    by (simp add: sample_evaluation_def sample_runtime_def Let_def)
qed

text \<open>
  C31. The outbox carries deliveries and nothing else. Whatever the serialization does, a delivery of a
  decision is written as an event of the evaluated tenant unless serializing it fails, and then with
  that error; decoding the event gives exactly what deserializing gives, provided that is a delivery
  with the event's own tenant and type, so that a serialization that reads the action back gives
  that very action and under no other tenant or type. Runtime state is never among the deliveries
  and is refused on the way in, and no payload at all decodes to runtime state, to an action of
  another tenant or type, or without version 1.
\<close>

theorem delivery_survives_outbox:
  assumes "a \<in> set (deliveries (decide lm clk ev rt))"
  shows "(case action_to_value S a of
      Inl e \<Rightarrow> outbox_event_for_action S uuid a = Err e
    | Inr value \<Rightarrow> \<exists>e. outbox_event_for_action S uuid a = Ok e
        \<and> ne_tenant_id e = ev_tenant ev
        \<and> (\<forall>tenant type a'. decode_event S tenant type (ne_payload e) = Ok a' \<longleftrightarrow>
             action_from_value S value = Ok a' \<and> \<not> is_runtime_state a'
             \<and> tenant_id_for_action a' = tenant \<and> event_type_for_action a' = type)
        \<and> (action_from_value S value = Ok a \<longrightarrow>
             (\<forall>tenant type a'. decode_event S tenant type (ne_payload e) = Ok a' \<longleftrightarrow>
                a' = a \<and> tenant = ne_tenant_id e \<and> type = ne_event_type e)))
   \<and> (\<forall>x. is_runtime_state x \<longrightarrow> x \<notin> set (deliveries (decide lm clk ev rt))
        \<and> outbox_event_for_action S uuid x = Err ''runtime state is not a deliverable action'')
   \<and> (\<forall>tenant type payload x. decode_event S tenant type payload = Ok x \<longrightarrow> \<not> is_runtime_state x
        \<and> tenant_id_for_action x = tenant \<and> event_type_for_action x = type
        \<and> (\<exists>v. jget payload ''version'' = Some v \<and> as_u64 v = Some 1))"
proof (intro conjI)
  from assms have a: "a \<in> set (decision_actions lm clk ev rt)" "\<not> is_runtime_state a"
    by (auto simp: decide_splits)
  from decision_actions_in_scope [OF a(1)] have t: "pa_tenant_id a = ev_tenant ev"
    by (auto simp: action_in_scope_def)
  have env: "jget (json_obj [(''version'', n), (''action'', v)]) ''version'' = Some n"
    "jget (json_obj [(''version'', n), (''action'', v)]) ''action'' = Some v" for n v
    by (simp_all add: json_obj_def jget_def bt_get_collect)
  show "case action_to_value S a of
      Inl e \<Rightarrow> outbox_event_for_action S uuid a = Err e
    | Inr value \<Rightarrow> \<exists>e. outbox_event_for_action S uuid a = Ok e
        \<and> ne_tenant_id e = ev_tenant ev
        \<and> (\<forall>tenant type a'. decode_event S tenant type (ne_payload e) = Ok a' \<longleftrightarrow>
             action_from_value S value = Ok a' \<and> \<not> is_runtime_state a'
             \<and> tenant_id_for_action a' = tenant \<and> event_type_for_action a' = type)
        \<and> (action_from_value S value = Ok a \<longrightarrow>
             (\<forall>tenant type a'. decode_event S tenant type (ne_payload e) = Ok a' \<longleftrightarrow>
                a' = a \<and> tenant = ne_tenant_id e \<and> type = ne_event_type e))"
    using a(2) t
    by (auto simp: outbox_event_for_action_def decode_event_def env tenant_id_for_action_def split: sum.splits if_splits)
  show "\<forall>x. is_runtime_state x \<longrightarrow> x \<notin> set (deliveries (decide lm clk ev rt))
        \<and> outbox_event_for_action S uuid x = Err ''runtime state is not a deliverable action''"
    by (auto simp: decide_splits outbox_event_for_action_def)
  show "\<forall>tenant type payload x. decode_event S tenant type payload = Ok x \<longrightarrow> \<not> is_runtime_state x
        \<and> tenant_id_for_action x = tenant \<and> event_type_for_action x = type
        \<and> (\<exists>v. jget payload ''version'' = Some v \<and> as_u64 v = Some 1)"
    by (auto simp: decode_event_def split: if_splits option.splits sum.splits)
qed

theorem delivery_survives_outbox_witness:
  "(\<exists>e. outbox_event_for_action tagged_serde ''u'' sample_alert = Ok e
     \<and> decode_event tagged_serde ''t'' ''rule.create_alert'' (ne_payload e) = Ok sample_alert)
   \<and> outbox_event_for_action tagged_serde ''u'' (UpdateCooldown ''t'' ''r'' ''d'' 7) = Err ''runtime state is not a deliverable action''"
proof -
  have 1: "sample_alert \<in> set (deliveries (decide zero_libm sample_clock sample_evaluation sample_runtime))"
    by code_simp
  have 2: "action_to_value tagged_serde sample_alert = Ok (tagged_action sample_alert)"
    "action_from_value tagged_serde (tagged_action sample_alert) = Ok sample_alert"
    by (simp_all add: tagged_serde_def tagged_round_trip)
  have 3: "\<not> is_runtime_state sample_alert" "tenant_id_for_action sample_alert = ''t''"
    "event_type_for_action sample_alert = ''rule.create_alert''"
    by (simp_all add: sample_alert_def tenant_id_for_action_def)
  note out = delivery_survives_outbox [OF 1, of tagged_serde "''u''"]
  from out 2 3 show ?thesis by auto
qed

text \<open>
  Compiling a snapshot loses and invents no rule: the index selects for a device exactly the
  rules of its tenant whose target covers it and that no later record with the same target type,
  tenant and id replaces, and the index is well formed.
\<close>

theorem snapshot_index_exact:
  "cache_inv (compile_snapshot recs)
   \<and> (r \<in> set (rules_for_tenant_device (compile_snapshot recs) tenant device fleet blueprint) \<longleftrightarrow>
        latest_in (rsr_rules recs) r \<and> cr_tenant_id r = tenant
        \<and> (\<exists>target. compile_target_type (cr_target_type r) = Some target
             \<and> targets_device r target device fleet blueprint))"
proof -
  have "cache_inv (foldl insert_rule default_cache (rsr_rules recs))"
    by (intro cache_inv_foldl cache_inv_default)
  then have "cache_inv (compile_snapshot recs)"
    by (simp add: compile_snapshot_def cache_inv_def Let_def)
  then show ?thesis
    by (simp only: rules_for_tenant_device_spec rule_applies_compile_snapshot rule_applies_foldl_insert simp_thms)
qed

end
