(* ===== verification/Access.thy ===== *)
theory Access
  imports Rust_Str
begin

text \<open>
  Identity and authorization of \<^verbatim>\<open>crates/backend-core/src/context.rs\<close> and the permission check of
  \<^verbatim>\<open>application/mod.rs\<close>: tenant identifiers, the catalogue of permissions with their stable keys,
  permission sets and the contexts application services are called with. A permission set is the
  set of its members; \<^verbatim>\<open>error.rs\<close> gives the failures the services report.
\<close>

section \<open>Failures\<close>

datatype persistence_error =
    NotFound
  | HistoryExpired
  | UniqueViolation string
  | ForeignKeyViolation string
  | CheckViolation string
  | Busy "nat option"
  | Unavailable string
  | CorruptData string
  | Internal string

datatype application_error =
    DeviceCommunication string
  | AppNotFound string
  | Conflict string
  | InvalidInput string
  | InvalidOperation string
  | Unauthorized
  | Forbidden string
  | Authentication string
  | Persistence persistence_error
  | AppInternal string

fun show_persistence_error :: "persistence_error \<Rightarrow> string" where
  "show_persistence_error NotFound = ''resource was not found''"
| "show_persistence_error HistoryExpired = ''requested metric history is outside the retained range''"
| "show_persistence_error (UniqueViolation c) = ''unique constraint violated: '' @ c"
| "show_persistence_error (ForeignKeyViolation c) = ''foreign-key constraint violated: '' @ c"
| "show_persistence_error (CheckViolation c) = ''check constraint violated: '' @ c"
| "show_persistence_error (Busy _) = ''database is busy''"
| "show_persistence_error (Unavailable e) = ''database is unavailable: '' @ e"
| "show_persistence_error (CorruptData e) = ''database returned corrupt data: '' @ e"
| "show_persistence_error (Internal e) = ''internal persistence failure: '' @ e"

fun show_application_error :: "application_error \<Rightarrow> string" where
  "show_application_error (DeviceCommunication e) = e"
| "show_application_error (AppNotFound e) = e"
| "show_application_error (Conflict e) = e"
| "show_application_error (InvalidInput e) = e"
| "show_application_error (InvalidOperation e) = e"
| "show_application_error Unauthorized = ''Unauthorized''"
| "show_application_error (Forbidden e) = e"
| "show_application_error (Authentication e) = e"
| "show_application_error (Persistence e) = show_persistence_error e"
| "show_application_error (AppInternal e) = e"

section \<open>Tenants and actors\<close>

datatype tenant_id_error = EmptyTenantId

definition tenant_id_new :: "string \<Rightarrow> (tenant_id_error, string) result" where
  "tenant_id_new text = (if trim_is_empty text then Err EmptyTenantId else Ok text)"

fun show_tenant_id_error :: "tenant_id_error \<Rightarrow> string" where
  "show_tenant_id_error EmptyTenantId = ''tenant id must not be empty''"

datatype actor = User int string string | ApiKey string | Device string | System string

section \<open>Permissions\<close>

datatype permission =
    DeployFirmware
  | ManageAlerts
  | ManageApiKeys
  | ManageDeviceBlueprints
  | ManageDevices
  | ManageFirmware
  | ManageFleets
  | ManageRoles
  | ManageRules
  | ManageShadows
  | ManageUsers
  | ManageZones
  | ReadAlerts
  | ReadCommands
  | ReadDeviceBlueprints
  | ReadDevices
  | ReadFirmware
  | ReadFleets
  | ReadLogs
  | ReadRoles
  | ReadRules
  | ReadServerMetrics
  | ReadShadows
  | ReadTelemetry
  | ReadUsers
  | ReadZones
  | SendCommands

fun permission_key :: "permission \<Rightarrow> string" where
  "permission_key DeployFirmware = ''firmware.deploy''"
| "permission_key ManageAlerts = ''alerts.manage''"
| "permission_key ManageApiKeys = ''api_keys.manage''"
| "permission_key ManageDeviceBlueprints = ''device_blueprints.manage''"
| "permission_key ManageDevices = ''devices.manage''"
| "permission_key ManageFirmware = ''firmware.manage''"
| "permission_key ManageFleets = ''fleets.manage''"
| "permission_key ManageRoles = ''roles.manage''"
| "permission_key ManageRules = ''rules.manage''"
| "permission_key ManageShadows = ''shadows.manage''"
| "permission_key ManageUsers = ''users.manage''"
| "permission_key ManageZones = ''zones.manage''"
| "permission_key ReadAlerts = ''alerts.read''"
| "permission_key ReadCommands = ''commands.read''"
| "permission_key ReadDeviceBlueprints = ''device_blueprints.read''"
| "permission_key ReadDevices = ''devices.read''"
| "permission_key ReadFirmware = ''firmware.read''"
| "permission_key ReadFleets = ''fleets.read''"
| "permission_key ReadLogs = ''logs.read''"
| "permission_key ReadRoles = ''roles.read''"
| "permission_key ReadRules = ''rules.read''"
| "permission_key ReadServerMetrics = ''server_metrics.read''"
| "permission_key ReadShadows = ''shadows.read''"
| "permission_key ReadTelemetry = ''telemetry.read''"
| "permission_key ReadUsers = ''users.read''"
| "permission_key ReadZones = ''zones.read''"
| "permission_key SendCommands = ''commands.send''"

definition ALL_PERMISSIONS :: "permission list" where
  "ALL_PERMISSIONS =
    [DeployFirmware, ManageAlerts, ManageDeviceBlueprints, ManageDevices, ManageApiKeys,
     ManageFirmware, ManageFleets, ManageRules, ManageRoles, ManageShadows,
     ManageUsers, ManageZones, ReadCommands, ReadAlerts, ReadDeviceBlueprints,
     ReadDevices, ReadFleets, ReadFirmware, ReadLogs, ReadRules,
     ReadRoles, ReadServerMetrics, ReadShadows, ReadTelemetry, ReadUsers,
     ReadZones, SendCommands]"

definition from_key :: "string \<Rightarrow> permission option" where
  "from_key key = find (\<lambda>p. permission_key p = key) ALL_PERMISSIONS"

definition from_keys :: "string list \<Rightarrow> permission set" where
  "from_keys keys = set (List.map_filter from_key keys)"

fun implied_permissions :: "permission \<Rightarrow> permission list" where
  "implied_permissions ReadAlerts = [ManageAlerts]"
| "implied_permissions ReadCommands = [SendCommands]"
| "implied_permissions ReadDeviceBlueprints = [ManageDeviceBlueprints]"
| "implied_permissions ReadDevices = [ManageDevices]"
| "implied_permissions ReadFirmware = [ManageFirmware, DeployFirmware]"
| "implied_permissions ReadFleets = [ManageFleets]"
| "implied_permissions ReadRoles = [ManageRoles]"
| "implied_permissions ReadRules = [ManageRules]"
| "implied_permissions ReadShadows = [ManageShadows]"
| "implied_permissions ReadUsers = [ManageUsers]"
| "implied_permissions ReadZones = [ManageZones]"
| "implied_permissions _ = []"

definition satisfies :: "permission \<Rightarrow> permission \<Rightarrow> bool" where
  "satisfies p required \<longleftrightarrow> p = required \<or> p \<in> set (implied_permissions required)"

definition permission_set_all :: "permission set" where
  "permission_set_all = set ALL_PERMISSIONS"

definition permission_set_contains :: "permission set \<Rightarrow> permission \<Rightarrow> bool" where
  "permission_set_contains ps required \<longleftrightarrow> (\<exists>p \<in> ps. satisfies p required)"

section \<open>Contexts\<close>

record tenant_context =
  tc_tenant_id :: string
  tc_actor :: actor
  tc_permissions :: "permission set"

definition require_permission :: "tenant_context \<Rightarrow> permission \<Rightarrow> (application_error, unit) result" where
  "require_permission ctx p =
     (if permission_set_contains (tc_permissions ctx) p then Ok ()
      else Err (Forbidden (''Missing permission '' @ CHR 39 # permission_key p @ [CHR 39])))"

section \<open>Laws\<close>

lemma all_permissions: "p \<in> set ALL_PERMISSIONS"
  by (cases p) (simp_all add: ALL_PERMISSIONS_def)

lemma distinct_keys: "distinct (map permission_key ALL_PERMISSIONS)"
  by code_simp

lemma permission_key_inject: "permission_key p = permission_key q \<Longrightarrow> p = q"
  using distinct_keys all_permissions by (auto simp: distinct_map inj_on_def)

lemma from_key_iff: "from_key k = Some p \<longleftrightarrow> permission_key p = k"
proof (cases "from_key k")
  case None
  then have "permission_key p \<noteq> k" using all_permissions [of p] by (auto simp: from_key_def find_None_iff)
  with None show ?thesis by simp
next
  case (Some q)
  then have "permission_key q = k" unfolding from_key_def by (blast dest: find_Some_in_set)
  with Some show ?thesis by (auto intro: permission_key_inject)
qed

lemma from_keys_iff: "p \<in> from_keys keys \<longleftrightarrow> permission_key p \<in> set keys"
proof -
  have "p \<in> from_keys keys \<longleftrightarrow> (\<exists>k \<in> set keys. from_key k = Some p)"
    by (force simp: from_keys_def List.map_filter_def)
  then show ?thesis by (simp add: from_key_iff)
qed

text \<open>
  Authorization is exactly what the keys of a credential say: a request is let through when
  one of them names the required permission or, for a read permission, a managing permission of
  the same resource; unknown keys grant nothing, a managing permission is never granted by a
  reading one, and the full set grants everything.
\<close>

theorem permissions_granted_exactly:
  "(require_permission \<lparr>tc_tenant_id = t, tc_actor = a, tc_permissions = from_keys keys\<rparr> required = Ok ()
      \<longleftrightarrow> permission_key required \<in> set keys
        \<or> (\<exists>p \<in> set (implied_permissions required). permission_key p \<in> set keys))
   \<and> require_permission \<lparr>tc_tenant_id = t, tc_actor = a, tc_permissions = permission_set_all\<rparr> required = Ok ()
   \<and> list_all (\<lambda>p. implied_permissions p = []) (implied_permissions required)"
proof (intro conjI)
  show "list_all (\<lambda>p. implied_permissions p = []) (implied_permissions required)"
    by (cases required) simp_all
qed (auto simp: require_permission_def permission_set_contains_def satisfies_def from_keys_iff
      permission_set_all_def all_permissions)

end
