(* ===== verification/Rule_Runtime.thy ===== *)
theory Rule_Runtime
  imports Rule_Decision Access "HOL-Library.AList" "HOL-Library.Product_Lexorder"
begin

text \<open>
  \<^verbatim>\<open>crates/backend-turso/src/rule_runtime.rs\<close> (and \<^verbatim>\<open>upsert_cooldown\<close> of \<^verbatim>\<open>alerts.rs\<close>, the decoders of
  \<^verbatim>\<open>row.rs\<close>): inside the ingress transaction the runtime rows of a device are loaded, the
  prepared evaluation is decided against them, and its cooldowns and zone entries are written
  back. The tables the statements touch are the fields of \<open>runtime_db\<close>; a query is the filter
  its WHERE clause says. Failures of the driver itself abort the transaction and are not
  modelled. How chrono converts a time to microseconds and back is the parameter \<open>micros_api\<close>.
\<close>

section \<open>Tables\<close>

record micros_api =
  timestamp_micros :: "time \<Rightarrow> int"
  from_timestamp_micros :: "int \<Rightarrow> time option"

record rule_row =
  rr_tenant_id :: string
  rr_id :: string
  rr_enabled :: bool

record alert_row =
  ar_tenant_id :: string
  ar_device_id :: string
  ar_rule_id :: "string option"
  ar_id :: string
  ar_severity :: string
  ar_status :: string
  ar_message :: string
  ar_triggered_value :: "string option"
  ar_resolved_at :: "int option"
  ar_acknowledged_at :: "int option"
  ar_created_at :: int

record runtime_db =
  db_device_targets :: "((string \<times> string) \<times> (int option \<times> string option)) list"
  db_rules :: "rule_row list"
  db_alerts :: "alert_row list"
  db_cooldowns :: "(rule_device_key \<times> int) list"
  db_zone_entries :: "(rule_device_key \<times> int) list"

section \<open>Decoding rows\<close>

definition row_datetime :: "micros_api \<Rightarrow> int \<Rightarrow> (persistence_error, time) result" where
  "row_datetime ch micros = (case from_timestamp_micros ch micros of
      None \<Rightarrow> Err (CorruptData (''invalid UTC timestamp in database: '' @ show_int micros))
    | Some t \<Rightarrow> Ok t)"

definition row_i32 :: "int \<Rightarrow> string \<Rightarrow> (persistence_error, int) result" where
  "row_i32 value column =
     (if - (2 ^ 31) \<le> value \<and> value < 2 ^ 31 then Ok value
      else Err (CorruptData (column @ '' is outside the supported i32 range'')))"

definition row_i32_option :: "int option \<Rightarrow> string \<Rightarrow> (persistence_error, int option) result" where
  "row_i32_option value column = (case value of
      None \<Rightarrow> Ok None
    | Some v \<Rightarrow> rbind (row_i32 v column) (\<lambda>i. Ok (Some i)))"

section \<open>Queries\<close>

definition select_live_rules :: "runtime_db \<Rightarrow> string \<Rightarrow> string list \<Rightarrow> string set" where
  "select_live_rules db tenant candidates =
     set (map rr_id (filter (\<lambda>r. rr_tenant_id r = tenant \<and> rr_enabled r \<and> rr_id r \<in> set candidates)
       (db_rules db)))"

text \<open>Open alerts, oldest first; a later row of the same rule replaces an earlier one.\<close>

fun insert_alerts ::
  "string \<Rightarrow> string \<Rightarrow> alert_row list \<Rightarrow> (rule_device_key \<rightharpoonup> string) \<Rightarrow> (rule_device_key \<rightharpoonup> string)" where
  "insert_alerts tenant device [] m = m"
| "insert_alerts tenant device (r # rs) m =
     insert_alerts tenant device rs (case ar_rule_id r of
        None \<Rightarrow> m
      | Some rule \<Rightarrow> m((tenant, rule, device) \<mapsto> ar_id r))"

definition select_active_alerts :: "runtime_db \<Rightarrow> string \<Rightarrow> string \<Rightarrow> (rule_device_key \<rightharpoonup> string)" where
  "select_active_alerts db tenant device =
     insert_alerts tenant device
       (sort_key (\<lambda>r. (ar_created_at r, ar_id r))
         (filter (\<lambda>r. ar_tenant_id r = tenant \<and> ar_device_id r = device
            \<and> ar_status r \<in> {''active'', ''acknowledged''}) (db_alerts db)))
       Map.empty"

fun load_times ::
  "micros_api \<Rightarrow> string \<Rightarrow> string \<Rightarrow> (rule_device_key \<times> int) list \<Rightarrow> (rule_device_key \<rightharpoonup> time)
     \<Rightarrow> (persistence_error, rule_device_key \<rightharpoonup> time) result" where
  "load_times ch tenant device [] m = Ok m"
| "load_times ch tenant device (((t, rule, d), micros) # rows) m =
     (if t = tenant \<and> d = device then
        rbind (row_datetime ch micros) (\<lambda>time.
          load_times ch tenant device rows (m((tenant, rule, device) \<mapsto> time)))
      else load_times ch tenant device rows m)"

section \<open>Writes\<close>

definition upsert_cooldown :: "rule_device_key \<Rightarrow> int \<Rightarrow> (rule_device_key \<times> int) list \<Rightarrow> (rule_device_key \<times> int) list" where
  "upsert_cooldown key fired_at rows =
     AList.update key (case map_of rows key of None \<Rightarrow> fired_at | Some old \<Rightarrow> max old fired_at) rows"

definition write_cooldown :: "micros_api \<Rightarrow> (rule_device_key \<times> int) list \<Rightarrow> cooldown_record \<Rightarrow> (rule_device_key \<times> int) list" where
  "write_cooldown ch rows c =
     upsert_cooldown (cd_tenant_id c, cd_rule_id c, cd_device_id c)
       (timestamp_micros ch (cd_last_fired_at c)) rows"

definition write_zone_entry :: "micros_api \<Rightarrow> (rule_device_key \<times> int) list \<Rightarrow> zone_entry_mutation \<Rightarrow> (rule_device_key \<times> int) list" where
  "write_zone_entry ch rows z =
     (let key = (ze_tenant_id z, ze_rule_id z, ze_device_id z) in
      case ze_entered_at z of
        Some time \<Rightarrow> AList.update key (timestamp_micros ch time) rows
      | None \<Rightarrow> AList.delete key rows)"

section \<open>The transaction participant\<close>

definition evaluate_rules_in_transaction ::
  "libm \<Rightarrow> clock_api \<Rightarrow> micros_api \<Rightarrow> runtime_db \<Rightarrow> string \<Rightarrow> string \<Rightarrow> device_rule_evaluation option
     \<Rightarrow> (persistence_error, pending_action list \<times> runtime_db) result" where
  "evaluate_rules_in_transaction lm clk ch db tenant device plan =
     (case plan of
        None \<Rightarrow> Ok ([], db)
      | Some plan \<Rightarrow>
          if ev_tenant plan \<noteq> tenant \<or> ev_device_id plan \<noteq> device
          then Err (CorruptData ''rule evaluation scope does not match ingress'')
          else case map_of (db_device_targets db) (tenant, device) of
            None \<Rightarrow> Err NotFound
          | Some (fleet, blueprint) \<Rightarrow>
              rbind (row_i32_option fleet ''fleet_id'') (\<lambda>fleet_id.
              let plan = plan\<lparr>ev_fleet_id := fleet_id, ev_blueprint_id := blueprint\<rparr>;
                  live = select_live_rules db tenant (candidate_rule_ids plan);
                  alerts = select_active_alerts db tenant device
              in rbind (load_times ch tenant device (db_cooldowns db) Map.empty) (\<lambda>cooldowns.
                 rbind (load_times ch tenant device (db_zone_entries db) Map.empty) (\<lambda>entries.
                 let decision = decide lm clk plan
                       \<lparr>live_rule_ids = live, rt_active_alerts = alerts, rt_cooldowns = cooldowns,
                        rt_zone_entries = entries\<rparr>
                 in Ok (deliveries decision,
                      db\<lparr>db_cooldowns := foldl (write_cooldown ch) (db_cooldowns db) (dec_cooldowns decision),
                         db_zone_entries := foldl (write_zone_entry ch) (db_zone_entries db)
                           (dec_zone_entries decision)\<rparr>)))))"

section \<open>The cooldown table\<close>

definition db_wf :: "runtime_db \<Rightarrow> bool" where
  "db_wf db \<longleftrightarrow> distinct (map fst (db_cooldowns db)) \<and> distinct (map fst (db_zone_entries db))"

text \<open>The table says that the rule fired on the device no earlier than then.\<close>

definition fired_since :: "(rule_device_key \<times> int) list \<Rightarrow> rule_device_key \<Rightarrow> int \<Rightarrow> bool" where
  "fired_since rows key w \<longleftrightarrow> (\<exists>x. map_of rows key = Some x \<and> w \<le> x)"

lemma map_of_upsert_cooldown:
  "map_of (upsert_cooldown key w rows) =
     (map_of rows)(key \<mapsto> case map_of rows key of None \<Rightarrow> w | Some old \<Rightarrow> max old w)"
  by (simp add: upsert_cooldown_def update_conv')

lemma distinct_upsert_cooldown:
  "distinct (map fst rows) \<Longrightarrow> distinct (map fst (upsert_cooldown key w rows))"
  by (simp add: upsert_cooldown_def distinct_update)

lemma fired_since_upsert: "fired_since rows key w \<Longrightarrow> fired_since (upsert_cooldown key' w' rows) key w"
  by (auto simp: fired_since_def map_of_upsert_cooldown split: option.split)

lemma fired_since_upsert_same: "fired_since (upsert_cooldown key w rows) key w"
  by (auto simp: fired_since_def map_of_upsert_cooldown split: option.split)

lemma fired_since_writes: "fired_since rows key w \<Longrightarrow> fired_since (foldl (write_cooldown ch) rows cs) key w"
  by (induction cs arbitrary: rows) (simp_all add: write_cooldown_def fired_since_upsert)

lemma fired_since_written:
  "c \<in> set cs \<Longrightarrow> fired_since (foldl (write_cooldown ch) rows cs)
     (cd_tenant_id c, cd_rule_id c, cd_device_id c) (timestamp_micros ch (cd_last_fired_at c))"
proof (induction cs arbitrary: rows)
  case (Cons x cs)
  show ?case
  proof (cases "c = x")
    case True
    have "fired_since (write_cooldown ch rows x) (cd_tenant_id x, cd_rule_id x, cd_device_id x)
        (timestamp_micros ch (cd_last_fired_at x))"
      by (simp add: write_cooldown_def fired_since_upsert_same)
    with True show ?thesis by (simp add: fired_since_writes)
  next
    case False
    with Cons show ?thesis by simp
  qed
qed simp

lemma distinct_write_cooldowns:
  "distinct (map fst rows) \<Longrightarrow> distinct (map fst (foldl (write_cooldown ch) rows cs))"
  by (induction cs arbitrary: rows) (simp_all add: write_cooldown_def distinct_upsert_cooldown)

lemma distinct_write_zone_entries:
  "distinct (map fst rows) \<Longrightarrow> distinct (map fst (foldl (write_zone_entry ch) rows zs))"
  by (induction zs arbitrary: rows)
    (simp_all add: write_zone_entry_def Let_def distinct_update distinct_delete split: option.split)

section \<open>Loading\<close>

lemma load_times_spec:
  "load_times ch tenant device rows m0 = Ok m \<Longrightarrow> distinct (map fst rows) \<Longrightarrow>
     (case map_of rows (tenant, rule, device) of
        None \<Rightarrow> m (tenant, rule, device) = m0 (tenant, rule, device)
      | Some x \<Rightarrow> m (tenant, rule, device) = from_timestamp_micros ch x \<and> from_timestamp_micros ch x \<noteq> None)"
proof (induction ch tenant device rows m0 rule: load_times.induct)
  case (2 ch tenant device t r d micros rows m0)
  show ?case
  proof (cases "t = tenant \<and> d = device")
    case True
    with 2 obtain w where w: "from_timestamp_micros ch micros = Some w"
        "load_times ch tenant device rows (m0((tenant, r, device) \<mapsto> w)) = Ok m"
      by (auto simp: row_datetime_def rbind_Inr_iff split: option.splits)
    have fresh: "map_of rows (tenant, r, device) = None" and d: "distinct (map fst rows)"
      using 2(4) True by (auto simp: map_of_eq_None_iff)
    from 2(1) [OF True w(2) d] fresh w(1) True show ?thesis
      by (cases "rule = r") (auto split: option.splits)
  next
    case False
    with 2 show ?thesis by auto
  qed
qed simp

lemma row_i32_option_Ok: "row_i32_option v column = Ok w \<Longrightarrow> w = v"
  by (auto simp: row_i32_option_def row_i32_def split: option.splits if_splits)

lemma transaction_Ok:
  assumes "evaluate_rules_in_transaction lm clk ch db tenant device (Some plan) = Ok (acts, db')"
  obtains fleet b plan' rt where
    "plan' = plan\<lparr>ev_fleet_id := fleet, ev_blueprint_id := b\<rparr>"
    and "map_of (db_device_targets db) (tenant, device) = Some (fleet, b)"
    and "ev_tenant plan = tenant" and "ev_device_id plan = device"
    and "live_rule_ids rt = select_live_rules db tenant (candidate_rule_ids plan')"
    and "rt_active_alerts rt = select_active_alerts db tenant device"
    and "load_times ch tenant device (db_cooldowns db) Map.empty = Ok (rt_cooldowns rt)"
    and "load_times ch tenant device (db_zone_entries db) Map.empty = Ok (rt_zone_entries rt)"
    and "acts = deliveries (decide lm clk plan' rt)"
    and "db' = db\<lparr>db_cooldowns := foldl (write_cooldown ch) (db_cooldowns db) (dec_cooldowns (decide lm clk plan' rt)),
       db_zone_entries := foldl (write_zone_entry ch) (db_zone_entries db) (dec_zone_entries (decide lm clk plan' rt))\<rparr>"
proof -
  have scope: "ev_tenant plan = tenant" "ev_device_id plan = device"
    using assms by (auto simp: evaluate_rules_in_transaction_def split: if_splits)
  with assms obtain fleet b where tgt: "map_of (db_device_targets db) (tenant, device) = Some (fleet, b)"
    by (auto simp: evaluate_rules_in_transaction_def split: option.splits)
  with assms scope obtain cds ents where
    load: "load_times ch tenant device (db_cooldowns db) Map.empty = Ok cds"
      "load_times ch tenant device (db_zone_entries db) Map.empty = Ok ents"
    and out: "(acts, db') = (let p = plan\<lparr>ev_fleet_id := fleet, ev_blueprint_id := b\<rparr>;
        d = decide lm clk p \<lparr>live_rule_ids = select_live_rules db tenant (candidate_rule_ids p),
              rt_active_alerts = select_active_alerts db tenant device, rt_cooldowns = cds, rt_zone_entries = ents\<rparr>
      in (deliveries d, db\<lparr>db_cooldowns := foldl (write_cooldown ch) (db_cooldowns db) (dec_cooldowns d),
            db_zone_entries := foldl (write_zone_entry ch) (db_zone_entries db) (dec_zone_entries d)\<rparr>))"
    by (auto simp: evaluate_rules_in_transaction_def rbind_Inr_iff Let_def dest!: row_i32_option_Ok)
  let ?p = "plan\<lparr>ev_fleet_id := fleet, ev_blueprint_id := b\<rparr>"
  show thesis
    by (rule that [of ?p b fleet "\<lparr>live_rule_ids = select_live_rules db tenant (candidate_rule_ids ?p),
          rt_active_alerts = select_active_alerts db tenant device, rt_cooldowns = cds, rt_zone_entries = ents\<rparr>"])
      (use scope tgt load out in \<open>simp_all add: Let_def\<close>)
qed

lemma transaction_wf:
  "evaluate_rules_in_transaction lm clk ch db tenant device (Some plan) = Ok (acts, db') \<Longrightarrow>
     db_wf db \<Longrightarrow> db_wf db'"
  by (erule transaction_Ok) (simp add: db_wf_def distinct_write_cooldowns distinct_write_zone_entries)

text \<open>Every rule of the snapshot with this tenant and id has at least this cooldown.\<close>

definition cooldown_at_least :: "device_rule_evaluation \<Rightarrow> string \<Rightarrow> string \<Rightarrow> int \<Rightarrow> bool" where
  "cooldown_at_least plan t r cooldown \<longleftrightarrow>
     (\<forall>target. \<forall>rule \<in> set (bucket (ev_snapshot plan) target).
        cr_tenant_id rule = t \<and> cr_id rule = r \<longrightarrow> cooldown \<le> cr_cooldown_seconds rule)"

text \<open>What is relied on of chrono: a later instant leaves no more seconds elapsed.\<close>

definition elapsed_antitone :: "clock_api \<Rightarrow> micros_api \<Rightarrow> bool" where
  "elapsed_antitone clk ch \<longleftrightarrow>
     (\<forall>x y a b now. from_timestamp_micros ch x = Some a \<longrightarrow> from_timestamp_micros ch y = Some b \<longrightarrow> x \<le> y \<longrightarrow>
        seconds_since clk now b \<le> seconds_since clk now a)"

text \<open>An alert created by the transaction: the rule was outside its cooldown, which is now stamped.\<close>

lemma transaction_creates:
  assumes "evaluate_rules_in_transaction lm clk ch db tenant device (Some plan) = Ok (acts, db')"
    and "CreateAlert t r d sev msg v \<in> set acts" and "db_wf db"
  shows "t = tenant" and "d = device"
    and "fired_since (db_cooldowns db') (t, r, d) (timestamp_micros ch (ev_observed_at plan))"
    and "0 < cooldown \<Longrightarrow> cooldown_at_least plan t r cooldown \<Longrightarrow>
      map_of (db_cooldowns db) (t, r, d) = Some x \<Longrightarrow>
      \<exists>w. from_timestamp_micros ch x = Some w \<and> cooldown \<le> seconds_since clk (ev_observed_at plan) w"
proof -
  from assms(1) obtain fleet b p rt where
    p: "p = plan\<lparr>ev_fleet_id := fleet, ev_blueprint_id := b\<rparr>" "ev_tenant plan = tenant"
      "ev_device_id plan = device"
    and load: "load_times ch tenant device (db_cooldowns db) Map.empty = Ok (rt_cooldowns rt)"
    and out: "acts = deliveries (decide lm clk p rt)"
      "db_cooldowns db' = foldl (write_cooldown ch) (db_cooldowns db) (dec_cooldowns (decide lm clk p rt))"
    by (elim transaction_Ok) simp
  let ?x = "CreateAlert t r d sev msg v"
  have x: "?x \<in> set (decision_actions lm clk p rt)"
    using assms(2) out(1) by (auto simp: decide_splits)
  from decision_actions_disciplined [of clk p rt lm] x obtain rule where
    rule: "of_rule rule device ?x" "rule_applies (decision_cache p rt) tenant device (map_option show_int fleet) b rule"
      "\<not> is_in_cooldown_for_tenant_at clk (decision_cache p rt) tenant (cr_id rule) device (cr_cooldown_seconds rule) (ev_observed_at plan)"
      "UpdateCooldown tenant (cr_id rule) device (ev_observed_at plan) \<in> set (decision_actions lm clk p rt)"
    using p by (fastforce simp: disciplined_def)
  then have ids: "t = cr_tenant_id rule" "r = cr_id rule" "d = device" by simp_all
  have t: "cr_tenant_id rule = tenant" using rule(2) by (simp add: rule_applies_def)
  show "t = tenant" "d = device" using ids t by simp_all
  let ?c = "\<lparr>cd_tenant_id = tenant, cd_rule_id = cr_id rule, cd_device_id = device, cd_last_fired_at = ev_observed_at plan\<rparr>"
  have "?c \<in> set (dec_cooldowns (decide lm clk p rt))"
    using rule(4) unfolding decide_splits set_concat set_map by (intro UN_I) (auto simp: cooldown_of_iff)
  from fired_since_written [OF this, of ch "db_cooldowns db"]
  show "fired_since (db_cooldowns db') (t, r, d) (timestamp_micros ch (ev_observed_at plan))"
    by (simp add: out(2) ids t)
  assume c: "0 < cooldown" "cooldown_at_least plan t r cooldown" and x: "map_of (db_cooldowns db) (t, r, d) = Some x"
  have "cooldown \<le> cr_cooldown_seconds rule"
    using c(2) rule(2) ids t p(1)
    by (auto simp: cooldown_at_least_def rule_applies_bucket bucket_def Let_def)
  moreover obtain w where "from_timestamp_micros ch x = Some w" "rt_cooldowns rt (t, r, d) = Some w"
    using load_times_spec [OF load, of r] assms(3) x ids t by (auto simp: db_wf_def)
  ultimately show "\<exists>w. from_timestamp_micros ch x = Some w \<and> cooldown \<le> seconds_since clk (ev_observed_at plan) w"
    using rule(3) c(1) ids t by (auto simp: is_in_cooldown_for_tenant_at_def split: if_splits)
qed

section \<open>Histories\<close>

text \<open>
  What happens to the runtime tables between two evaluations: other evaluations, alerts resolved
  by hand or by delivery, which restart the cooldown, and any change of the alerts, the rules and
  the devices. Reactivating an alert, pruning
  cooldowns more than a day old and deleting the rule or the device remove cooldowns; these are left
  out here.
\<close>

inductive db_step :: "libm \<Rightarrow> clock_api \<Rightarrow> micros_api \<Rightarrow> runtime_db \<Rightarrow> runtime_db \<Rightarrow> bool"
  for lm clk ch where
  ingest: "evaluate_rules_in_transaction lm clk ch db tenant device (Some plan) = Ok (acts, db')
     \<Longrightarrow> db_step lm clk ch db db'"
| resolve: "db_step lm clk ch db (db\<lparr>db_cooldowns := upsert_cooldown key w (db_cooldowns db)\<rparr>)"
| other: "db_step lm clk ch db (db\<lparr>db_alerts := alerts, db_rules := rules, db_device_targets := targets\<rparr>)"

lemma db_step_wf: "db_step lm clk ch db db' \<Longrightarrow> db_wf db \<Longrightarrow> db_wf db'"
  by (induction rule: db_step.induct) (auto simp: db_wf_def distinct_upsert_cooldown dest: transaction_wf)

lemma db_step_fired_since:
  "db_step lm clk ch db db' \<Longrightarrow> fired_since (db_cooldowns db) key w \<Longrightarrow> fired_since (db_cooldowns db') key w"
  by (induction rule: db_step.induct) (auto simp: fired_since_upsert fired_since_writes elim!: transaction_Ok)

lemma db_steps_fired_since:
  assumes "(db_step lm clk ch)\<^sup>*\<^sup>* db db'" and "db_wf db"
  shows "db_wf db'" and "fired_since (db_cooldowns db) key w \<Longrightarrow> fired_since (db_cooldowns db') key w"
  using assms by (induction rule: rtranclp_induct) (auto dest: db_step_wf db_step_fired_since)

section \<open>The zone entries\<close>

lemma rules_for_decision_cache:
  "rc_rule_allowlist (ev_snapshot ev) = None \<Longrightarrow>
     rules_for_tenant_device (decision_cache ev rt) t d f b =
       filter (\<lambda>r. cr_id r \<in> live_rule_ids rt) (rules_for_tenant_device (ev_snapshot ev) t d f b)"
  by (simp add: rules_for_tenant_device_def Let_def)

lemma rule_zone_cong: "rc_definitions c = rc_definitions c' \<Longrightarrow> rule_zone c r = rule_zone c' r"
  by (auto simp: rule_zone_def split: list.split option.split)

definition zone_key :: "zone_entry_mutation \<Rightarrow> rule_device_key" where
  "zone_key z = (ze_tenant_id z, ze_rule_id z, ze_device_id z)"

lemma map_of_write_zone_entry:
  "map_of (write_zone_entry ch rows z) =
     (map_of rows)(zone_key z := map_option (timestamp_micros ch) (ze_entered_at z))"
  by (auto simp: write_zone_entry_def zone_key_def Let_def update_conv' delete_conv' split: option.split)

lemma map_of_write_zone_entries_other:
  "(\<And>z. z \<in> set zs \<Longrightarrow> zone_key z \<noteq> k) \<Longrightarrow> map_of (foldl (write_zone_entry ch) rows zs) k = map_of rows k"
  by (induction zs arbitrary: rows) (auto simp: map_of_write_zone_entry)

context alert_rule
begin

lemma body_zone_entries:
  "concat (map zone_entry_of (body c now r)) = concat (map zone_entry_of (zone c now r))"
proof -
  have "zone_entry_of x = []" if "x \<in> set (fire c now r)" for x
    using fire [OF that] by (cases x) auto
  then have "concat (map zone_entry_of (alert_step clk device c now r j s (fire c now r))) = []" for j s
    by (cases j) (auto split: option.split)
  then show ?thesis by (simp add: body)
qed

lemma batch_zone_entries:
  "concat (map zone_entry_of (concat (map (body c now) rs))) =
     concat (map (\<lambda>r. concat (map zone_entry_of (zone c now r))) rs)"
  by (induction rs) (simp_all add: body_zone_entries)

end

lemma zone_entries_of_zone:
  "z \<in> set (concat (map zone_entry_of (geofence_zone lm device lat lon c now r))) \<Longrightarrow>
     zone_key z = (cr_tenant_id r, cr_id r, device)"
  by (auto simp: geofence_zone_def zone_entry_update_def zone_key_def Let_def split: if_splits)

text \<open>
  Among rules of one tenant with different ids, only the rule itself writes its zone entry.
\<close>

lemma write_zone_entries_batch:
  fixes lm :: libm and device :: string and lat lon :: f64 and c :: rule_cache and now :: time
  assumes "rule \<in> set rs" and "distinct (map cr_id rs)" and "\<And>r. r \<in> set rs \<Longrightarrow> cr_tenant_id r = tenant"
  defines "f \<equiv> \<lambda>r. concat (map zone_entry_of (geofence_zone lm device lat lon c now r))"
  shows "map_of (foldl (write_zone_entry ch) rows (concat (map f rs))) (tenant, cr_id rule, device) =
    map_of (foldl (write_zone_entry ch) rows (f rule)) (tenant, cr_id rule, device)"
proof -
  from split_list [OF assms(1)] obtain pre post where rs: "rs = pre @ rule # post" by blast
  have others: "zone_key z \<noteq> (tenant, cr_id rule, device)"
    if "z \<in> set (concat (map f xs))" "xs = pre \<or> xs = post" for z xs
  proof -
    from that(1) obtain r where r: "r \<in> set xs" "z \<in> set (f r)" by auto
    from zone_entries_of_zone [of z lm device lat lon c now r] r(2)
    have "zone_key z = (cr_tenant_id r, cr_id r, device)" by (simp add: f_def)
    moreover have "cr_id r \<noteq> cr_id rule" using assms(2) rs r(1) that(2)
      by (auto dest: sym [of "cr_id r"] imageI [of r _ cr_id])
    ultimately show ?thesis by simp
  qed
  let ?g = "foldl (write_zone_entry ch)"
  have one: "map_of (?g rows' (f rule)) k = map_of (?g rows'' (f rule)) k"
    if "map_of rows' k = map_of rows'' k" for rows' rows'' k
  proof -
    have "length (f rule) \<le> 1"
      by (auto simp: f_def geofence_zone_def zone_entry_update_def Let_def)
    then consider "f rule = []" | z where "f rule = [z]" by (cases "f rule") auto
    then show ?thesis using that by cases (simp_all add: map_of_write_zone_entry)
  qed
  have "map_of (?g rows (concat (map f rs))) (tenant, cr_id rule, device) =
      map_of (?g (?g rows (concat (map f pre))) (f rule)) (tenant, cr_id rule, device)"
    unfolding rs map_append concat_append list.map concat.simps foldl_append
    by (rule map_of_write_zone_entries_other) (rule others [of _ post], simp_all)
  also have "\<dots> = map_of (?g rows (f rule)) (tenant, cr_id rule, device)"
    by (intro one map_of_write_zone_entries_other others [of _ pre]) simp_all
  finally show ?thesis .
qed

section \<open>Properties\<close>

text \<open>
  C1. A rule never alerts twice within its cooldown: when one transaction creates an alert for a
  rule on a device and, after any history of other transactions, resolutions and changes of
  alerts, rules and devices that removes no cooldown, another one creates an alert for the same rule and device, at least
  the rule's cooldown has passed between the two observations, the first one taken at the
  precision of the table.
\<close>

theorem alerts_keep_their_cooldown:
  assumes "db_wf db"
    and "evaluate_rules_in_transaction lm clk ch db tenant device (Some plan) = Ok (acts, db1)"
    and "CreateAlert t r d sev msg v \<in> set acts"
    and "(db_step lm clk ch)\<^sup>*\<^sup>* db1 db2"
    and "evaluate_rules_in_transaction lm clk ch db2 tenant device (Some plan2) = Ok (acts2, db3)"
    and "CreateAlert t r d sev2 msg2 v2 \<in> set acts2"
    and "0 < cooldown" and "cooldown_at_least plan2 t r cooldown"
    and "elapsed_antitone clk ch"
    and "from_timestamp_micros ch (timestamp_micros ch (ev_observed_at plan)) = Some first"
  shows "cooldown \<le> seconds_since clk (ev_observed_at plan2) first"
proof -
  have wf1: "db_wf db1" by (rule transaction_wf [OF assms(2,1)])
  have "fired_since (db_cooldowns db1) (t, r, d) (timestamp_micros ch (ev_observed_at plan))"
    by (rule transaction_creates(3) [OF assms(2,3,1)])
  from db_steps_fired_since(2) [OF assms(4) wf1 this] obtain x where
    x: "map_of (db_cooldowns db2) (t, r, d) = Some x" "timestamp_micros ch (ev_observed_at plan) \<le> x"
    by (auto simp: fired_since_def)
  have wf2: "db_wf db2" by (rule db_steps_fired_since(1) [OF assms(4) wf1])
  from transaction_creates(4) [OF assms(5,6) wf2 assms(7,8) x(1)] obtain w where
    w: "from_timestamp_micros ch x = Some w" "cooldown \<le> seconds_since clk (ev_observed_at plan2) w" by blast
  have "seconds_since clk (ev_observed_at plan2) w \<le> seconds_since clk (ev_observed_at plan2) first"
    using assms(9,10) w(1) x(2) unfolding elapsed_antitone_def by blast
  with w(2) show ?thesis by simp
qed


definition sample_micros :: micros_api where
  "sample_micros = \<lparr>timestamp_micros = (\<lambda>t. t * 1000000), from_timestamp_micros = (\<lambda>m. Some (m div 1000000))\<rparr>"

definition sample_db :: runtime_db where
  "sample_db = \<lparr>db_device_targets = [((''t'', ''d''), (None, None))],
     db_rules = [\<lparr>rr_tenant_id = ''t'', rr_id = ''r'', rr_enabled = True\<rparr>],
     db_alerts = [], db_cooldowns = [], db_zone_entries = []\<rparr>"

definition sample_run :: "runtime_db \<Rightarrow> time \<Rightarrow> (persistence_error, pending_action list \<times> runtime_db) result" where
  "sample_run db now = evaluate_rules_in_transaction zero_libm sample_clock sample_micros db ''t'' ''d''
     (Some (sample_evaluation\<lparr>ev_observed_at := now\<rparr>))"

lemma sample_elapsed: "elapsed_antitone sample_clock sample_micros"
  by (auto simp: elapsed_antitone_def sample_clock_def sample_micros_def intro: zdiv_mono1)

lemma sample_cooldown: "cooldown_at_least (sample_evaluation\<lparr>ev_observed_at := now\<rparr>) t r 60"
proof -
  have "bucket sample_cache target = (if target = TgGlobal then [sample_rule] else [])" for target
    by (cases target) (simp_all add: bucket_def sample_cache_def insert_rule_def sample_rule_def
        compile_target_type_def default_cache_def empty_definitions_def)
  then show ?thesis by (simp add: cooldown_at_least_def sample_evaluation_def) (simp add: sample_rule_def)
qed

theorem alerts_keep_their_cooldown_witness:
  "\<exists>acts db1 acts2 db2. sample_run sample_db 7 = Ok (acts, db1) \<and> sample_alert \<in> set acts
     \<and> sample_run db1 100 = Ok (acts2, db2) \<and> sample_alert \<in> set acts2
     \<and> 60 \<le> seconds_since sample_clock 100 7"
proof -
  let ?db1 = "sample_db\<lparr>db_cooldowns := [((''t'', ''r'', ''d''), 7000000)]\<rparr>"
  let ?db2 = "sample_db\<lparr>db_cooldowns := [((''t'', ''r'', ''d''), 100000000)]\<rparr>"
  have r1: "sample_run sample_db 7 = Ok ([sample_alert], ?db1)" by code_simp
  have r2: "sample_run ?db1 100 = Ok ([sample_alert], ?db2)" by code_simp
  have wf: "db_wf sample_db" by (simp add: db_wf_def sample_db_def)
  have "60 \<le> seconds_since sample_clock 100 7"
    using alerts_keep_their_cooldown [OF wf r1 [unfolded sample_run_def] _ rtranclp.rtrancl_refl
        r2 [unfolded sample_run_def], of "''t''" "''r''" "''d''" "''warning''" "''air./temp (85) exceeded 80''"
          "Some ''85''" "''warning''" "''air./temp (85) exceeded 80''" "Some ''85''" 60 7]
    by (simp add: sample_alert_def sample_cooldown sample_elapsed) (simp add: sample_micros_def)
  with r1 r2 show ?thesis by auto
qed

text \<open>
  C4. The zone entry of a geofence rule tracks the device: after a transaction for a located
  device, every live geofence rule that applies to it and watches a known zone has an entry
  exactly when the device is inside the zone; the entry keeps the time of the first observation
  inside and is not moved by later ones, and it is dropped when the device leaves.
\<close>

theorem zone_entry_tracks_device:
  assumes "db_wf db"
    and "evaluate_rules_in_transaction lm clk ch db tenant device (Some plan) = Ok (acts, db')"
    and "ev_input plan = TelemetryInput data True" and "valid_location data = Some (lat, lon)"
    and "map_of (db_device_targets db) (tenant, device) = Some (fleet, blueprint)"
    and "rule \<in> set (rules_for_tenant_device (ev_snapshot plan) tenant device (map_option show_int fleet) blueprint)"
    and "rc_rule_allowlist (ev_snapshot plan) = None"
    and "distinct (map cr_id (rules_for_tenant_device (ev_snapshot plan) tenant device (map_option show_int fleet) blueprint))"
    and "\<lparr>rr_tenant_id = tenant, rr_id = cr_id rule, rr_enabled = True\<rparr> \<in> set (db_rules db)"
    and "compile_trigger (cr_trigger_type rule) = Some TrGeofence"
    and "rule_zone (ev_snapshot plan) rule = Some zone"
  shows "map_of (db_zone_entries db') (tenant, cr_id rule, device) =
    (if point_in_zone lm lat lon (cz_geometry zone)
     then Some (case map_of (db_zone_entries db) (tenant, cr_id rule, device) of
                  None \<Rightarrow> timestamp_micros ch (ev_observed_at plan) | Some x \<Rightarrow> x)
     else None)"
proof -
  from assms(2) obtain f b p rt where
    p: "p = plan\<lparr>ev_fleet_id := f, ev_blueprint_id := b\<rparr>" "ev_tenant plan = tenant" "ev_device_id plan = device"
      "map_of (db_device_targets db) (tenant, device) = Some (f, b)"
    and live: "live_rule_ids rt = select_live_rules db tenant (candidate_rule_ids p)"
    and load: "load_times ch tenant device (db_zone_entries db) Map.empty = Ok (rt_zone_entries rt)"
    and out: "db_zone_entries db' = foldl (write_zone_entry ch) (db_zone_entries db) (dec_zone_entries (decide lm clk p rt))"
    by (elim transaction_Ok) simp
  have fb: "f = fleet" "b = blueprint" using p(4) assms(5) by simp_all
  let ?all = "rules_for_tenant_device (ev_snapshot plan) tenant device (map_option show_int fleet) blueprint"
  let ?rs = "filter (\<lambda>r. cr_id r \<in> live_rule_ids rt) ?all"
  let ?c = "decision_cache p rt"
  let ?key = "(tenant, cr_id rule, device)"
  have rs: "rules_for_tenant_device ?c tenant device (map_option show_int f) b = ?rs"
    using rules_for_decision_cache [of p rt] assms(7) p(1) fb by simp
  have "cr_id rule \<in> live_rule_ids rt"
    unfolding live using assms(6,9) p fb
    by (force simp: select_live_rules_def candidate_rule_ids_def)
  then have mem: "rule \<in> set ?rs" using assms(6) by simp
  have dist: "distinct (map cr_id ?rs)" using assms(8) by (rule distinct_map_filter)
  have ten: "cr_tenant_id r = tenant" if "r \<in> set ?rs" for r
    using that by (auto dest: cache_rules.tenant)
  have "dec_zone_entries (decide lm clk p rt) =
      concat (map (\<lambda>r. concat (map zone_entry_of (geofence_zone lm device lat lon ?c (ev_observed_at plan) r))) ?rs)"
    using assms(3,4) p rs
    by (simp add: decide_splits decision_actions_def Let_def evaluate_telemetry_for_tenant_revision_at_def
        evaluate_geofence_for_tenant_at_def telemetry.batch_zone_entries geofence.batch_zone_entries)
  then have "map_of (db_zone_entries db') ?key = map_of (foldl (write_zone_entry ch) (db_zone_entries db)
      (concat (map zone_entry_of (geofence_zone lm device lat lon ?c (ev_observed_at plan) rule)))) ?key"
    using write_zone_entries_batch [OF mem dist ten] by (simp add: out)
  also have "\<dots> = map_of (foldl (write_zone_entry ch) (db_zone_entries db)
      (concat (map zone_entry_of (zone_entry_update ?c device (ev_observed_at plan) rule
        (point_in_zone lm lat lon (cz_geometry zone)))))) ?key"
    using assms(10,11) rule_zone_cong [of ?c "ev_snapshot plan" rule] p(1)
    by (simp add: geofence_zone_def geofence_watched_def rule_inside_def)
  also have "\<dots> = (if point_in_zone lm lat lon (cz_geometry zone)
     then Some (case map_of (db_zone_entries db) ?key of
                  None \<Rightarrow> timestamp_micros ch (ev_observed_at plan) | Some x \<Rightarrow> x)
     else None)"
    using load_times_spec [OF load, of "cr_id rule"] assms(1) ten [OF mem]
    by (auto simp: zone_entry_update_def db_wf_def map_of_write_zone_entry zone_key_def Let_def split: option.splits)
  finally show ?thesis .
qed

definition sample_fence :: cached_zone where
  "sample_fence = \<lparr>cz_id = ''z'', cz_name = ''yard'',
     cz_geometry = Polygon [(Fin 50, Fin 20), (Fin 50, Fin 22), (Fin 53, Fin 22), (Fin 53, Fin 20)]\<rparr>"

definition sample_fence_rule :: cached_rule where
  "sample_fence_rule = \<lparr>cr_tenant_id = ''t'', cr_id = ''r'', cr_name = ''fence'', cr_trigger_type = ''geofence'',
     cr_target_type = ''global'', cr_target_id = None, cr_cooldown_seconds = 0,
     cr_conditions = [\<lparr>cc_field = ''zone_state'', cc_blueprint_id = None, cc_blueprint_revision_id = None,
        cc_operator = ''eq'', cc_value = ''inside'', cc_zone_id = Some ''z''\<rparr>], cr_actions = []\<rparr>"

definition sample_fence_plan :: device_rule_evaluation where
  "sample_fence_plan = sample_evaluation\<lparr>
     ev_snapshot := compile_snapshot \<lparr>rsr_rules = [sample_fence_rule], rsr_zones = [''z'' \<mapsto> sample_fence]\<rparr>,
     ev_input := TelemetryInput \<lparr>td_latitude = Some (Fin 51), td_longitude = Some (Fin 21), td_metrics = []\<rparr> True\<rparr>"

theorem zone_entry_tracks_device_witness:
  "\<exists>acts db'. evaluate_rules_in_transaction zero_libm sample_clock sample_micros sample_db ''t'' ''d''
       (Some sample_fence_plan) = Ok (acts, db')
     \<and> map_of (db_zone_entries db') (''t'', ''r'', ''d'') = Some 7000000"
proof -
  obtain acts db' where run: "evaluate_rules_in_transaction zero_libm sample_clock sample_micros sample_db ''t'' ''d''
       (Some sample_fence_plan) = Ok (acts, db')"
  proof -
    have "case evaluate_rules_in_transaction zero_libm sample_clock sample_micros sample_db ''t'' ''d''
       (Some sample_fence_plan) of Inl _ \<Rightarrow> False | Inr _ \<Rightarrow> True" by code_simp
    with that show thesis by (auto split: sum.splits)
  qed
  have wf: "db_wf sample_db" by (simp add: db_wf_def sample_db_def)
  have rules: "rules_for_tenant_device (ev_snapshot sample_fence_plan) ''t'' ''d'' (map_option show_int None) None
      = [sample_fence_rule]" by code_simp
  have mem: "sample_fence_rule \<in> set (rules_for_tenant_device (ev_snapshot sample_fence_plan) ''t'' ''d''
      (map_option show_int None) None)"
    and dist: "distinct (map cr_id (rules_for_tenant_device (ev_snapshot sample_fence_plan) ''t'' ''d''
      (map_option show_int None) None))"
    unfolding rules by simp_all
  have inside: "point_in_zone zero_libm (Fin 51) (Fin 21) (cz_geometry sample_fence)" by code_simp
  have loc: "valid_location \<lparr>td_latitude = Some (Fin 51), td_longitude = Some (Fin 21), td_metrics = []\<rparr>
      = Some (Fin 51, Fin 21)" by code_simp
  have zone: "rule_zone (ev_snapshot sample_fence_plan) sample_fence_rule = Some sample_fence"
    by (simp add: rule_zone_def sample_fence_rule_def sample_fence_plan_def compile_snapshot_def Let_def)
  have al: "rc_rule_allowlist (ev_snapshot sample_fence_plan) = None"
    by (simp add: sample_fence_plan_def compile_snapshot_def insert_rule_def sample_fence_rule_def
        compile_target_type_def default_cache_def Let_def)
  have "map_of (db_zone_entries db') (''t'', cr_id sample_fence_rule, ''d'') = Some 7000000"
    by (subst zone_entry_tracks_device [OF wf run _ loc _ mem al dist _ _ zone])
      (simp_all add: inside, simp_all add: sample_fence_plan_def sample_fence_rule_def sample_db_def
        compile_trigger_def sample_micros_def sample_evaluation_def)
  with run show ?thesis by (auto simp: sample_fence_rule_def)
qed

end
