(* ===== verification/Outbox.thy ===== *)
theory Outbox
  imports Rule_Runtime
begin

text \<open>
  The outbox of rule actions: \<^verbatim>\<open>crates/backend-core/src/outbox.rs\<close> (the retry schedule),
  \<^verbatim>\<open>crates/backend-turso/src/outbox.rs\<close> (the repository) and \<^verbatim>\<open>application/outbox.rs\<close> (its use by
  workers and operators). The table is a list of rows; a statement is the update or the filter its
  text says, and a transaction that fails leaves the table as it was. The time and the fresh
  identifiers an operation draws are arguments. Storing a payload as text and reading it back is
  the parameter \<open>text_api\<close>.
\<close>

section \<open>Failures of the driver\<close>

datatype turso_error = Constraint string | OtherError string

definition legacy_error :: "turso_error \<Rightarrow> persistence_error" where
  "legacy_error e = (case e of
      Constraint message \<Rightarrow>
        let normalized = map to_ascii_lowercase message in
        if contains_str ''unique'' normalized \<or> contains_str ''primary key'' normalized
        then UniqueViolation ''unique''
        else if contains_str ''foreign key'' normalized then ForeignKeyViolation ''foreign_key''
        else if contains_str ''check'' normalized then CheckViolation ''check''
        else Internal (''database constraint rejected the operation: '' @ message)
    | OtherError message \<Rightarrow> Internal message)"

text \<open>What SQLite reports for a row that violates a unique index or a primary key.\<close>

definition unique_failure :: persistence_error where
  "unique_failure = legacy_error (Constraint ''UNIQUE constraint failed'')"

section \<open>Rows and records\<close>

record outbox_row =
  ob_id :: string
  ob_tenant_id :: string
  ob_event_type :: string
  ob_aggregate_type :: string
  ob_aggregate_id :: string
  ob_idempotency_key :: "string option"
  ob_payload :: string
  ob_status :: string
  ob_attempts :: int
  ob_max_attempts :: int
  ob_available_at :: int
  ob_locked_at :: "int option"
  ob_locked_by :: "string option"
  ob_last_error :: "string option"
  ob_created_at :: int
  ob_updated_at :: int

record outbox_event_record =
  oe_claim_token :: "string option"
  oe_id :: string
  oe_tenant_id :: string
  oe_event_type :: string
  oe_aggregate_type :: string
  oe_aggregate_id :: string
  oe_payload :: json
  oe_attempts :: int
  oe_max_attempts :: int
  oe_last_error :: "string option"
  oe_created_at :: time
  oe_updated_at :: time

record outbox_summary =
  os_pending_count :: nat
  os_processing_count :: nat
  os_failed_count :: nat
  os_dead_letter_count :: nat
  os_succeeded_count :: nat
  os_oldest_pending_at :: "time option"
  os_oldest_pending_age_seconds :: "int option"

datatype failure_class = Retryable | Permanent

record text_api =
  to_text :: "json \<Rightarrow> (string, string) result"
  from_text :: "string \<Rightarrow> (string, json) result"

definition decode_row :: "micros_api \<Rightarrow> text_api \<Rightarrow> outbox_row \<Rightarrow> (persistence_error, outbox_event_record) result" where
  "decode_row ch T r =
     rbind (case from_text T (ob_payload r) of Inl e \<Rightarrow> Err (CorruptData e) | Inr v \<Rightarrow> Ok v) (\<lambda>payload.
     rbind (row_i32 (ob_attempts r) ''outbox.attempts'') (\<lambda>attempts.
     rbind (row_i32 (ob_max_attempts r) ''outbox.max_attempts'') (\<lambda>max_attempts.
     rbind (row_datetime ch (ob_created_at r)) (\<lambda>created_at.
     rbind (row_datetime ch (ob_updated_at r)) (\<lambda>updated_at.
     Ok \<lparr>oe_claim_token = ob_locked_by r, oe_id = ob_id r, oe_tenant_id = ob_tenant_id r,
         oe_event_type = ob_event_type r, oe_aggregate_type = ob_aggregate_type r,
         oe_aggregate_id = ob_aggregate_id r, oe_payload = payload, oe_attempts = attempts,
         oe_max_attempts = max_attempts, oe_last_error = ob_last_error r,
         oe_created_at = created_at, oe_updated_at = updated_at\<rparr>)))))"

definition by_id :: "micros_api \<Rightarrow> text_api \<Rightarrow> outbox_row list \<Rightarrow> string \<Rightarrow> (persistence_error, outbox_event_record) result" where
  "by_id ch T rows event_id = (case find (\<lambda>r. ob_id r = event_id) rows of
      None \<Rightarrow> Err NotFound
    | Some r \<Rightarrow> decode_row ch T r)"

section \<open>The retry schedule\<close>

definition failure_disposition :: "int \<Rightarrow> int \<Rightarrow> failure_class \<Rightarrow> string \<times> int" where
  "failure_disposition attempts max_attempts failure =
     (let terminal = (failure = Permanent \<or> max_attempts \<le> attempts)
      in (if terminal then ''dead_letter'' else ''failed'',
          min (2 ^ nat (max 1 (min attempts 8))) 300))"

section \<open>Statements\<close>

definition i64_max :: int where "i64_max = 2 ^ 63 - 1"
definition i64_min :: int where "i64_min = - (2 ^ 63)"

definition saturating_sub :: "int \<Rightarrow> int \<Rightarrow> int" where
  "saturating_sub a b = max i64_min (min i64_max (a - b))"

definition saturating_add :: "int \<Rightarrow> int \<Rightarrow> int" where
  "saturating_add a b = max i64_min (min i64_max (a + b))"

text \<open>Division of integers, towards zero.\<close>

definition trunc_div :: "int \<Rightarrow> int \<Rightarrow> int" where
  "trunc_div a b = sgn a * sgn b * (\<bar>a\<bar> div \<bar>b\<bar>)"

definition update_where :: "('a \<Rightarrow> bool) \<Rightarrow> ('a \<Rightarrow> 'a) \<Rightarrow> 'a list \<Rightarrow> 'a list" where
  "update_where p f rows = map (\<lambda>r. if p r then f r else r) rows"

definition count_where :: "('a \<Rightarrow> bool) \<Rightarrow> 'a list \<Rightarrow> nat" where
  "count_where p rows = length (filter p rows)"

text \<open>\<^verbatim>\<open>column <= ?\<close> on a nullable column: false on null.\<close>

definition not_after :: "int option \<Rightarrow> int \<Rightarrow> bool" where
  "not_after x bound = is_some_and (\<lambda>v. v \<le> bound) x"

section \<open>Claiming\<close>

definition lease_expired_final :: "int \<Rightarrow> outbox_row \<Rightarrow> bool" where
  "lease_expired_final cutoff r \<longleftrightarrow>
     ob_status r = ''processing'' \<and> not_after (ob_locked_at r) cutoff \<and> ob_max_attempts r \<le> ob_attempts r"

definition expire_final :: "int \<Rightarrow> int \<Rightarrow> outbox_row list \<Rightarrow> outbox_row list" where
  "expire_final cutoff now =
     update_where (lease_expired_final cutoff)
       (\<lambda>r. r\<lparr>ob_status := ''dead_letter'', ob_locked_at := None, ob_locked_by := None,
              ob_last_error := Some ''delivery lease expired after final attempt'', ob_updated_at := now\<rparr>)"

definition claimable :: "int \<Rightarrow> int \<Rightarrow> outbox_row \<Rightarrow> bool" where
  "claimable now cutoff r \<longleftrightarrow> ob_attempts r < ob_max_attempts r
     \<and> (ob_status r \<in> {''pending'', ''failed''} \<and> ob_available_at r \<le> now
        \<or> ob_status r = ''processing'' \<and> not_after (ob_locked_at r) cutoff)"

definition claim_key :: "outbox_row \<Rightarrow> int \<times> int \<times> string" where
  "claim_key r = (ob_available_at r, ob_created_at r, ob_id r)"

text \<open>\<^verbatim>\<open>row_number()\<close> over the rows of the same tenant.\<close>

definition tenant_rank :: "outbox_row list \<Rightarrow> outbox_row \<Rightarrow> nat" where
  "tenant_rank eligible r =
     Suc (count_where (\<lambda>s. ob_tenant_id s = ob_tenant_id r \<and> claim_key s < claim_key r) eligible)"

definition limited :: "int \<Rightarrow> 'a list \<Rightarrow> 'a list" where
  "limited n xs = (if n < 0 then xs else take (nat n) xs)"

definition claim_ids :: "int \<Rightarrow> int \<Rightarrow> int \<Rightarrow> outbox_row list \<Rightarrow> string list" where
  "claim_ids now cutoff limit rows =
     (let eligible = filter (claimable now cutoff) rows
      in map ob_id (limited limit (sort_key (\<lambda>r. (tenant_rank eligible r, claim_key r)) eligible)))"

definition lease_row :: "int \<Rightarrow> string \<Rightarrow> outbox_row \<Rightarrow> outbox_row" where
  "lease_row now token r = r\<lparr>ob_status := ''processing'', ob_attempts := ob_attempts r + 1,
     ob_locked_at := Some now, ob_locked_by := Some token, ob_updated_at := now\<rparr>"

fun lease_events ::
  "micros_api \<Rightarrow> text_api \<Rightarrow> int \<Rightarrow> string \<Rightarrow> string list \<Rightarrow> outbox_row list
     \<Rightarrow> (persistence_error, outbox_event_record list \<times> outbox_row list) result" where
  "lease_events ch T now token [] rows = Ok ([], rows)"
| "lease_events ch T now token (event_id # ids) rows =
     (let rows' = update_where (\<lambda>r. ob_id r = event_id) (lease_row now token) rows
      in rbind (by_id ch T rows' event_id) (\<lambda>event.
         rbind (lease_events ch T now token ids rows') (\<lambda>(events, rows'').
         Ok (event # events, rows''))))"

definition claim_batch ::
  "micros_api \<Rightarrow> text_api \<Rightarrow> int \<Rightarrow> string \<Rightarrow> string \<Rightarrow> int \<Rightarrow> nat \<Rightarrow> outbox_row list
     \<Rightarrow> (persistence_error, outbox_event_record list \<times> outbox_row list) result" where
  "claim_batch ch T now uuid worker_id limit lease_micros rows =
     (let token = worker_id @ '':'' @ uuid;
          lease = min (int lease_micros) i64_max;
          cutoff = saturating_sub now lease;
          rows' = expire_final cutoff now rows
      in lease_events ch T now token (claim_ids now cutoff limit rows') rows')"

section \<open>Settling\<close>

definition holds_lease :: "string \<Rightarrow> string \<Rightarrow> outbox_row \<Rightarrow> bool" where
  "holds_lease event_id token r \<longleftrightarrow>
     ob_id r = event_id \<and> ob_status r = ''processing'' \<and> ob_locked_by r = Some token"

definition mark_succeeded :: "int \<Rightarrow> string \<Rightarrow> string \<Rightarrow> outbox_row list \<Rightarrow> bool \<times> outbox_row list" where
  "mark_succeeded now event_id token rows =
     (count_where (holds_lease event_id token) rows = 1,
      update_where (holds_lease event_id token)
        (\<lambda>r. r\<lparr>ob_status := ''succeeded'', ob_locked_at := None, ob_locked_by := None,
               ob_last_error := None, ob_updated_at := now\<rparr>) rows)"

definition mark_failed ::
  "int \<Rightarrow> string \<Rightarrow> string \<Rightarrow> int \<Rightarrow> int \<Rightarrow> failure_class \<Rightarrow> string \<Rightarrow> outbox_row list \<Rightarrow> bool \<times> outbox_row list" where
  "mark_failed now event_id token attempts max_attempts failure error rows =
     (let (status, delay_seconds) = failure_disposition attempts max_attempts failure;
          delay = delay_seconds * 1000000;
          p = (\<lambda>r. holds_lease event_id token r \<and> ob_attempts r = attempts)
      in (count_where p rows = 1,
          update_where p (\<lambda>r. r\<lparr>ob_status := status, ob_available_at := saturating_add now delay,
            ob_locked_at := None, ob_locked_by := None, ob_last_error := Some (chars_take 2000 error),
            ob_updated_at := now\<rparr>) rows))"

section \<open>Operators\<close>

definition outbox_summary_of :: "micros_api \<Rightarrow> int \<Rightarrow> string \<Rightarrow> outbox_row list \<Rightarrow> (persistence_error, outbox_summary) result" where
  "outbox_summary_of ch now tenant rows =
     (let mine = filter (\<lambda>r. ob_tenant_id r = tenant) rows;
          count = (\<lambda>status. count_where (\<lambda>r. ob_status r = status) mine);
          waiting = map ob_created_at (filter (\<lambda>r. ob_status r \<in> {''pending'', ''failed''}) mine);
          oldest = (if waiting = [] then None else Some (Min (set waiting)))
      in rbind (case oldest of None \<Rightarrow> Ok None | Some us \<Rightarrow> rbind (row_datetime ch us) (\<lambda>t. Ok (Some t))) (\<lambda>since.
         Ok \<lparr>os_pending_count = count ''pending'', os_processing_count = count ''processing'',
             os_failed_count = count ''failed'', os_dead_letter_count = count ''dead_letter'',
             os_succeeded_count = count ''succeeded'', os_oldest_pending_at = since,
             os_oldest_pending_age_seconds = map_option (\<lambda>us. trunc_div (saturating_sub now us) 1000000) oldest\<rparr>))"

fun decode_all ::
  "micros_api \<Rightarrow> text_api \<Rightarrow> outbox_row list \<Rightarrow> (persistence_error, outbox_event_record list) result" where
  "decode_all ch T [] = Ok []"
| "decode_all ch T (r # rows) =
     rbind (decode_row ch T r) (\<lambda>e. rbind (decode_all ch T rows) (\<lambda>es. Ok (e # es)))"

definition list_dead_letters ::
  "micros_api \<Rightarrow> text_api \<Rightarrow> string \<Rightarrow> int \<Rightarrow> int \<Rightarrow> outbox_row list
     \<Rightarrow> (persistence_error, outbox_event_record list) result" where
  "list_dead_letters ch T tenant limit offset rows =
     (let found = filter (\<lambda>r. ob_tenant_id r = tenant \<and> ob_status r = ''dead_letter'') rows;
          ordered = rev (sort_key (\<lambda>r. (ob_updated_at r, ob_id r)) found)
      in decode_all ch T (limited limit (drop (nat offset) ordered)))"

text \<open>The unique index over the idempotency keys of unsettled events.\<close>

definition active_key :: "outbox_row \<Rightarrow> (string \<times> string \<times> string) option" where
  "active_key r =
     (if ob_status r \<in> {''pending'', ''processing'', ''failed''}
      then map_option (\<lambda>k. (ob_tenant_id r, ob_event_type r, k)) (ob_idempotency_key r) else None)"

definition index_ok :: "outbox_row list \<Rightarrow> bool" where
  "index_ok rows \<longleftrightarrow> distinct (List.map_filter active_key rows)"

definition replay_row :: "int \<Rightarrow> outbox_row \<Rightarrow> outbox_row" where
  "replay_row now r = r\<lparr>ob_status := ''pending'', ob_attempts := 0, ob_available_at := now,
     ob_locked_at := None, ob_locked_by := None, ob_last_error := None, ob_updated_at := now\<rparr>"

fun replay_ids ::
  "int \<Rightarrow> string \<Rightarrow> string list \<Rightarrow> outbox_row list \<Rightarrow> nat \<Rightarrow> (persistence_error, nat \<times> outbox_row list) result" where
  "replay_ids now tenant [] rows n = Ok (n, rows)"
| "replay_ids now tenant (event_id # ids) rows n =
     (let p = (\<lambda>r. ob_tenant_id r = tenant \<and> ob_id r = event_id \<and> ob_status r = ''dead_letter'');
          rows' = update_where p (replay_row now) rows
      in if \<not> index_ok rows' then Err unique_failure
         else replay_ids now tenant ids rows' (n + count_where p rows))"

definition replay_dead_letters ::
  "int \<Rightarrow> string \<Rightarrow> string list option \<Rightarrow> outbox_row list \<Rightarrow> (persistence_error, nat \<times> outbox_row list) result" where
  "replay_dead_letters now tenant event_ids rows = (case event_ids of
      Some ids \<Rightarrow> replay_ids now tenant ids rows 0
    | None \<Rightarrow>
        let p = (\<lambda>r. ob_tenant_id r = tenant \<and> ob_status r = ''dead_letter'');
            rows' = update_where p (replay_row now) rows
        in if \<not> index_ok rows' then Err unique_failure else Ok (count_where p rows, rows'))"

section \<open>Enqueueing\<close>

definition pending_row :: "int \<Rightarrow> new_outbox_event \<Rightarrow> string \<Rightarrow> outbox_row" where
  "pending_row now e payload =
     \<lparr>ob_id = ne_id e, ob_tenant_id = ne_tenant_id e, ob_event_type = ne_event_type e,
      ob_aggregate_type = ne_aggregate_type e, ob_aggregate_id = ne_aggregate_id e,
      ob_idempotency_key = ne_idempotency_key e, ob_payload = payload, ob_status = ''pending'',
      ob_attempts = 0, ob_max_attempts = 10, ob_available_at = now, ob_locked_at = None,
      ob_locked_by = None, ob_last_error = None, ob_created_at = now, ob_updated_at = now\<rparr>"

definition insert_or_ignore :: "outbox_row \<Rightarrow> outbox_row list \<Rightarrow> nat \<times> outbox_row list" where
  "insert_or_ignore r rows =
     (if ob_id r \<in> ob_id ` set rows \<or> \<not> index_ok (rows @ [r]) then (0, rows) else (1, rows @ [r]))"

text \<open>Each action comes with the identifier drawn for its event.\<close>

fun enqueue_actions_in_transaction ::
  "serde_api \<Rightarrow> text_api \<Rightarrow> int \<Rightarrow> (string \<times> pending_action) list \<Rightarrow> outbox_row list
     \<Rightarrow> (persistence_error, nat \<times> outbox_row list) result" where
  "enqueue_actions_in_transaction S T now [] rows = Ok (0, rows)"
| "enqueue_actions_in_transaction S T now ((uuid, action) # actions) rows =
     (case outbox_event_for_action S uuid action of
        Inl e \<Rightarrow> Err (Internal e)
      | Inr event \<Rightarrow>
          (case to_text T (ne_payload event) of
             Inl e \<Rightarrow> Err (Internal e)
           | Inr payload \<Rightarrow>
               let (count, rows') = insert_or_ignore (pending_row now event payload) rows
               in rbind (enqueue_actions_in_transaction S T now actions rows') (\<lambda>(inserted, rows'').
                  Ok (count + inserted, rows''))))"

section \<open>The application\<close>

definition persistence :: "(persistence_error, 'a) result \<Rightarrow> (application_error, 'a) result" where
  "persistence r = (case r of Inl e \<Rightarrow> Err (Persistence e) | Inr x \<Rightarrow> Ok x)"

definition outbox_summary_request ::
  "micros_api \<Rightarrow> int \<Rightarrow> tenant_context \<Rightarrow> outbox_row list \<Rightarrow> (application_error, outbox_summary) result" where
  "outbox_summary_request ch now ctx rows =
     rbind (require_permission ctx ReadServerMetrics) (\<lambda>_.
     persistence (outbox_summary_of ch now (tc_tenant_id ctx) rows))"

definition dead_letters_request ::
  "micros_api \<Rightarrow> text_api \<Rightarrow> tenant_context \<Rightarrow> int \<Rightarrow> int \<Rightarrow> outbox_row list
     \<Rightarrow> (application_error, outbox_event_record list) result" where
  "dead_letters_request ch T ctx limit offset rows =
     rbind (require_permission ctx ReadServerMetrics) (\<lambda>_.
     persistence (list_dead_letters ch T (tc_tenant_id ctx) (max 1 (min limit 200)) (max offset 0) rows))"

definition replay_request ::
  "int \<Rightarrow> tenant_context \<Rightarrow> string list \<Rightarrow> bool \<Rightarrow> outbox_row list
     \<Rightarrow> (application_error, nat \<times> outbox_row list) result" where
  "replay_request now ctx event_ids replay_all rows =
     (if \<not> replay_all \<and> event_ids = [] then Err (InvalidInput ''provide event_ids or set replay_all to true'')
      else if replay_all \<and> event_ids \<noteq> []
      then Err (InvalidInput ''event_ids and replay_all are mutually exclusive'')
      else rbind (require_permission ctx ManageRules) (\<lambda>_.
        let ids = (if replay_all then None else Some (sorted_list_of_set (set event_ids)))
        in persistence (replay_dead_letters now (tc_tenant_id ctx) ids rows)))"

text \<open>The claim commits before its tokens are inspected, so the table comes with the answer.\<close>

definition worker_claim ::
  "micros_api \<Rightarrow> text_api \<Rightarrow> int \<Rightarrow> string \<Rightarrow> string \<Rightarrow> int \<Rightarrow> nat \<Rightarrow> outbox_row list
     \<Rightarrow> (application_error, outbox_event_record list) result \<times> outbox_row list" where
  "worker_claim ch T now uuid worker_id limit lease rows =
     (if worker_id = [] \<or> limit \<le> 0 \<or> lease = 0 \<or> i64_max < int lease
      then (Err (InvalidInput ''outbox claims require a worker label, positive batch size, and representable positive lease''), rows)
      else case claim_batch ch T now uuid worker_id limit lease rows of
        Inl e \<Rightarrow> (Err (Persistence e), rows)
      | Inr (events, rows') \<Rightarrow>
          if \<exists>e \<in> set events. is_none_or (\<lambda>t. t = []) (oe_claim_token e)
          then (Err (AppInternal ''claimed outbox event has no lease token''), rows')
          else (Ok events, rows'))"

definition worker_succeeded ::
  "int \<Rightarrow> outbox_event_record \<Rightarrow> outbox_row list \<Rightarrow> (application_error, bool) result \<times> outbox_row list" where
  "worker_succeeded now event rows = (case oe_claim_token event of
      None \<Rightarrow> (Err (AppInternal ''event is not claimed''), rows)
    | Some token \<Rightarrow>
        let (done, rows') = mark_succeeded now (oe_id event) token rows in (Ok done, rows'))"

definition worker_failed ::
  "int \<Rightarrow> outbox_event_record \<Rightarrow> failure_class \<Rightarrow> string \<Rightarrow> outbox_row list
     \<Rightarrow> (application_error, bool) result \<times> outbox_row list" where
  "worker_failed now event failure error rows = (case oe_claim_token event of
      None \<Rightarrow> (Err (AppInternal ''event is not claimed''), rows)
    | Some token \<Rightarrow>
        let (done, rows') = mark_failed now (oe_id event) token (oe_attempts event) (oe_max_attempts event)
                              failure error rows
        in (Ok done, rows'))"

end
