(* ===== verification/Outbox_Protocol.thy ===== *)
theory Outbox_Protocol
  imports Outbox
begin

text \<open>
  The life of events in the outbox, as histories of the operations that ingress, workers and
  operators perform, and the invariant every history keeps.
\<close>

section \<open>Histories\<close>

datatype outbox_op =
    Enqueue int "(string \<times> pending_action) list"
  | Claim int string string int nat
  | Succeeded int outbox_event_record
  | Failed int outbox_event_record failure_class string
  | Replay int tenant_context "string list" bool

fun outbox_apply :: "serde_api \<Rightarrow> micros_api \<Rightarrow> text_api \<Rightarrow> outbox_op \<Rightarrow> outbox_row list \<Rightarrow> outbox_row list" where
  "outbox_apply S ch T (Enqueue now actions) rows =
     (case enqueue_actions_in_transaction S T now actions rows of Inl _ \<Rightarrow> rows | Inr (_, rows') \<Rightarrow> rows')"
| "outbox_apply S ch T (Claim now uuid worker limit lease) rows = snd (worker_claim ch T now uuid worker limit lease rows)"
| "outbox_apply S ch T (Succeeded now event) rows = snd (worker_succeeded now event rows)"
| "outbox_apply S ch T (Failed now event failure error) rows = snd (worker_failed now event failure error rows)"
| "outbox_apply S ch T (Replay now ctx ids replay_all) rows =
     (case replay_request now ctx ids replay_all rows of Inl _ \<Rightarrow> rows | Inr (_, rows') \<Rightarrow> rows')"

text \<open>
  The clock yields times that can be read back, and an event a worker settles was read from the
  table, where no operation changes the number of attempts a row allows.
\<close>

definition readable_time :: "micros_api \<Rightarrow> int \<Rightarrow> bool" where
  "readable_time ch us \<longleftrightarrow> (case row_datetime ch us of Inl _ \<Rightarrow> False | Inr _ \<Rightarrow> True)"

fun op_time :: "outbox_op \<Rightarrow> int" where
  "op_time (Enqueue now actions) = now"
| "op_time (Claim now uuid worker limit lease) = now"
| "op_time (Succeeded now event) = now"
| "op_time (Failed now event failure error) = now"
| "op_time (Replay now ctx ids replay_all) = now"

fun allowed_attempts_read :: "outbox_row list \<Rightarrow> outbox_op \<Rightarrow> bool" where
  "allowed_attempts_read rows (Failed now event failure error) =
     (\<forall>r \<in> set rows. ob_id r = oe_id event \<longrightarrow> ob_max_attempts r = oe_max_attempts event)"
| "allowed_attempts_read rows _ = True"

definition op_ok :: "micros_api \<Rightarrow> outbox_row list \<Rightarrow> outbox_op \<Rightarrow> bool" where
  "op_ok ch rows op \<longleftrightarrow> readable_time ch (op_time op) \<and> allowed_attempts_read rows op"

inductive outbox_reachable :: "serde_api \<Rightarrow> micros_api \<Rightarrow> text_api \<Rightarrow> outbox_row list \<Rightarrow> bool"
  for S ch T where
  empty: "outbox_reachable S ch T []"
| step: "outbox_reachable S ch T rows \<Longrightarrow> op_ok ch rows op \<Longrightarrow> outbox_reachable S ch T (outbox_apply S ch T op rows)"

primrec run_ops :: "serde_api \<Rightarrow> micros_api \<Rightarrow> text_api \<Rightarrow> outbox_op list \<Rightarrow> outbox_row list \<Rightarrow> outbox_row list" where
  "run_ops S ch T [] rows = rows"
| "run_ops S ch T (op # ops) rows = run_ops S ch T ops (outbox_apply S ch T op rows)"

primrec ops_ok :: "serde_api \<Rightarrow> micros_api \<Rightarrow> text_api \<Rightarrow> outbox_op list \<Rightarrow> outbox_row list \<Rightarrow> bool" where
  "ops_ok S ch T [] rows = True"
| "ops_ok S ch T (op # ops) rows = (op_ok ch rows op \<and> ops_ok S ch T ops (outbox_apply S ch T op rows))"

lemma run_ops_reachable:
  "outbox_reachable S ch T rows \<Longrightarrow> ops_ok S ch T ops rows \<Longrightarrow> outbox_reachable S ch T (run_ops S ch T ops rows)"
  by (induction ops arbitrary: rows) (auto intro: outbox_reachable.step)

section \<open>The invariant\<close>

definition row_ok :: "outbox_row \<Rightarrow> bool" where
  "row_ok r \<longleftrightarrow> ob_status r \<in> {''pending'', ''processing'', ''failed'', ''dead_letter'', ''succeeded''}
     \<and> 0 < ob_max_attempts r \<and> 0 \<le> ob_attempts r \<and> ob_attempts r \<le> ob_max_attempts r
     \<and> (ob_status r \<in> {''pending'', ''failed''} \<longrightarrow> ob_attempts r < ob_max_attempts r)
     \<and> (ob_status r = ''processing'' \<longleftrightarrow> ob_locked_by r \<noteq> None)
     \<and> (ob_locked_by r = None \<longleftrightarrow> ob_locked_at r = None)"

definition outbox_inv :: "outbox_row list \<Rightarrow> bool" where
  "outbox_inv rows \<longleftrightarrow> distinct (map ob_id rows) \<and> index_ok rows \<and> (\<forall>r \<in> set rows. row_ok r)"

text \<open>An update of single rows that keeps their identity and activates none.\<close>

lemma set_update_where: "set (update_where p f rows) = (\<lambda>r. if p r then f r else r) ` set rows"
  by (simp add: update_where_def)

lemma index_ok_map:
  assumes "index_ok rows" and "\<And>r. r \<in> set rows \<Longrightarrow> active_key (g r) = None \<or> active_key (g r) = active_key r"
  shows "index_ok (map g rows)"
proof -
  have "distinct (List.map_filter active_key (map g rows))
      \<and> set (List.map_filter active_key (map g rows)) \<subseteq> set (List.map_filter active_key rows)"
    using assms unfolding index_ok_def
  proof (induction rows)
    case (Cons r rows)
    have "active_key (g r) = None \<or> active_key (g r) = active_key r" using Cons.prems(2) by simp
    moreover have "distinct (List.map_filter active_key (map g rows))
        \<and> set (List.map_filter active_key (map g rows)) \<subseteq> set (List.map_filter active_key rows)"
      using Cons by (auto simp: List.map_filter_simps split: option.splits)
    ultimately show ?case
      using Cons.prems(1) by (auto simp: List.map_filter_simps split: option.splits)
  qed (simp add: List.map_filter_simps)
  then show ?thesis by (simp add: index_ok_def)
qed

lemma outbox_inv_update:
  assumes "outbox_inv rows"
    and "\<And>r. r \<in> set rows \<Longrightarrow> p r \<Longrightarrow> ob_id (f r) = ob_id r \<and> row_ok (f r)
      \<and> (active_key (f r) = None \<or> active_key (f r) = active_key r)"
  shows "outbox_inv (update_where p f rows)"
proof -
  have "map ob_id (update_where p f rows) = map ob_id rows"
    using assms(2) by (auto simp: update_where_def)
  moreover have "index_ok (update_where p f rows)"
    unfolding update_where_def using assms by (intro index_ok_map) (auto simp: outbox_inv_def)
  moreover have "\<forall>r \<in> set (update_where p f rows). row_ok r"
    using assms by (auto simp: set_update_where outbox_inv_def)
  ultimately show ?thesis using assms(1) by (simp add: outbox_inv_def)
qed

lemma expire_final_inv: "outbox_inv rows \<Longrightarrow> outbox_inv (expire_final cutoff now rows)"
  unfolding expire_final_def
  by (rule outbox_inv_update) (auto simp: outbox_inv_def row_ok_def lease_expired_final_def active_key_def)

lemma mark_succeeded_inv: "outbox_inv rows \<Longrightarrow> outbox_inv (snd (mark_succeeded now event_id token rows))"
  unfolding mark_succeeded_def snd_conv
  by (rule outbox_inv_update) (auto simp: outbox_inv_def row_ok_def holds_lease_def active_key_def)

lemma mark_failed_inv:
  assumes "outbox_inv rows" and "\<And>r. r \<in> set rows \<Longrightarrow> ob_id r = event_id \<Longrightarrow> ob_max_attempts r = max_attempts"
  shows "outbox_inv (snd (mark_failed now event_id token attempts max_attempts failure error rows))"
  unfolding mark_failed_def failure_disposition_def Let_def prod.case snd_conv
  by (rule outbox_inv_update [OF assms(1)])
    (use assms in \<open>auto simp: outbox_inv_def row_ok_def holds_lease_def active_key_def\<close>)

section \<open>Claims\<close>

lemma claim_ids_distinct: "distinct (map ob_id rows) \<Longrightarrow> distinct (claim_ids now cutoff limit rows)"
proof -
  assume d: "distinct (map ob_id rows)"
  let ?e = "filter (claimable now cutoff) rows"
  have "distinct (map ob_id (sort_key f ?e))" for f :: "outbox_row \<Rightarrow> nat \<times> int \<times> int \<times> string"
    using d by (auto simp: distinct_map intro: inj_on_subset)
  then show ?thesis
    by (simp add: claim_ids_def limited_def Let_def distinct_take flip: take_map)
qed

lemma claim_ids_claimable:
  assumes "k \<in> set (claim_ids now cutoff limit rows)"
  obtains r where "r \<in> set rows" and "ob_id r = k" and "claimable now cutoff r"
  using assms by (auto simp: claim_ids_def limited_def Let_def dest!: in_set_takeD split: if_splits)

lemma lease_events_rows:
  assumes "lease_events ch T now token ids rows = Ok (events, rows')" and "distinct ids"
  shows "rows' = update_where (\<lambda>r. ob_id r \<in> set ids) (lease_row now token) rows"
  using assms
proof (induction ids arbitrary: rows events)
  case (Cons k ids)
  let ?rows = "update_where (\<lambda>r. ob_id r = k) (lease_row now token) rows"
  obtain events' where "lease_events ch T now token ids ?rows = Ok (events', rows')"
    using Cons.prems(1) by (auto simp: Let_def rbind_Inr_iff)
  with Cons have "rows' = update_where (\<lambda>r. ob_id r \<in> set ids) (lease_row now token) ?rows" by auto
  with Cons.prems(2) show ?case by (auto simp: update_where_def lease_row_def)
qed (simp add: update_where_def)

lemma claim_batch_inv:
  assumes "outbox_inv rows" and "claim_batch ch T now uuid worker limit lease rows = Ok (events, rows')"
  shows "outbox_inv rows'"
proof -
  define cutoff where "cutoff = saturating_sub now (min (int lease) i64_max)"
  let ?rows = "expire_final cutoff now rows"
  have inv: "outbox_inv ?rows" using assms(1) by (rule expire_final_inv)
  then have d: "distinct (map ob_id ?rows)" by (simp add: outbox_inv_def)
  have "rows' = update_where (\<lambda>r. ob_id r \<in> set (claim_ids now cutoff limit ?rows))
      (lease_row now (worker @ '':'' @ uuid)) ?rows"
    using assms(2) claim_ids_distinct [OF d]
    by (intro lease_events_rows) (auto simp: claim_batch_def Let_def cutoff_def)
  moreover have "outbox_inv \<dots>"
  proof (rule outbox_inv_update [OF inv])
    fix r assume r: "r \<in> set ?rows" and "ob_id r \<in> set (claim_ids now cutoff limit ?rows)"
    then obtain s where "s \<in> set ?rows" "ob_id s = ob_id r" "claimable now cutoff s"
      by (blast elim: claim_ids_claimable)
    with r d have "claimable now cutoff r" by (auto simp: distinct_map dest: inj_onD)
    moreover have "row_ok r" using inv r by (simp add: outbox_inv_def)
    ultimately show "ob_id (lease_row now (worker @ '':'' @ uuid) r) = ob_id r
        \<and> row_ok (lease_row now (worker @ '':'' @ uuid) r)
        \<and> (active_key (lease_row now (worker @ '':'' @ uuid) r) = None
           \<or> active_key (lease_row now (worker @ '':'' @ uuid) r) = active_key r)"
      by (auto simp: claimable_def row_ok_def lease_row_def active_key_def)
  qed
  ultimately show ?thesis by simp
qed

lemma worker_claim_cases:
  "(\<exists>e. worker_claim ch T now uuid worker limit lease rows = (Err e, rows))
   \<or> (\<exists>events res rows'. claim_batch ch T now uuid worker limit lease rows = Ok (events, rows')
        \<and> worker_claim ch T now uuid worker limit lease rows = (res, rows')
        \<and> (\<forall>es. res = Ok es \<longrightarrow> es = events))"
  by (auto simp: worker_claim_def split: sum.splits)

section \<open>Every operation keeps the invariant\<close>

lemma replay_update_inv:
  assumes "outbox_inv rows" and "index_ok (update_where p (replay_row now) rows)"
  shows "outbox_inv (update_where p (replay_row now) rows)"
proof -
  have "map ob_id (update_where p (replay_row now) rows) = map ob_id rows"
    by (auto simp: update_where_def replay_row_def)
  moreover have "\<forall>r \<in> set (update_where p (replay_row now) rows). row_ok r"
    using assms(1) by (auto simp: set_update_where outbox_inv_def row_ok_def replay_row_def)
  ultimately show ?thesis using assms by (simp add: outbox_inv_def)
qed

lemma replay_ids_inv:
  "outbox_inv rows \<Longrightarrow> replay_ids now tenant ids rows n = Ok (m, rows') \<Longrightarrow> outbox_inv rows'"
proof (induction ids arbitrary: rows n)
  case (Cons k ids)
  let ?p = "\<lambda>r. ob_tenant_id r = tenant \<and> ob_id r = k \<and> ob_status r = ''dead_letter''"
  let ?rows = "update_where ?p (replay_row now) rows"
  have "index_ok ?rows" "replay_ids now tenant ids ?rows (n + count_where ?p rows) = Ok (m, rows')"
    using Cons.prems(2) by (auto simp: Let_def split: if_splits)
  then show ?case using Cons.IH Cons.prems(1) replay_update_inv by blast
qed simp

lemma replay_request_inv:
  assumes "outbox_inv rows" and "replay_request now ctx ids replay_all rows = Ok (n, rows')"
  shows "outbox_inv rows'"
proof -
  obtain sel where "replay_dead_letters now (tc_tenant_id ctx) sel rows = Ok (n, rows')"
    using assms(2)
    by (auto simp: replay_request_def Let_def rbind_Inr_iff persistence_def split: if_splits sum.splits)
  then show ?thesis
    using assms(1) replay_ids_inv [OF assms(1)] replay_update_inv [OF assms(1)]
    by (auto simp: replay_dead_letters_def Let_def split: option.splits if_splits)
qed

lemma insert_or_ignore_inv: "outbox_inv rows \<Longrightarrow> row_ok r \<Longrightarrow> outbox_inv (snd (insert_or_ignore r rows))"
  by (auto simp: insert_or_ignore_def outbox_inv_def)

lemma enqueue_inv:
  assumes "enqueue_actions_in_transaction S T now actions rows = Ok (n, rows')" and "outbox_inv rows"
  shows "outbox_inv rows'"
  using assms
proof (induction actions arbitrary: rows n)
  case (Cons a actions)
  obtain uuid action where a: "a = (uuid, action)" by (cases a)
  obtain event payload where e: "outbox_event_for_action S uuid action = Ok event" "to_text T (ne_payload event) = Ok payload"
    using Cons.prems(1) a by (auto split: sum.splits)
  let ?r = "pending_row now event payload"
  obtain m where m: "enqueue_actions_in_transaction S T now actions (snd (insert_or_ignore ?r rows)) = Ok (m, rows')"
    using Cons.prems(1) a e by (auto simp: rbind_Inr_iff split: prod.splits)
  have "row_ok ?r" by (simp add: row_ok_def pending_row_def)
  with Cons.IH [OF m] insert_or_ignore_inv [OF Cons.prems(2)] show ?case by simp
qed simp

lemma outbox_apply_inv:
  assumes "outbox_inv rows" and "op_ok ch rows op"
  shows "outbox_inv (outbox_apply S ch T op rows)"
proof (cases op)
  case (Enqueue now actions)
  then show ?thesis using assms(1) enqueue_inv by (auto split: sum.splits)
next
  case (Claim now uuid worker limit lease)
  then show ?thesis
    using worker_claim_cases [of ch T now uuid worker limit lease rows] assms(1) claim_batch_inv by auto
next
  case (Succeeded now event)
  then show ?thesis
    using assms(1) mark_succeeded_inv [OF assms(1)]
    by (auto simp: worker_succeeded_def Let_def case_prod_beta split: option.splits)
next
  case (Failed now event failure error)
  then show ?thesis
    using assms mark_failed_inv [OF assms(1)]
    by (auto simp: op_ok_def worker_failed_def Let_def case_prod_beta split: option.splits)
next
  case (Replay now ctx ids replay_all)
  then show ?thesis using assms(1) replay_request_inv by (auto split: sum.splits)
qed

lemma reachable_inv: "outbox_reachable S ch T rows \<Longrightarrow> outbox_inv rows"
proof (induction rule: outbox_reachable.induct)
  case empty
  show ?case by (simp add: outbox_inv_def index_ok_def List.map_filter_simps)
qed (rule outbox_apply_inv)

text \<open>
  C7. Every history of enqueueing, claiming, settling and replaying keeps the outbox consistent:
  identifiers are unique, no two unsettled events carry the same idempotency key of a tenant and
  type, no event is attempted more often than allowed, one that waits for a retry has attempts
  left, and an event is leased exactly while it is being processed.
\<close>

theorem outbox_history_consistent:
  assumes "outbox_reachable S ch T rows"
  shows "distinct (map ob_id rows) \<and> distinct (List.map_filter active_key rows)
    \<and> list_all (\<lambda>r. 0 \<le> ob_attempts r \<and> ob_attempts r \<le> ob_max_attempts r
        \<and> (if ob_status r \<in> {''pending'', ''failed''} then ob_attempts r < ob_max_attempts r else True)
        \<and> (ob_status r = ''processing'' \<longleftrightarrow> ob_locked_by r \<noteq> None)
        \<and> (ob_locked_by r = None \<longleftrightarrow> ob_locked_at r = None)) rows"
  using reachable_inv [OF assms]
  by (auto simp: outbox_inv_def index_ok_def list_all_iff row_ok_def)

section \<open>A sample history\<close>

definition sample_text :: text_api where
  "sample_text = \<lparr>to_text = (\<lambda>_. Ok ''null''), from_text = (\<lambda>_. Ok JNull)\<rparr>"

definition sample_event :: outbox_event_record where
  "sample_event = \<lparr>oe_claim_token = Some ''w:u'', oe_id = ''e'', oe_tenant_id = ''t'',
     oe_event_type = ''rule.create_alert'', oe_aggregate_type = ''alert'', oe_aggregate_id = ''r:d'',
     oe_payload = JNull, oe_attempts = 1, oe_max_attempts = 10, oe_last_error = None,
     oe_created_at = 1, oe_updated_at = 2\<rparr>"

definition sample_history :: "outbox_op list" where
  "sample_history =
     [Enqueue 1000000 [(''e'', sample_alert)],
      Claim 2000000 ''u'' ''w'' 5 60000000,
      Failed 3000000 sample_event Permanent ''refused'',
      Enqueue 4000000 [(''f'', sample_alert)],
      Claim 5000000 ''u'' ''w'' 5 60000000,
      Failed 6000000 (sample_event\<lparr>oe_id := ''f''\<rparr>) Permanent ''refused'']"

definition sample_outbox :: "nat \<Rightarrow> outbox_row list" where
  "sample_outbox n = run_ops sample_serde sample_micros sample_text (take n sample_history) []"

lemma sample_outbox_reachable:
  assumes "ops_ok sample_serde sample_micros sample_text (take n sample_history) []"
  shows "outbox_reachable sample_serde sample_micros sample_text (sample_outbox n)"
  unfolding sample_outbox_def by (rule run_ops_reachable [OF outbox_reachable.empty assms])

theorem outbox_history_consistent_witness:
  "map ob_status (sample_outbox 6) = [''dead_letter'', ''dead_letter''] \<and> distinct (map ob_id (sample_outbox 6))"
proof -
  have "ops_ok sample_serde sample_micros sample_text (take 6 sample_history) []" by code_simp
  then have "distinct (map ob_id (sample_outbox 6))"
    using outbox_history_consistent [OF sample_outbox_reachable] by blast
  moreover have "map ob_status (sample_outbox 6) = [''dead_letter'', ''dead_letter'']" by code_simp
  ultimately show ?thesis by blast
qed

end
