(* ===== verification/Outbox_Delivery.thy ===== *)
theory Outbox_Delivery
  imports Outbox_Protocol
begin

text \<open>
  What the outbox promises its workers and operators: a lease is settled at most once, a claim
  serves every tenant and delivers every event that is due, and what replaying dead letters can
  run into.
\<close>

section \<open>Where the rows of a table come from\<close>

fun op_token :: "outbox_op \<Rightarrow> string option" where
  "op_token (Claim now uuid worker limit lease) = Some (worker @ '':'' @ uuid)"
| "op_token _ = None"

definition derived :: "int \<Rightarrow> string option \<Rightarrow> outbox_row \<Rightarrow> outbox_row \<Rightarrow> bool" where
  "derived now token r r' \<longleftrightarrow> ob_id r' = ob_id r \<and> ob_tenant_id r' = ob_tenant_id r
     \<and> ob_payload r' = ob_payload r \<and> ob_max_attempts r' = ob_max_attempts r
     \<and> ob_created_at r' = ob_created_at r \<and> ob_updated_at r' \<in> {ob_updated_at r, now}
     \<and> (ob_locked_by r' \<in> {ob_locked_by r, None, token})"

definition table_derived :: "int \<Rightarrow> string option \<Rightarrow> outbox_row list \<Rightarrow> outbox_row list \<Rightarrow> bool" where
  "table_derived now token rows rows' \<longleftrightarrow> (\<forall>r' \<in> set rows'. \<exists>r \<in> set rows. derived now token r r')"

lemma derived_refl [simp]: "derived now token r r"
  by (simp add: derived_def)

lemma table_derived_refl [simp]: "table_derived now token rows rows"
  by (auto simp: table_derived_def intro: derived_refl)

lemma table_derived_trans:
  assumes "table_derived now token rows rows'" and "table_derived now token rows' rows''"
  shows "table_derived now token rows rows''"
proof -
  have "derived now token r s \<Longrightarrow> derived now token s t \<Longrightarrow> derived now token r t" for r s t
    by (auto simp: derived_def)
  with assms show ?thesis unfolding table_derived_def by blast
qed

lemma table_derived_update:
  "(\<And>r. derived now token r (f r)) \<Longrightarrow> table_derived now token rows (update_where p f rows)"
  by (auto simp: table_derived_def set_update_where intro: derived_refl)

lemma replay_ids_derived:
  "replay_ids now tenant ids rows n = Ok (m, rows') \<Longrightarrow> table_derived now token rows rows'"
proof (induction ids arbitrary: rows n)
  case (Cons k ids)
  let ?p = "\<lambda>r. ob_tenant_id r = tenant \<and> ob_id r = k \<and> ob_status r = ''dead_letter''"
  let ?rows = "update_where ?p (replay_row now) rows"
  have "replay_ids now tenant ids ?rows (n + count_where ?p rows) = Ok (m, rows')"
    using Cons.prems by (auto simp: Let_def split: if_splits)
  moreover have "table_derived now token rows ?rows"
    by (rule table_derived_update) (simp add: derived_def replay_row_def)
  ultimately show ?case using Cons.IH table_derived_trans by blast
qed simp

lemma replay_request_derived:
  assumes "replay_request now ctx ids replay_all rows = Ok (n, rows')"
  shows "table_derived now token rows rows'"
proof -
  obtain sel where "replay_dead_letters now (tc_tenant_id ctx) sel rows = Ok (n, rows')"
    using assms
    by (auto simp: replay_request_def Let_def rbind_Inr_iff persistence_def split: if_splits sum.splits)
  moreover have "table_derived now token rows (update_where p (replay_row now) rows)" for p
    by (rule table_derived_update) (simp add: derived_def replay_row_def)
  ultimately show ?thesis
    using replay_ids_derived
    by (auto simp: replay_dead_letters_def Let_def split: option.splits if_splits)
qed

lemma lease_events_derived:
  "lease_events ch T now token ids rows = Ok (events, rows') \<Longrightarrow> table_derived now (Some token) rows rows'"
proof (induction ids arbitrary: rows events)
  case (Cons k ids)
  let ?rows = "update_where (\<lambda>r. ob_id r = k) (lease_row now token) rows"
  obtain events' where "lease_events ch T now token ids ?rows = Ok (events', rows')"
    using Cons.prems by (auto simp: Let_def rbind_Inr_iff)
  moreover have "table_derived now (Some token) rows ?rows"
    by (rule table_derived_update) (simp add: derived_def lease_row_def)
  ultimately show ?case using Cons.IH table_derived_trans by blast
qed simp

lemma expire_final_derived: "table_derived now token rows (expire_final cutoff now rows)"
  unfolding expire_final_def by (rule table_derived_update) (simp add: derived_def)

lemma claim_batch_derived:
  assumes "claim_batch ch T now uuid worker limit lease rows = Ok (events, rows')"
  shows "table_derived now (Some (worker @ '':'' @ uuid)) rows rows'"
proof -
  have "table_derived now (Some (worker @ '':'' @ uuid))
      (expire_final (saturating_sub now (min (int lease) i64_max)) now rows) rows'"
    using assms by (intro lease_events_derived) (simp add: claim_batch_def Let_def)
  then show ?thesis using expire_final_derived table_derived_trans by blast
qed

lemma enqueue_rows:
  assumes "enqueue_actions_in_transaction S T now actions rows = Ok (n, rows')" and "r' \<in> set rows'"
  shows "r' \<in> set rows
     \<or> (\<exists>event payload. r' = pending_row now event payload \<and> to_text T (ne_payload event) = Ok payload)"
  using assms
proof (induction actions arbitrary: rows n)
  case (Cons a actions)
  obtain uuid action where a: "a = (uuid, action)" by (cases a)
  obtain event payload where e: "outbox_event_for_action S uuid action = Ok event" "to_text T (ne_payload event) = Ok payload"
    using Cons.prems(1) a by (auto split: sum.splits)
  let ?rows = "snd (insert_or_ignore (pending_row now event payload) rows)"
  obtain m where "enqueue_actions_in_transaction S T now actions ?rows = Ok (m, rows')"
    using Cons.prems(1) a e by (auto simp: rbind_Inr_iff split: prod.splits)
  from Cons.IH [OF this Cons.prems(2)] e(2) show ?case by (auto simp: insert_or_ignore_def split: if_splits)
qed simp

lemma settle_derived:
  "table_derived now token rows (snd (worker_succeeded now event rows))"
  "table_derived now token rows (snd (worker_failed now event failure error rows))"
  by (auto simp: worker_succeeded_def mark_succeeded_def worker_failed_def mark_failed_def derived_def
      case_prod_beta Let_def split: option.splits intro!: table_derived_update)

lemma outbox_apply_derived:
  assumes "\<And>now actions. op \<noteq> Enqueue now actions"
  shows "table_derived (op_time op) (op_token op) rows (outbox_apply S ch T op rows)"
proof (cases op)
  case (Claim now uuid worker limit lease)
  then show ?thesis
    using worker_claim_cases [of ch T now uuid worker limit lease rows] claim_batch_derived by auto
next
  case (Replay now ctx ids replay_all)
  then show ?thesis using replay_request_derived by (auto split: sum.splits)
qed (use assms in \<open>simp_all add: settle_derived\<close>)

lemma outbox_apply_rows:
  assumes "r' \<in> set (outbox_apply S ch T op rows)"
  shows "(\<exists>r \<in> set rows. derived (op_time op) (op_token op) r r')
     \<or> (\<exists>event payload. r' = pending_row (op_time op) event payload \<and> to_text T (ne_payload event) = Ok payload)"
proof (cases "\<exists>now actions. op = Enqueue now actions")
  case True
  then obtain now actions where op: "op = Enqueue now actions" by blast
  then have "r' \<in> set rows
     \<or> (\<exists>event payload. r' = pending_row now event payload \<and> to_text T (ne_payload event) = Ok payload)"
    using assms enqueue_rows by (force split: sum.splits)
  with op show ?thesis by (auto intro: bexI [where x = r'])
next
  case False
  then have "table_derived (op_time op) (op_token op) rows (outbox_apply S ch T op rows)"
    by (intro outbox_apply_derived) auto
  with assms show ?thesis by (simp add: table_derived_def)
qed

section \<open>Leases\<close>

text \<open>A worker settles a claimed event with an outcome: success, or a failure and its message.\<close>

definition settle ::
  "int \<Rightarrow> outbox_event_record \<Rightarrow> (failure_class \<times> string) option \<Rightarrow> outbox_row list
     \<Rightarrow> (application_error, bool) result \<times> outbox_row list" where
  "settle now event outcome rows = (case outcome of
      None \<Rightarrow> worker_succeeded now event rows
    | Some (failure, error) \<Rightarrow> worker_failed now event failure error rows)"

definition lease_lost :: "string \<Rightarrow> string \<Rightarrow> outbox_row list \<Rightarrow> bool" where
  "lease_lost event_id token rows \<longleftrightarrow> list_all (\<lambda>r. ob_id r = event_id \<longrightarrow> ob_locked_by r \<noteq> Some token) rows"

lemma lease_lost_apply:
  assumes "lease_lost event_id token rows" and "op_token op \<noteq> Some token"
  shows "lease_lost event_id token (outbox_apply S ch T op rows)"
  unfolding lease_lost_def list_all_iff
proof (intro ballI impI)
  fix r' assume "r' \<in> set (outbox_apply S ch T op rows)" and id: "ob_id r' = event_id"
  from this(1) show "ob_locked_by r' \<noteq> Some token"
    using outbox_apply_rows
  proof (elim outbox_apply_rows [THEN disjE])
    assume "\<exists>r \<in> set rows. derived (op_time op) (op_token op) r r'"
    with assms id show ?thesis by (fastforce simp: derived_def lease_lost_def list_all_iff)
  qed (auto simp: pending_row_def)
qed

lemma lease_lost_run_ops:
  "lease_lost event_id token rows \<Longrightarrow> list_all (\<lambda>op. op_token op \<noteq> Some token) ops
     \<Longrightarrow> lease_lost event_id token (run_ops S ch T ops rows)"
  by (induction ops arbitrary: rows) (simp_all add: lease_lost_apply)

lemma update_where_none: "count_where p rows = 0 \<Longrightarrow> update_where p f rows = rows"
  by (auto simp: count_where_def update_where_def filter_empty_conv intro: map_idI)

lemma settle_without_lease:
  assumes "lease_lost (oe_id event) token rows" and "oe_claim_token event = Some token"
  shows "settle now event outcome rows = (Ok False, rows)"
proof -
  have none: "count_where (holds_lease (oe_id event) token) rows = 0"
    and none': "count_where (\<lambda>r. holds_lease (oe_id event) token r \<and> ob_attempts r = n) rows = 0" for n
    using assms(1) by (auto simp: count_where_def filter_empty_conv lease_lost_def list_all_iff holds_lease_def)
  show ?thesis
    by (simp add: settle_def worker_succeeded_def worker_failed_def mark_succeeded_def mark_failed_def
        assms(2) none none' update_where_none Let_def case_prod_beta split: option.splits)
qed

lemma update_releases_lease:
  assumes "distinct (map ob_id rows)" and "count_where p rows = 1"
    and "\<And>r. p r \<Longrightarrow> ob_id r = event_id" and "\<And>r. ob_id (f r) = ob_id r \<and> ob_locked_by (f r) = None"
  shows "lease_lost event_id token (update_where p f rows)"
proof -
  have "filter p rows \<noteq> []" using assms(2) by (auto simp: count_where_def)
  then obtain r where r: "r \<in> set rows" "p r" by (auto simp: filter_empty_conv)
  have "s = r" if "s \<in> set rows" "ob_id s = event_id" for s
    using assms(1,3) r that by (auto simp: distinct_map dest: inj_onD)
  with r(2) assms(4) show ?thesis by (auto simp: lease_lost_def list_all_iff set_update_where)
qed

lemma settled_loses_lease:
  assumes "distinct (map ob_id rows)" and "oe_claim_token event = Some token"
    and "fst (settle now event outcome rows) = Ok True"
  shows "lease_lost (oe_id event) token (snd (settle now event outcome rows))"
  using assms(2,3)
  by (auto simp: settle_def worker_succeeded_def worker_failed_def mark_succeeded_def mark_failed_def
      Let_def case_prod_beta holds_lease_def split: option.splits
      intro!: update_releases_lease [OF assms(1)])

text \<open>
  C5. A lease is settled at most once: after a worker has settled an event, successfully or not,
  settling it again under the same lease is refused and changes nothing, whatever enqueueing,
  claiming, settling and replaying happens in between, as long as no claim draws the same token.
\<close>

theorem lease_settles_at_most_once:
  assumes "outbox_reachable S ch T rows" and "oe_claim_token event = Some token"
    and "settle now event outcome rows = (Ok True, rows')"
    and "list_all (\<lambda>op. op_token op \<noteq> Some token) ops"
  shows "settle later event outcome' (run_ops S ch T ops rows') = (Ok False, run_ops S ch T ops rows')"
proof -
  have "distinct (map ob_id rows)" using reachable_inv [OF assms(1)] by (simp add: outbox_inv_def)
  then have "lease_lost (oe_id event) token rows'" using settled_loses_lease [OF _ assms(2), of rows now outcome] assms(3) by simp
  then show ?thesis using settle_without_lease lease_lost_run_ops assms(2,4) by blast
qed

theorem lease_settles_at_most_once_witness:
  "fst (settle 3000000 sample_event None (sample_outbox 2)) = Ok True
   \<and> fst (settle 6000000 sample_event (Some (Retryable, ''late''))
        (run_ops sample_serde sample_micros sample_text
          [Enqueue 4000000 [(''f'', sample_alert)], Claim 5000000 ''v'' ''w'' 5 60000000]
          (snd (settle 3000000 sample_event None (sample_outbox 2))))) = Ok False"
proof -
  have ok: "ops_ok sample_serde sample_micros sample_text (take 2 sample_history) []" by code_simp
  have settled: "fst (settle 3000000 sample_event None (sample_outbox 2)) = Ok True" by code_simp
  then have pair: "settle 3000000 sample_event None (sample_outbox 2)
      = (Ok True, snd (settle 3000000 sample_event None (sample_outbox 2)))" by (metis prod.collapse)
  have token: "oe_claim_token sample_event = Some ''w:u''" by (simp add: sample_event_def)
  show ?thesis
    using settled lease_settles_at_most_once [OF sample_outbox_reachable [OF ok] token pair,
        of "[Enqueue 4000000 [(''f'', sample_alert)], Claim 5000000 ''v'' ''w'' 5 60000000]"]
    by simp
qed

section \<open>Claims deliver what is due\<close>

text \<open>Rows that decode, given a serializer whose output can be read.\<close>

definition reads_what_it_writes :: "text_api \<Rightarrow> bool" where
  "reads_what_it_writes T \<longleftrightarrow> (\<forall>v s. to_text T v = Ok s \<longrightarrow> (\<exists>w. from_text T s = Ok w))"

definition row_readable :: "micros_api \<Rightarrow> text_api \<Rightarrow> outbox_row \<Rightarrow> bool" where
  "row_readable ch T r \<longleftrightarrow> (\<exists>w. from_text T (ob_payload r) = Ok w) \<and> ob_max_attempts r = 10
     \<and> readable_time ch (ob_created_at r) \<and> readable_time ch (ob_updated_at r)"

lemma reachable_readable:
  assumes "outbox_reachable S ch T rows" and "reads_what_it_writes T"
  shows "\<forall>r \<in> set rows. row_readable ch T r"
  using assms(1)
proof induction
  case (step rows op)
  show ?case
  proof
    fix r' assume "r' \<in> set (outbox_apply S ch T op rows)"
    then show "row_readable ch T r'"
    proof (elim outbox_apply_rows [THEN disjE])
      assume "\<exists>r \<in> set rows. derived (op_time op) (op_token op) r r'"
      with step show ?thesis by (auto simp: derived_def row_readable_def op_ok_def)
    next
      assume "\<exists>event payload. r' = pending_row (op_time op) event payload \<and> to_text T (ne_payload event) = Ok payload"
      with step.hyps assms(2) show ?thesis
        by (auto simp: pending_row_def row_readable_def op_ok_def reads_what_it_writes_def)
    qed
  qed
qed simp

lemma decode_row_readable:
  assumes "row_readable ch T r" and "0 \<le> ob_attempts r" and "ob_attempts r \<le> ob_max_attempts r"
  obtains e where "decode_row ch T r = Ok e"
  using assms
  by (auto simp: decode_row_def row_readable_def readable_time_def row_i32_def rbind_Inr_iff split: sum.splits)

lemma find_by_id: "distinct (map ob_id rows) \<Longrightarrow> r \<in> set rows \<Longrightarrow> find (\<lambda>s. ob_id s = ob_id r) rows = Some r"
  by (induction rows) (auto simp: rev_image_eqI)

lemma map_ob_id_update: "(\<And>r. ob_id (f r) = ob_id r) \<Longrightarrow> map ob_id (update_where p f rows) = map ob_id rows"
  by (simp add: update_where_def)

lemma lease_events_deliver:
  assumes "distinct (map ob_id rows)" and "distinct ids"
    and "\<And>k. k \<in> set ids \<Longrightarrow> \<exists>r \<in> set rows. ob_id r = k \<and> (\<exists>e. decode_row ch T (lease_row now token r) = Ok e)"
  shows "\<exists>events. lease_events ch T now token ids rows
        = Ok (events, update_where (\<lambda>r. ob_id r \<in> set ids) (lease_row now token) rows)
      \<and> list_all2 (\<lambda>k e. \<exists>r \<in> set rows. ob_id r = k \<and> decode_row ch T (lease_row now token r) = Ok e) ids events"
  using assms
proof (induction ids arbitrary: rows)
  case (Cons k ids)
  let ?rows = "update_where (\<lambda>r. ob_id r = k) (lease_row now token) rows"
  have ids: "map ob_id ?rows = map ob_id rows" by (rule map_ob_id_update) (simp add: lease_row_def)
  obtain r e where r: "r \<in> set rows" "ob_id r = k" "decode_row ch T (lease_row now token r) = Ok e"
    using Cons.prems(3) [of k] by auto
  then have "lease_row now token r \<in> set ?rows" by (auto simp: set_update_where)
  then have "find (\<lambda>s. ob_id s = k) ?rows = Some (lease_row now token r)"
    using find_by_id [of ?rows "lease_row now token r"] Cons.prems(1) r(2) ids by (simp add: lease_row_def)
  with r(3) have found: "by_id ch T ?rows k = Ok e" by (simp add: by_id_def)
  have kept: "s \<in> set ?rows \<longleftrightarrow> s \<in> set rows" if "ob_id s \<noteq> k" for s
    using that by (auto simp: set_update_where lease_row_def)
  have "\<exists>events. lease_events ch T now token ids ?rows
        = Ok (events, update_where (\<lambda>r. ob_id r \<in> set ids) (lease_row now token) ?rows)
      \<and> list_all2 (\<lambda>k e. \<exists>r \<in> set ?rows. ob_id r = k \<and> decode_row ch T (lease_row now token r) = Ok e) ids events"
  proof (rule Cons.IH)
    fix j assume j: "j \<in> set ids"
    with Cons.prems(2) have "j \<noteq> k" by auto
    with Cons.prems(3) [of j] j kept
    show "\<exists>r \<in> set ?rows. ob_id r = j \<and> (\<exists>e. decode_row ch T (lease_row now token r) = Ok e)" by auto
  qed (use Cons.prems ids in simp_all)
  then obtain events where ev: "lease_events ch T now token ids ?rows
        = Ok (events, update_where (\<lambda>r. ob_id r \<in> set ids) (lease_row now token) ?rows)"
    and all: "list_all2 (\<lambda>k e. \<exists>r \<in> set ?rows. ob_id r = k \<and> decode_row ch T (lease_row now token r) = Ok e) ids events"
    by blast
  have "list_all2 (\<lambda>k e. \<exists>r \<in> set rows. ob_id r = k \<and> decode_row ch T (lease_row now token r) = Ok e) ids events"
    using all
  proof (rule list.rel_mono_strong)
    fix j e assume j: "j \<in> set ids" and e: "\<exists>r \<in> set ?rows. ob_id r = j \<and> decode_row ch T (lease_row now token r) = Ok e"
    from j Cons.prems(2) have "j \<noteq> k" by auto
    with e kept show "\<exists>r \<in> set rows. ob_id r = j \<and> decode_row ch T (lease_row now token r) = Ok e" by blast
  qed
  moreover have "update_where (\<lambda>r. ob_id r \<in> set ids) (lease_row now token) ?rows
      = update_where (\<lambda>r. ob_id r \<in> set (k # ids)) (lease_row now token) rows"
    using Cons.prems(2) by (auto simp: update_where_def lease_row_def)
  ultimately show ?case using r ev by (auto simp: found Let_def)
qed (simp add: update_where_def)

lemma decoded_lease:
  "decode_row ch T (lease_row now token r) = Ok e
     \<Longrightarrow> oe_id e = ob_id r \<and> oe_attempts e = ob_attempts r + 1 \<and> oe_claim_token e = Some token"
  by (auto simp: decode_row_def rbind_Inr_iff lease_row_def row_i32_def split: if_splits)

lemma set_claim_ids:
  assumes "int (length rows) \<le> limit"
  shows "set (claim_ids now cutoff limit rows) = ob_id ` {r \<in> set rows. claimable now cutoff r}"
proof -
  have "length (filter (claimable now cutoff) rows) \<le> nat limit"
    using assms length_filter_le [of "claimable now cutoff" rows] by linarith
  then show ?thesis using assms by (auto simp: claim_ids_def limited_def Let_def)
qed

lemma worker_claim_delivers:
  assumes "outbox_reachable S ch T rows" and "reads_what_it_writes T" and "readable_time ch now"
    and "worker \<noteq> []" and "0 < limit" and "0 < lease" and "int lease \<le> i64_max"
    and cutoff: "cutoff = saturating_sub now (int lease)"
    and ids: "ids = claim_ids now cutoff limit (expire_final cutoff now rows)"
    and token: "token = worker @ '':'' @ uuid"
  shows "\<exists>events. worker_claim ch T now uuid worker limit lease rows
        = (Ok events, update_where (\<lambda>r. ob_id r \<in> set ids) (lease_row now token) (expire_final cutoff now rows))
      \<and> list_all2 (\<lambda>k e. \<exists>r \<in> set (expire_final cutoff now rows). ob_id r = k
           \<and> decode_row ch T (lease_row now token r) = Ok e) ids events"
proof -
  let ?rows = "expire_final cutoff now rows"
  have inv: "outbox_inv ?rows" using assms(1) by (intro expire_final_inv reachable_inv)
  have d: "distinct (map ob_id ?rows)" using inv by (simp add: outbox_inv_def)
  have decodes: "\<exists>e. decode_row ch T (lease_row now token r) = Ok e"
    if r: "r \<in> set ?rows" and c: "claimable now cutoff r" for r
  proof -
    obtain s where s: "s \<in> set rows" "derived now None s r"
      using r expire_final_derived unfolding table_derived_def by blast
    have "row_readable ch T s" using reachable_readable [OF assms(1,2)] s(1) by blast
    with s(2) assms(3) have "row_readable ch T (lease_row now token r)"
      by (simp add: row_readable_def lease_row_def derived_def)
    moreover have "0 \<le> ob_attempts r" "ob_attempts r < ob_max_attempts r"
      using inv r c by (auto simp: outbox_inv_def row_ok_def claimable_def)
    ultimately show ?thesis by (elim decode_row_readable) (auto simp: lease_row_def)
  qed
  have "\<exists>events. lease_events ch T now token ids ?rows
        = Ok (events, update_where (\<lambda>r. ob_id r \<in> set ids) (lease_row now token) ?rows)
      \<and> list_all2 (\<lambda>k e. \<exists>r \<in> set ?rows. ob_id r = k \<and> decode_row ch T (lease_row now token r) = Ok e) ids events"
  proof (rule lease_events_deliver [OF d])
    show "distinct ids" unfolding ids using d by (rule claim_ids_distinct)
    show "\<exists>r \<in> set ?rows. ob_id r = k \<and> (\<exists>e. decode_row ch T (lease_row now token r) = Ok e)"
      if "k \<in> set ids" for k
      using that decodes unfolding ids by (blast elim: claim_ids_claimable)
  qed
  then obtain events where ev: "claim_batch ch T now uuid worker limit lease rows
        = Ok (events, update_where (\<lambda>r. ob_id r \<in> set ids) (lease_row now token) ?rows)"
    and all: "list_all2 (\<lambda>k e. \<exists>r \<in> set ?rows. ob_id r = k \<and> decode_row ch T (lease_row now token r) = Ok e) ids events"
    using assms(7) by (auto simp: claim_batch_def Let_def ids token cutoff min_absorb1)
  have "oe_claim_token e = Some token" if "e \<in> set events" for e
    using all that decoded_lease by (fastforce simp: list_all2_conv_all_nth in_set_conv_nth)
  then have "\<not> (\<exists>e \<in> set events. is_none_or (\<lambda>t. t = []) (oe_claim_token e))"
    using assms(4) by (auto simp: token)
  then show ?thesis using ev all assms(4-7) by (auto simp: worker_claim_def)
qed

lemma final_attempt_set_aside:
  assumes "outbox_inv rows" and "r \<in> set rows" and "lease_expired_final cutoff r"
  shows "\<exists>r' \<in> set (update_where (\<lambda>r. ob_id r \<in> set (claim_ids now cutoff limit (expire_final cutoff now rows)))
      (lease_row now token) (expire_final cutoff now rows)). ob_id r' = ob_id r \<and> ob_status r' = ''dead_letter''"
proof -
  let ?rows = "expire_final cutoff now rows"
  let ?r = "r\<lparr>ob_status := ''dead_letter'', ob_locked_at := None, ob_locked_by := None,
            ob_last_error := Some ''delivery lease expired after final attempt'', ob_updated_at := now\<rparr>"
  have r: "?r \<in> set ?rows" using assms(2,3) by (force simp: expire_final_def set_update_where)
  have d: "distinct (map ob_id ?rows)" using expire_final_inv [OF assms(1)] by (simp add: outbox_inv_def)
  have "ob_id ?r \<notin> set (claim_ids now cutoff limit ?rows)"
  proof
    assume "ob_id ?r \<in> set (claim_ids now cutoff limit ?rows)"
    then obtain s where "s \<in> set ?rows" "ob_id s = ob_id ?r" "claimable now cutoff s"
      by (rule claim_ids_claimable)
    moreover from this d r have "s = ?r" unfolding distinct_map by (blast dest: inj_onD)
    ultimately show False by (simp add: claimable_def)
  qed
  with r show ?thesis by (auto simp: set_update_where intro!: bexI [where x = ?r])
qed

text \<open>
  C6. No event is stranded: in every reachable table a claim with room for all rows succeeds, and
  an event that has neither succeeded nor been given up is, once its retry delay and its lease
  have run out, handed to the claiming worker under its token with one more attempt counted, or,
  after its last attempt, set aside as a dead letter.
\<close>

theorem no_event_stranded:
  assumes "outbox_reachable S ch T rows" and "reads_what_it_writes T" and "readable_time ch now"
    and "worker \<noteq> []" and "0 < lease" and "int lease \<le> i64_max" and "int (length rows) \<le> limit"
    and "r \<in> set rows" and "ob_status r \<noteq> ''succeeded''" and "ob_status r \<noteq> ''dead_letter''"
    and "ob_available_at r \<le> now" and "is_none_or (\<lambda>t. t \<le> saturating_sub now (int lease)) (ob_locked_at r)"
  shows "\<exists>events rows'. worker_claim ch T now uuid worker limit lease rows = (Ok events, rows')
     \<and> (if ob_attempts r < ob_max_attempts r
        then \<exists>e \<in> set events. oe_id e = ob_id r \<and> oe_attempts e = ob_attempts r + 1
               \<and> oe_claim_token e = Some (worker @ '':'' @ uuid)
        else \<exists>r' \<in> set rows'. ob_id r' = ob_id r \<and> ob_status r' = ''dead_letter'')"
proof -
  define cutoff where "cutoff = saturating_sub now (int lease)"
  define token where "token = worker @ '':'' @ uuid"
  let ?rows = "expire_final cutoff now rows"
  define ids where "ids = claim_ids now cutoff limit ?rows"
  have "0 < limit" using assms(7,8) by (cases rows) auto
  from worker_claim_delivers [OF assms(1-4) this assms(5,6) cutoff_def ids_def token_def]
  obtain events where claim: "worker_claim ch T now uuid worker limit lease rows
        = (Ok events, update_where (\<lambda>r. ob_id r \<in> set ids) (lease_row now token) ?rows)"
    and all: "list_all2 (\<lambda>k e. \<exists>r \<in> set ?rows. ob_id r = k \<and> decode_row ch T (lease_row now token r) = Ok e) ids events"
    by blast
  have "row_ok r" using reachable_inv [OF assms(1)] assms(8) by (simp add: outbox_inv_def)
  have d: "distinct (map ob_id ?rows)"
    using expire_final_inv [OF reachable_inv [OF assms(1)]] by (simp add: outbox_inv_def)
  have due: "set ids = ob_id ` {r \<in> set ?rows. claimable now cutoff r}"
    using assms(7) by (simp add: ids_def set_claim_ids expire_final_def update_where_def)
  have final: "lease_expired_final cutoff r \<longleftrightarrow> \<not> ob_attempts r < ob_max_attempts r"
    using \<open>row_ok r\<close> assms(9-12)
    by (cases "ob_locked_at r") (auto simp: row_ok_def lease_expired_final_def not_after_def cutoff_def)
  show ?thesis
  proof (cases "ob_attempts r < ob_max_attempts r")
    case True
    with final assms(8) have r: "r \<in> set ?rows" by (force simp: expire_final_def set_update_where)
    moreover have "claimable now cutoff r"
      using True \<open>row_ok r\<close> assms(9-12)
      by (cases "ob_locked_at r") (auto simp: row_ok_def claimable_def not_after_def cutoff_def)
    ultimately have "ob_id r \<in> set ids" using due by auto
    then obtain e s where e: "e \<in> set events" "s \<in> set ?rows" "ob_id s = ob_id r"
        "decode_row ch T (lease_row now token s) = Ok e"
      using all by (fastforce simp: list_all2_conv_all_nth in_set_conv_nth)
    have "s = r" using d e(2,3) r by (auto simp: distinct_map dest: inj_onD)
    then show ?thesis using True claim e(1) decoded_lease [OF e(4)] token_def by auto
  next
    case False
    with final_attempt_set_aside [OF reachable_inv [OF assms(1)] assms(8), of cutoff now limit token] final claim
    show ?thesis by (simp add: ids_def)
  qed
qed

lemma sample_text_reads: "reads_what_it_writes sample_text"
  by (simp add: reads_what_it_writes_def sample_text_def)

lemma sample_time_readable: "readable_time sample_micros now"
  by (simp add: readable_time_def row_datetime_def sample_micros_def)

theorem no_event_stranded_witness:
  "\<exists>events rows'. worker_claim sample_micros sample_text 70000000 ''v'' ''w'' 5 60000000 (sample_outbox 2)
       = (Ok events, rows')
     \<and> (\<exists>e \<in> set events. oe_id e = ''e'' \<and> oe_attempts e = 2 \<and> oe_claim_token e = Some ''w:v'')"
proof -
  have ok: "ops_ok sample_serde sample_micros sample_text (take 2 sample_history) []" by code_simp
  let ?r = "lease_row 2000000 ''w:u'' (pending_row 1000000 \<lparr>ne_id = ''e'', ne_tenant_id = ''t'',
     ne_event_type = ''rule.create_alert'', ne_aggregate_type = ''alert'', ne_aggregate_id = ''r:d'',
     ne_idempotency_key = Some ''create-alert:r:d'', ne_payload = JNull\<rparr> ''null'')"
  have rows: "sample_outbox 2 = [?r]" by code_simp
  have cutoff: "saturating_sub 70000000 60000000 = 10000000"
    by (simp add: saturating_sub_def i64_max_def i64_min_def)
  show ?thesis
    using no_event_stranded [OF sample_outbox_reachable [OF ok] sample_text_reads sample_time_readable,
        of "''w''" 60000000 5 ?r 70000000 "''v''"]
    by (simp add: rows cutoff i64_max_def) (simp add: lease_row_def pending_row_def)
qed

section \<open>Claims serve every tenant\<close>

lemma rank_one_iff:
  "tenant_rank E r = 1 \<longleftrightarrow> (\<forall>s \<in> set E. ob_tenant_id s = ob_tenant_id r \<longrightarrow> claim_key r \<le> claim_key s)"
  by (auto simp: tenant_rank_def count_where_def filter_empty_conv not_less)

lemma rank_one_unique:
  assumes "distinct (map ob_id E)" and "r \<in> set E" and "s \<in> set E"
    and "tenant_rank E r = 1" and "tenant_rank E s = 1" and "ob_tenant_id r = ob_tenant_id s"
  shows "r = s"
proof -
  have "claim_key r = claim_key s" using assms(2-6) unfolding rank_one_iff by (simp add: order_antisym)
  then show ?thesis using assms(1-3) by (auto simp: claim_key_def distinct_map dest: inj_onD)
qed

lemma first_of_tenant:
  assumes "r \<in> set E"
  obtains s where "s \<in> set E" and "ob_tenant_id s = ob_tenant_id r" and "tenant_rank E s = 1"
proof -
  let ?M = "{s \<in> set E. ob_tenant_id s = ob_tenant_id r}"
  let ?s = "arg_min_on claim_key ?M"
  have fin: "finite ?M" "?M \<noteq> {}" using assms by auto
  have s: "?s \<in> ?M" using arg_min_if_finite(1) [OF fin] .
  have "claim_key ?s \<le> claim_key x" if "x \<in> ?M" for x
    using arg_min_if_finite(2) [OF fin, of claim_key] that unfolding not_less [symmetric] by blast
  with s have "tenant_rank E ?s = 1" by (simp only: rank_one_iff) auto
  with s show ?thesis using that by blast
qed

lemma sort_key_take_le:
  assumes "x \<in> set (take n (sort_key f xs))" and "y \<in> set xs" and "y \<notin> set (take n (sort_key f xs))"
  shows "f x \<le> f y"
proof -
  let ?L = "sort_key f xs"
  have "y \<in> set ?L" using assms(2) by simp
  then have "y \<in> set (drop n ?L)" using assms(3) by (metis UnE append_take_drop_id set_append)
  moreover have "sorted (map f (take n ?L) @ map f (drop n ?L))"
    by (metis append_take_drop_id map_append sorted_sort_key)
  ultimately show ?thesis using assms(1) by (auto simp: sorted_append)
qed

lemma tenant_first_claimed:
  assumes d: "distinct (map ob_id E)" and "card (ob_tenant_id ` set E) \<le> n" and "r \<in> set E"
  obtains s where "ob_tenant_id s = ob_tenant_id r"
    and "s \<in> set (take n (sort_key (\<lambda>r. (tenant_rank E r, claim_key r)) E))"
proof -
  let ?L = "sort_key (\<lambda>r. (tenant_rank E r, claim_key r)) E"
  let ?B = "take n ?L"
  obtain s where s: "s \<in> set E" "ob_tenant_id s = ob_tenant_id r" "tenant_rank E s = 1"
    using first_of_tenant [OF assms(3)] .
  have "s \<in> set ?B"
  proof (rule ccontr)
    assume out: "s \<notin> set ?B"
    have mem: "x \<in> set E" if "x \<in> set ?B" for x using in_set_takeD [OF that] by simp
    have one: "tenant_rank E x = 1" if "x \<in> set ?B" for x
    proof -
      have "tenant_rank E x \<le> tenant_rank E s"
        using sort_key_take_le [OF that s(1) out] unfolding less_eq_prod_simp by linarith
      moreover have "1 \<le> tenant_rank E x" by (simp add: tenant_rank_def)
      ultimately show ?thesis using s(3) by simp
    qed
    have "distinct ?L" using d unfolding distinct_map distinct_sort by blast
    moreover have "inj_on ob_tenant_id (set ?B)"
      by (rule inj_onI) (rule rank_one_unique [OF d mem mem one one])
    ultimately have "card (ob_tenant_id ` set ?B) = length ?B"
      by (simp add: card_image distinct_card)
    moreover have "ob_tenant_id ` set ?B \<subset> ob_tenant_id ` set E"
    proof
      show "ob_tenant_id ` set ?B \<subseteq> ob_tenant_id ` set E" using mem by blast
      have "ob_tenant_id s \<notin> ob_tenant_id ` set ?B"
        using rank_one_unique [OF d s(1) mem s(3) one] out by blast
      then show "ob_tenant_id ` set ?B \<noteq> ob_tenant_id ` set E" using s(1) by blast
    qed
    then have "card (ob_tenant_id ` set ?B) < card (ob_tenant_id ` set E)" by (simp add: psubset_card_mono)
    ultimately have "length ?B < n" using assms(2) by simp
    then have "?B = ?L" by simp
    with out s(1) show False by simp
  qed
  with s(2) show ?thesis by (rule that)
qed

lemma claimable_expire_final:
  "filter (claimable now cutoff) (expire_final cutoff now rows) = filter (claimable now cutoff) rows"
  by (induction rows)
    (auto simp: expire_final_def update_where_def lease_expired_final_def claimable_def)

text \<open>
  Claims are fair: when a batch has room for one event of each tenant that has events due,
  every such tenant gets at least one of its own, however many events the other tenants have
  waiting and however old they are.
\<close>

theorem claims_serve_every_tenant:
  assumes "outbox_reachable S ch T rows" and "reads_what_it_writes T" and "readable_time ch now"
    and "worker \<noteq> []" and "0 < limit" and "0 < lease" and "int lease \<le> i64_max"
    and "card (ob_tenant_id ` set (filter (claimable now (saturating_sub now (int lease))) rows)) \<le> nat limit"
    and "r \<in> set rows" and "claimable now (saturating_sub now (int lease)) r"
  shows "\<exists>events rows'. worker_claim ch T now uuid worker limit lease rows = (Ok events, rows')
     \<and> int (length events) \<le> limit \<and> (\<exists>e \<in> set events. oe_tenant_id e = ob_tenant_id r)"
proof -
  define cutoff where "cutoff = saturating_sub now (int lease)"
  define token where "token = worker @ '':'' @ uuid"
  let ?rows = "expire_final cutoff now rows"
  let ?E = "filter (claimable now cutoff) rows"
  define ids where "ids = claim_ids now cutoff limit ?rows"
  from worker_claim_delivers [OF assms(1-7) cutoff_def ids_def token_def]
  obtain events where claim: "worker_claim ch T now uuid worker limit lease rows
        = (Ok events, update_where (\<lambda>r. ob_id r \<in> set ids) (lease_row now token) ?rows)"
    and all: "list_all2 (\<lambda>k e. \<exists>r \<in> set ?rows. ob_id r = k \<and> decode_row ch T (lease_row now token r) = Ok e) ids events"
    by blast
  let ?B = "take (nat limit) (sort_key (\<lambda>r. (tenant_rank ?E r, claim_key r)) ?E)"
  have ids: "ids = map ob_id ?B"
    using assms(5) by (simp add: ids_def claim_ids_def limited_def claimable_expire_final Let_def)
  have d: "distinct (map ob_id rows)" "distinct (map ob_id ?rows)"
    using reachable_inv [OF assms(1)] expire_final_inv by (auto simp: outbox_inv_def)
  then have "distinct (map ob_id ?E)" by (simp add: distinct_map_filter)
  then obtain s where s: "ob_tenant_id s = ob_tenant_id r" "s \<in> set ?B"
    using tenant_first_claimed [of ?E "nat limit" r] assms(8-10) unfolding cutoff_def by auto
  have "s \<in> set ?E" using in_set_takeD [OF s(2)] by simp
  then have mem: "s \<in> set ?rows" unfolding claimable_expire_final [of now cutoff rows, symmetric] by simp
  obtain e q where e: "e \<in> set events" "q \<in> set ?rows" "ob_id q = ob_id s" "decode_row ch T (lease_row now token q) = Ok e"
  proof -
    have "ob_id s \<in> set ids" using s(2) by (simp add: ids)
    then show ?thesis using that all by (fastforce simp: list_all2_conv_all_nth in_set_conv_nth)
  qed
  have "q = s" using d(2) e(2,3) mem unfolding distinct_map by (blast dest: inj_onD)
  then have "oe_tenant_id e = ob_tenant_id r"
    using e(4) s(1) by (auto simp: decode_row_def rbind_Inr_iff lease_row_def)
  moreover have "int (length events) \<le> limit"
    using list_all2_lengthD [OF all] assms(5) by (simp add: ids)
  ultimately show ?thesis using claim e(1) by blast
qed

theorem claims_serve_every_tenant_witness:
  "\<exists>events rows'. worker_claim sample_micros sample_text 70000000 ''v'' ''w'' 1 60000000 (sample_outbox 1)
       = (Ok events, rows')
     \<and> int (length events) \<le> 1 \<and> (\<exists>e \<in> set events. oe_tenant_id e = ''t'')"
proof -
  have ok: "ops_ok sample_serde sample_micros sample_text (take 1 sample_history) []" by code_simp
  let ?r = "pending_row 1000000 \<lparr>ne_id = ''e'', ne_tenant_id = ''t'',
     ne_event_type = ''rule.create_alert'', ne_aggregate_type = ''alert'', ne_aggregate_id = ''r:d'',
     ne_idempotency_key = Some ''create-alert:r:d'', ne_payload = JNull\<rparr> ''null''"
  have rows: "sample_outbox 1 = [?r]" by code_simp
  have due: "claimable 70000000 cutoff ?r" for cutoff by (simp add: claimable_def pending_row_def)
  show ?thesis
    using claims_serve_every_tenant [OF sample_outbox_reachable [OF ok] sample_text_reads sample_time_readable,
        of "''w''" 1 60000000 70000000 ?r "''v''"]
    unfolding rows by (simp add: due i64_max_def) (simp add: pending_row_def)
qed

section \<open>Taking over an expired lease\<close>

lemma lease_events_ids: "lease_events ch T now token ids rows = Ok (events, rows') \<Longrightarrow> map oe_id events = ids"
proof (induction ids arbitrary: rows events)
  case (Cons k ids)
  then show ?case
    by (auto simp: Let_def rbind_Inr_iff by_id_def decode_row_def find_Some_iff split: option.splits)
qed simp

lemma lease_lost_claim:
  assumes "distinct (map ob_id rows)" and "token \<noteq> worker @ '':'' @ uuid"
    and "worker_claim ch T now uuid worker limit lease rows = (Ok events, rows')" and "e \<in> set events"
  shows "lease_lost (oe_id e) token rows'"
proof -
  define cutoff where "cutoff = saturating_sub now (min (int lease) i64_max)"
  let ?rows = "expire_final cutoff now rows"
  define ids where "ids = claim_ids now cutoff limit ?rows"
  have "claim_batch ch T now uuid worker limit lease rows = Ok (events, rows')"
    using assms(3) by (auto simp: worker_claim_def split: if_splits sum.splits)
  then have lease: "lease_events ch T now (worker @ '':'' @ uuid) ids ?rows = Ok (events, rows')"
    by (simp add: claim_batch_def Let_def ids_def cutoff_def)
  have "distinct (map ob_id ?rows)"
    unfolding expire_final_def by (subst map_ob_id_update) (simp_all add: assms(1))
  then have "rows' = update_where (\<lambda>r. ob_id r \<in> set ids) (lease_row now (worker @ '':'' @ uuid)) ?rows"
    by (intro lease_events_rows [OF lease]) (simp add: ids_def claim_ids_distinct)
  moreover have "oe_id e \<in> set ids" using lease_events_ids [OF lease] assms(4) by auto
  ultimately show ?thesis
    using assms(2) by (auto simp: lease_lost_def list_all_iff set_update_where lease_row_def)
qed

text \<open>
  C36. A lease that ran out is fenced: once another claim has handed an event to a worker, settling
  the event under the earlier lease is refused and changes nothing, then and at any later time.
\<close>

theorem expired_lease_is_fenced:
  assumes "outbox_reachable S ch T rows" and "oe_claim_token event = Some token"
    and "token \<noteq> worker @ '':'' @ uuid"
    and "worker_claim ch T now uuid worker limit lease rows = (Ok events, rows')"
    and "oe_id event \<in> oe_id ` set events"
    and "list_all (\<lambda>op. op_token op \<noteq> Some token) ops"
  shows "settle later event outcome (run_ops S ch T ops rows') = (Ok False, run_ops S ch T ops rows')"
proof -
  have "distinct (map ob_id rows)" using reachable_inv [OF assms(1)] by (simp add: outbox_inv_def)
  then have "lease_lost (oe_id event) token rows'" using lease_lost_claim assms(3-5) by fastforce
  then show ?thesis using settle_without_lease lease_lost_run_ops assms(2,6) by blast
qed

theorem expired_lease_is_fenced_witness:
  "fst (settle 80000000 sample_event None
     (snd (worker_claim sample_micros sample_text 70000000 ''v'' ''w'' 5 60000000 (sample_outbox 2)))) = Ok False"
proof -
  have ok: "ops_ok sample_serde sample_micros sample_text (take 2 sample_history) []" by code_simp
  let ?c = "worker_claim sample_micros sample_text 70000000 ''v'' ''w'' 5 60000000 (sample_outbox 2)"
  have taken: "case fst ?c of Inl _ \<Rightarrow> False | Inr events \<Rightarrow> oe_id sample_event \<in> set (map oe_id events)"
    by code_simp
  then obtain events where c: "?c = (Ok events, snd ?c)" and e: "oe_id sample_event \<in> oe_id ` set events"
    by (cases ?c) (auto split: sum.splits)
  have token: "oe_claim_token sample_event = Some ''w:u''" by (simp add: sample_event_def)
  show ?thesis
    using expired_lease_is_fenced [OF sample_outbox_reachable [OF ok] token _ c e, of "[]"] by simp
qed

section \<open>Replaying dead letters\<close>

definition dead_letter_of :: "string \<Rightarrow> outbox_row \<Rightarrow> bool" where
  "dead_letter_of tenant r \<longleftrightarrow> ob_tenant_id r = tenant \<and> ob_status r = ''dead_letter''"

lemma map_filter_distinct_nth:
  "distinct (List.map_filter f xs) \<Longrightarrow> i < j \<Longrightarrow> j < length xs \<Longrightarrow> f (xs ! i) = Some k \<Longrightarrow> f (xs ! j) \<noteq> Some k"
proof (induction xs arbitrary: i j)
  case (Cons x xs)
  have mem: "k \<in> set (List.map_filter f xs)" if "n < length xs" "f (xs ! n) = Some k" for n
    using that by (force simp: List.map_filter_def)
  show ?case
  proof (cases i)
    case 0
    then show ?thesis using Cons.prems mem [of "j - 1"] by (cases j) (auto simp: List.map_filter_simps)
  next
    case (Suc n)
    then show ?thesis
      using Cons.prems Cons.IH [of n "j - 1"] by (cases j) (auto simp: List.map_filter_simps split: option.splits)
  qed
qed simp

text \<open>
  C37. Replaying all dead letters of a tenant fails as soon as two of them carry the same
  idempotency key, and then replays none of them: the unique index lets an action be enqueued
  again once its first event is a dead letter, and admits only one of the two back.
\<close>

theorem replay_blocked_by_duplicates:
  assumes "i < j" and "j < length rows"
    and "dead_letter_of (tc_tenant_id ctx) (rows ! i)" and "dead_letter_of (tc_tenant_id ctx) (rows ! j)"
    and "ob_event_type (rows ! i) = ob_event_type (rows ! j)"
    and "ob_idempotency_key (rows ! i) = Some key" and "ob_idempotency_key (rows ! j) = Some key"
    and "require_permission ctx ManageRules = Ok ()"
  shows "replay_request now ctx [] True rows = Err (Persistence (UniqueViolation ''unique''))
    \<and> outbox_apply S ch T (Replay now ctx [] True) rows = rows"
proof -
  let ?p = "\<lambda>r. ob_tenant_id r = tc_tenant_id ctx \<and> ob_status r = ''dead_letter''"
  let ?rows = "update_where ?p (replay_row now) rows"
  have "active_key (?rows ! n) = Some (tc_tenant_id ctx, ob_event_type (rows ! n), key)"
    if "n < length rows" "dead_letter_of (tc_tenant_id ctx) (rows ! n)" "ob_idempotency_key (rows ! n) = Some key" for n
    using that by (auto simp: update_where_def dead_letter_of_def replay_row_def active_key_def)
  then have "\<not> index_ok ?rows"
    using map_filter_distinct_nth [of active_key ?rows i j] assms(1-7)
    by (auto simp: index_ok_def update_where_def)
  moreover have "unique_failure = UniqueViolation ''unique''"
    by code_simp
  ultimately show ?thesis
    using assms(8) by (simp add: replay_request_def replay_dead_letters_def persistence_def Let_def)
qed

theorem replay_blocked_by_duplicates_witness:
  "replay_request 7000000 \<lparr>tc_tenant_id = ''t'', tc_actor = System ''ops'', tc_permissions = {ManageRules}\<rparr> [] True
     (sample_outbox 6) = Err (Persistence (UniqueViolation ''unique''))"
proof -
  let ?ctx = "\<lparr>tc_tenant_id = ''t'', tc_actor = System ''ops'', tc_permissions = {ManageRules}\<rparr>"
  have rows: "length (sample_outbox 6) = 2"
    "dead_letter_of ''t'' (sample_outbox 6 ! 0)" "dead_letter_of ''t'' (sample_outbox 6 ! 1)"
    "ob_event_type (sample_outbox 6 ! 0) = ob_event_type (sample_outbox 6 ! 1)"
    "ob_idempotency_key (sample_outbox 6 ! 0) = Some ''create-alert:r:d''"
    "ob_idempotency_key (sample_outbox 6 ! 1) = Some ''create-alert:r:d''"
    by code_simp+
  have "require_permission ?ctx ManageRules = Ok ()"
    by (simp add: require_permission_def permission_set_contains_def satisfies_def)
  then show ?thesis
    using replay_blocked_by_duplicates [of 0 1 "sample_outbox 6" ?ctx] rows by simp
qed

end
