(* ===== verification/Blueprint_Model.thy ===== *)
theory Blueprint_Model
  imports Json
begin

text \<open>
  \<^verbatim>\<open>crates/device-contract/src/model.rs\<close>: the blueprint document, one record per struct and one
  datatype per enumeration, in the order of the source, with a short prefix per struct. The
  unsigned integer fields are \<open>nat\<close>; nothing in the crate computes with them. The defaults are
  those serde fills in for members a document leaves out.
\<close>

section \<open>Enumerations\<close>

datatype transport_protocol = Zenoh | Mqtt | Http
datatype delivery_semantics = AtMostOnce | AtLeastOnce
datatype ordering_semantics = NoOrdering | PerDeviceStream
datatype route_direction = DeviceToCloud | CloudToDevice
datatype payload_encoding = EncJson | EncCbor | EncProtobuf | EncProtobufDynamic | EncRaw
datatype schema_format = JsonSchema | ProtobufDescriptor | Opaque
datatype coordinate_system = Wgs84
datatype coordinate_unit = Degrees
datatype field_value_type = VtFloat64 | VtInt64 | VtString | VtBoolean | VtJson
datatype aggregate_kind = AgMin | AgMax | AgAvg | AgSum | AgCount | AgLast
datatype chart_kind = ChartLine | ChartStep | ChartBar | ChartNone
datatype command_danger = DangerNormal | DangerConfirm | DangerCritical
datatype command_idempotency = NonIdempotent | Idempotent
datatype configuration_mode = DesiredReported
datatype health_signal_source = SourceMetric | SourceReportedState
datatype comparison_operator = CmpGt | CmpGte | CmpLt | CmpLte | CmpEq | CmpNeq
datatype health_severity = SevInfo | SevWarning | SevCritical
datatype firmware_strategy = BinaryReplacement | PartitionSwap | Package | External
datatype presentation_tab = TabOverview | TabTelemetry | TabCommands | TabConfiguration | TabLogs
  | TabFirmware | TabRelationships

definition is_numeric :: "field_value_type \<Rightarrow> bool" where
  "is_numeric t \<longleftrightarrow> t = VtFloat64 \<or> t = VtInt64"

section \<open>Declarations\<close>

record blueprint_metadata =
  md_key :: string
  md_name :: string
  md_description :: "string option"
  md_icon :: "string option"
  md_color :: "string option"
  md_labels :: "(string, string) btree"

record heartbeat_definition =
  hb_interval :: string
  hb_offline_after :: string

record runtime_limits =
  rl_max_message_bytes :: nat
  rl_max_messages_per_minute :: nat
  rl_max_metric_cardinality :: nat

definition default_max_metric_cardinality :: nat where
  "default_max_metric_cardinality = 128"

record runtime_definition =
  rd_minimum_contract_api :: nat
  rd_heartbeat :: heartbeat_definition
  rd_limits :: runtime_limits

record transport_qos =
  qos_delivery :: delivery_semantics
  qos_ordering :: ordering_semantics

definition default_transport_qos :: transport_qos where
  "default_transport_qos = \<lparr>qos_delivery = AtLeastOnce, qos_ordering = PerDeviceStream\<rparr>"

record transport_definition =
  tr_key :: string
  tr_binding :: string
  tr_protocol :: transport_protocol
  tr_qos :: transport_qos

record route_definition =
  ro_key :: string
  ro_transport :: string
  ro_direction :: route_direction
  ro_address :: string
  ro_message_schema :: string
  ro_encoding :: payload_encoding

record schema_definition =
  sd_key :: string
  sd_format :: schema_format
  sd_schema :: json

record field_presentation =
  fp_color :: "string option"
  fp_chart :: "chart_kind option"
  fp_precision :: "nat option"

record field_definition =
  fd_path :: string
  fd_value_type :: field_value_type
  fd_label :: string
  fd_unit :: "string option"
  fd_semantic :: "string option"
  fd_index :: bool
  fd_aggregates :: "aggregate_kind list"
  fd_presentation :: "field_presentation option"

record retention_definition =
  re_raw_days :: "nat option"
  re_points_days :: "nat option"
  re_rollup_days :: "nat option"

record stream_definition =
  st_key :: string
  st_route :: string
  st_timestamp :: string
  st_fields :: "field_definition list"
  st_retention :: "retention_definition option"

definition default_timestamp_source :: string where
  "default_timestamp_source = ''envelope.occurred_at''"

record location_definition =
  lo_stream :: string
  lo_latitude_path :: string
  lo_longitude_path :: string
  lo_coordinate_system :: coordinate_system
  lo_unit :: coordinate_unit
  lo_max_age :: string

record command_definition =
  cm_key :: string
  cm_request_route :: string
  cm_response_route :: string
  cm_label :: string
  cm_description :: "string option"
  cm_danger :: command_danger
  cm_timeout :: string
  cm_input_schema :: json
  cm_result_schema :: json
  cm_availability :: "string option"
  cm_idempotency :: command_idempotency

record configuration_apply =
  ap_mode :: configuration_mode
  ap_acknowledgement_timeout :: string
  ap_atomic :: bool

record configuration_definition =
  cf_schema :: json
  cf_defaults :: json
  cf_apply :: configuration_apply

record reported_state_definition =
  rs_schema :: json

record health_signal_definition =
  hs_key :: string
  hs_source :: health_signal_source
  hs_path :: string
  hs_operator :: comparison_operator
  hs_value :: json
  hs_severity :: health_severity

record health_definition =
  he_signals :: "health_signal_definition list"

record firmware_definition =
  fw_strategy :: firmware_strategy
  fw_compatibility :: "(string, json) btree"

record relationship_definition =
  rp_key :: string
  rp_stream :: string
  rp_target_key_path :: string
  rp_target_kind :: string

record metric_reference =
  mr_metric :: string

record presentation_definition =
  pr_summary :: "metric_reference list"
  pr_tabs :: "presentation_tab list"

record blueprint_spec =
  sp_runtime :: runtime_definition
  sp_transports :: "transport_definition list"
  sp_routes :: "route_definition list"
  sp_schemas :: "schema_definition list"
  sp_streams :: "stream_definition list"
  sp_location :: "location_definition option"
  sp_commands :: "command_definition list"
  sp_configuration :: "configuration_definition option"
  sp_reported_state :: "reported_state_definition option"
  sp_health :: "health_definition option"
  sp_firmware :: "firmware_definition option"
  sp_relationships :: "relationship_definition list"
  sp_presentation :: "presentation_definition option"

record device_blueprint =
  bp_api_version :: string
  bp_kind :: string
  bp_metadata :: blueprint_metadata
  bp_spec :: blueprint_spec

section \<open>Crate constants\<close>

definition BLUEPRINT_API_VERSION :: string where
  "BLUEPRINT_API_VERSION = ''extrittio.io/v1alpha1''"

definition BLUEPRINT_KIND :: string where
  "BLUEPRINT_KIND = ''DeviceBlueprint''"

definition CONTRACT_API_VERSION :: nat where
  "CONTRACT_API_VERSION = 1"

end
