(* ===== verification/Schema.thy ===== *)
theory Schema
  imports Json
begin

text \<open>
  \<^verbatim>\<open>crates/device-contract/src/schema.rs\<close> and \<^verbatim>\<open>error.rs\<close>: the bounded JSON Schema profile. A
  schema document is inspected once (\<open>inspect_schema\<close>) and instances are validated against it
  (\<open>validate_node\<close>); both return the issues they push, in order. Both recursions carry the
  nesting depth, whose limits (32 and 64) make them terminate. \<open>conforms\<close> is the specification:
  which instances a schema admits, without paths, depths or messages.
\<close>

section \<open>Issues and errors\<close>

record validation_issue =
  vi_path :: string
  vi_message :: string

definition issue :: "string \<Rightarrow> string \<Rightarrow> validation_issue" where
  "issue path message = \<lparr>vi_path = path, vi_message = message\<rparr>"

datatype contract_error =
    InvalidBlueprint nat "validation_issue list"
  | InvalidInstance nat "validation_issue list"
  | Serialization string
  | MissingTransportBinding string
  | InvalidContext string

fun validation_issues :: "contract_error \<Rightarrow> validation_issue list option" where
  "validation_issues (InvalidBlueprint _ issues) = Some issues"
| "validation_issues (InvalidInstance _ issues) = Some issues"
| "validation_issues _ = None"

section \<open>Schema documents\<close>

definition SUPPORTED_KEYWORDS :: "string list" where
  "SUPPORTED_KEYWORDS = [''$id'', ''$schema'', ''additionalProperties'', ''const'', ''default'',
     ''description'', ''enum'', ''examples'', ''exclusiveMaximum'', ''exclusiveMinimum'', ''items'',
     ''maximum'', ''maxItems'', ''maxLength'', ''minimum'', ''minItems'', ''minLength'', ''properties'',
     ''required'', ''title'', ''type'']"

definition escape_pointer :: "string \<Rightarrow> string" where
  "escape_pointer v = str_replace ''/'' ''~1'' (str_replace ''~'' ''~0'' v)"

definition keyword_issues :: "jmap \<Rightarrow> string \<Rightarrow> validation_issue list" where
  "keyword_issues obj path =
     map (\<lambda>(k, _). issue (path @ ''/'' @ k) ''keyword is not supported by the extrittio-v1 schema profile'')
       (filter (\<lambda>(k, _). k \<notin> set SUPPORTED_KEYWORDS) obj)"

definition TYPE_NAMES :: "string list" where
  "TYPE_NAMES = [''object'', ''array'', ''string'', ''number'', ''integer'', ''boolean'', ''null'']"

definition type_issues :: "jmap \<Rightarrow> string \<Rightarrow> validation_issue list" where
  "type_issues obj path = (case bt_get obj ''type'' of
      None \<Rightarrow> []
    | Some v \<Rightarrow>
        if is_some_and (\<lambda>s. s \<in> set TYPE_NAMES) (as_str v) then []
        else [issue (path @ ''/type'') ''type must be one supported scalar type name''])"

fun required_entry_issues :: "string \<Rightarrow> nat \<Rightarrow> string list \<Rightarrow> json list \<Rightarrow> validation_issue list" where
  "required_entry_issues path i names [] = []"
| "required_entry_issues path i names (v # vs) =
     (case as_str v of
        None \<Rightarrow> issue (path @ ''/required/'' @ show_nat i) ''required entry must be a string''
          # required_entry_issues path (i + 1) names vs
      | Some name \<Rightarrow>
          (if name \<in> set names
           then [issue (path @ ''/required/'' @ show_nat i) ''required entries must be unique''] else [])
          @ required_entry_issues path (i + 1) (name # names) vs)"

definition numeric_keyword_issues :: "jmap \<Rightarrow> string \<Rightarrow> validation_issue list" where
  "numeric_keyword_issues obj path =
     concat (map (\<lambda>k. if is_some_and (\<lambda>b. \<not> is_number b) (bt_get obj k)
       then [issue (path @ ''/'' @ k) (k @ '' must be numeric'')] else [])
       [''minimum'', ''maximum'', ''exclusiveMinimum'', ''exclusiveMaximum''])"

definition length_keyword_issues :: "jmap \<Rightarrow> string \<Rightarrow> validation_issue list" where
  "length_keyword_issues obj path =
     concat (map (\<lambda>k. if is_some_and (\<lambda>b. as_u64 b = None) (bt_get obj k)
       then [issue (path @ ''/'' @ k) (k @ '' must be a non-negative integer'')] else [])
       [''minLength'', ''maxLength'', ''minItems'', ''maxItems''])"

definition enum_issues :: "jmap \<Rightarrow> string \<Rightarrow> validation_issue list" where
  "enum_issues obj path =
     (if is_some_and (\<lambda>v. is_none_or (\<lambda>xs. xs = []) (as_array v)) (bt_get obj ''enum'')
      then [issue (path @ ''/enum'') ''enum must be a non-empty array''] else [])"

definition required_issues :: "jmap \<Rightarrow> string \<Rightarrow> validation_issue list" where
  "required_issues obj path = (case bt_get obj ''required'' of
      Some (JArr required) \<Rightarrow> required_entry_issues path 0 [] required
    | _ \<Rightarrow> [])"

text \<open>
  An object is inspected keyword group by keyword group; a \<^verbatim>\<open>required\<close> that is not an array ends the
  inspection of its object.
\<close>

function inspect_schema :: "json \<Rightarrow> string \<Rightarrow> nat \<Rightarrow> validation_issue list" where
  "inspect_schema schema path depth =
     (if 32 < depth then [issue path ''schema nesting exceeds 32 levels'']
      else case schema of
        JObj obj \<Rightarrow>
          keyword_issues obj path @ type_issues obj path
          @ (case bt_get obj ''properties'' of
               None \<Rightarrow> []
             | Some (JObj properties) \<Rightarrow>
                 (if 256 < length properties
                  then [issue (path @ ''/properties'') ''schema object exceeds 256 properties''] else [])
                 @ concat (map (\<lambda>(name, child).
                     inspect_schema child (path @ ''/properties/'' @ escape_pointer name) (depth + 1))
                     properties)
             | Some _ \<Rightarrow> [issue (path @ ''/properties'') ''properties must be an object''])
          @ (if is_some_and (\<lambda>v. \<not> is_array v) (bt_get obj ''required'')
             then [issue (path @ ''/required'') ''required must be an array of unique strings'']
             else required_issues obj path
               @ (case bt_get obj ''additionalProperties'' of
                    Some additional \<Rightarrow>
                      if is_boolean additional then []
                      else inspect_schema additional (path @ ''/additionalProperties'') (depth + 1)
                  | None \<Rightarrow> [])
               @ (case bt_get obj ''items'' of
                    Some items \<Rightarrow> inspect_schema items (path @ ''/items'') (depth + 1)
                  | None \<Rightarrow> [])
               @ numeric_keyword_issues obj path @ length_keyword_issues obj path
               @ enum_issues obj path)
      | JBool _ \<Rightarrow> []
      | _ \<Rightarrow> [issue path ''schema must be an object or boolean''])"
  by pat_completeness auto

termination
  by (relation "measure (\<lambda>(_, _, depth). 33 - depth)") auto

definition validate_schema_document :: "json \<Rightarrow> string \<Rightarrow> validation_issue list" where
  "validate_schema_document schema path = inspect_schema schema path 0"

section \<open>Instances\<close>

definition matches_type :: "string \<Rightarrow> json \<Rightarrow> bool" where
  "matches_type expected v =
     (if expected = ''object'' then is_object v
      else if expected = ''array'' then is_array v
      else if expected = ''string'' then is_string v
      else if expected = ''number'' then is_number v
      else if expected = ''integer'' then as_i64 v \<noteq> None \<or> as_u64 v \<noteq> None
      else if expected = ''boolean'' then is_boolean v
      else if expected = ''null'' then is_null v
      else False)"

fun instance_kind :: "json \<Rightarrow> string" where
  "instance_kind JNull = ''null''"
| "instance_kind (JBool _) = ''boolean''"
| "instance_kind (JNum (PosInt _)) = ''integer''"
| "instance_kind (JNum (NegInt _)) = ''integer''"
| "instance_kind (JNum (Float _)) = ''number''"
| "instance_kind (JStr _) = ''string''"
| "instance_kind (JArr _) = ''array''"
| "instance_kind (JObj _) = ''object''"

definition check_numeric_bound ::
  "jmap \<Rightarrow> string \<Rightarrow> f64 \<Rightarrow> bool \<Rightarrow> string \<Rightarrow> validation_issue list" where
  "check_numeric_bound schema keyword number exclusive path =
     (case (case bt_get schema keyword of None \<Rightarrow> None | Some v \<Rightarrow> as_f64 v) of
        None \<Rightarrow> []
      | Some bound \<Rightarrow>
          let violates =
            (if keyword = ''minimum'' \<or> keyword = ''exclusiveMinimum''
             then (if exclusive then f64_le number bound else f64_lt number bound)
             else (if exclusive then f64_le bound number else f64_lt bound number))
          in if violates
             then [issue path (''numeric value violates '' @ keyword @ '' '' @ f64_display bound)] else [])"

definition check_length ::
  "jmap \<Rightarrow> string \<Rightarrow> nat \<Rightarrow> bool \<Rightarrow> string \<Rightarrow> validation_issue list" where
  "check_length schema keyword len minimum path =
     (case (case bt_get schema keyword of None \<Rightarrow> None | Some v \<Rightarrow> as_u64 v) of
        None \<Rightarrow> []
      | Some bound \<Rightarrow>
          if (minimum \<and> len < bound) \<or> (\<not> minimum \<and> bound < len)
          then [issue path (''length '' @ show_nat len @ '' violates '' @ keyword @ '' '' @ show_nat bound)]
          else [])"

text \<open>The \<^verbatim>\<open>type\<close> the schema expects, when it names one as a string.\<close>

definition expected_type :: "jmap \<Rightarrow> string option" where
  "expected_type schema = (case bt_get schema ''type'' of None \<Rightarrow> None | Some v \<Rightarrow> as_str v)"

definition value_issues :: "jmap \<Rightarrow> json \<Rightarrow> string \<Rightarrow> validation_issue list" where
  "value_issues schema inst path =
     (case bt_get schema ''const'' of
        Some expected \<Rightarrow> if json_eq expected inst then [] else [issue path ''value does not equal const'']
      | None \<Rightarrow> [])
     @ (case (case bt_get schema ''enum'' of None \<Rightarrow> None | Some v \<Rightarrow> as_array v) of
          Some allowed \<Rightarrow>
            if list_ex (\<lambda>a. json_eq a inst) allowed then [] else [issue path ''value is not in enum'']
        | None \<Rightarrow> [])
     @ (case as_f64 inst of
          Some number \<Rightarrow>
            check_numeric_bound schema ''minimum'' number False path
            @ check_numeric_bound schema ''maximum'' number False path
            @ check_numeric_bound schema ''exclusiveMinimum'' number True path
            @ check_numeric_bound schema ''exclusiveMaximum'' number True path
        | None \<Rightarrow> [])
     @ (case as_str inst of
          Some s \<Rightarrow>
            check_length schema ''minLength'' (chars_count s) True path
            @ check_length schema ''maxLength'' (chars_count s) False path
        | None \<Rightarrow> [])
     @ (case as_array inst of
          Some xs \<Rightarrow>
            check_length schema ''minItems'' (length xs) True path
            @ check_length schema ''maxItems'' (length xs) False path
        | None \<Rightarrow> [])"

definition missing_issues :: "jmap \<Rightarrow> jmap \<Rightarrow> string \<Rightarrow> validation_issue list" where
  "missing_issues schema obj path =
     (case (case bt_get schema ''required'' of None \<Rightarrow> None | Some v \<Rightarrow> as_array v) of
        Some required \<Rightarrow>
          concat (map (\<lambda>v. case as_str v of
              Some name \<Rightarrow>
                if bt_contains_key obj name then []
                else [issue (path @ ''/'' @ escape_pointer name) ''required property is missing'']
            | None \<Rightarrow> []) required)
      | None \<Rightarrow> [])"

text \<open>The schema of a member: its entry in \<^verbatim>\<open>properties\<close>.\<close>

definition property_schema :: "jmap \<Rightarrow> string \<Rightarrow> json option" where
  "property_schema schema name =
     (case (case bt_get schema ''properties'' of None \<Rightarrow> None | Some v \<Rightarrow> as_object v) of
        Some properties \<Rightarrow> bt_get properties name
      | None \<Rightarrow> None)"

function validate_node :: "json \<Rightarrow> json \<Rightarrow> string \<Rightarrow> nat \<Rightarrow> validation_issue list" where
  "validate_node schema inst path depth =
     (if 64 < depth then [issue path ''instance nesting exceeds 64 levels'']
      else case schema of
        JBool accept \<Rightarrow> if accept then [] else [issue path ''value is rejected by schema'']
      | JObj sch \<Rightarrow>
          if is_some_and (\<lambda>expected. \<not> matches_type expected inst) (expected_type sch)
          then [issue path (''expected '' @ the (expected_type sch) @ '', found '' @ instance_kind inst)]
          else
            value_issues sch inst path
            @ (case inst of
                 JArr xs \<Rightarrow>
                   (case bt_get sch ''items'' of
                      Some item_schema \<Rightarrow>
                        concat (map (\<lambda>(i, item).
                          validate_node item_schema item (path @ ''/'' @ show_nat i) (depth + 1)) (indexed xs))
                    | None \<Rightarrow> [])
               | JObj obj \<Rightarrow>
                   missing_issues sch obj path
                   @ concat (map (\<lambda>(name, v).
                       let property_path = path @ ''/'' @ escape_pointer name in
                       case property_schema sch name of
                         Some ps \<Rightarrow> validate_node ps v property_path (depth + 1)
                       | None \<Rightarrow>
                           (case bt_get sch ''additionalProperties'' of
                              Some additional \<Rightarrow>
                                if json_eq additional (JBool False)
                                then [issue property_path ''additional property is not allowed'']
                                else if is_object additional
                                then validate_node additional v property_path (depth + 1)
                                else []
                            | None \<Rightarrow> [])) obj)
               | _ \<Rightarrow> [])
      | _ \<Rightarrow> [])"
  by pat_completeness auto

termination
  by (relation "measure (\<lambda>(_, _, _, depth). 65 - depth)") auto

declare inspect_schema.simps [simp del] validate_node.simps [simp del]

definition validate_instance :: "json \<Rightarrow> json \<Rightarrow> (contract_error, unit) result" where
  "validate_instance schema inst =
     (let schema_issues = validate_schema_document schema ''$schema''
      in if schema_issues \<noteq> [] then Err (InvalidBlueprint (length schema_issues) schema_issues)
         else
           let issues = validate_node schema inst ''$'' 0
           in if issues = [] then Ok () else Err (InvalidInstance (length issues) issues))"

section \<open>Specification\<close>

definition keyword :: "jmap \<Rightarrow> string \<Rightarrow> (json \<Rightarrow> 'a option) \<Rightarrow> 'a option" where
  "keyword sch k read = (case bt_get sch k of None \<Rightarrow> None | Some v \<Rightarrow> read v)"

definition number_ok :: "jmap \<Rightarrow> f64 \<Rightarrow> bool" where
  "number_ok sch x \<longleftrightarrow>
     is_none_or (\<lambda>b. \<not> f64_lt x b) (keyword sch ''minimum'' as_f64)
     \<and> is_none_or (\<lambda>b. \<not> f64_lt b x) (keyword sch ''maximum'' as_f64)
     \<and> is_none_or (\<lambda>b. \<not> f64_le x b) (keyword sch ''exclusiveMinimum'' as_f64)
     \<and> is_none_or (\<lambda>b. \<not> f64_le b x) (keyword sch ''exclusiveMaximum'' as_f64)"

definition length_ok :: "jmap \<Rightarrow> string \<Rightarrow> string \<Rightarrow> nat \<Rightarrow> bool" where
  "length_ok sch lo hi n \<longleftrightarrow>
     is_none_or (\<lambda>b. b \<le> n) (keyword sch lo as_u64) \<and> is_none_or (\<lambda>b. n \<le> b) (keyword sch hi as_u64)"

definition value_ok :: "jmap \<Rightarrow> json \<Rightarrow> bool" where
  "value_ok sch v \<longleftrightarrow>
     is_none_or (\<lambda>e. json_eq e v) (bt_get sch ''const'')
     \<and> is_none_or (\<lambda>xs. \<exists>a \<in> set xs. json_eq a v) (keyword sch ''enum'' as_array)
     \<and> is_none_or (number_ok sch) (as_f64 v)
     \<and> is_none_or (\<lambda>s. length_ok sch ''minLength'' ''maxLength'' (chars_count s)) (as_str v)
     \<and> is_none_or (\<lambda>xs. length_ok sch ''minItems'' ''maxItems'' (length xs)) (as_array v)"

definition required_present :: "jmap \<Rightarrow> jmap \<Rightarrow> bool" where
  "required_present sch m \<longleftrightarrow>
     is_none_or (\<lambda>xs. \<forall>n. JStr n \<in> set xs \<longrightarrow> bt_get m n \<noteq> None) (keyword sch ''required'' as_array)"

lemma required_present_code [code]:
  "required_present sch m \<longleftrightarrow> is_none_or (list_all (\<lambda>v. case as_str v of
     Some n \<Rightarrow> bt_get m n \<noteq> None | None \<Rightarrow> True)) (keyword sch ''required'' as_array)"
proof -
  have "(\<forall>n. JStr n \<in> set xs \<longrightarrow> bt_get m n \<noteq> None) \<longleftrightarrow> list_all (\<lambda>v. case as_str v of
     Some n \<Rightarrow> bt_get m n \<noteq> None | None \<Rightarrow> True) xs" for xs
    by (induction xs) (auto split: option.splits elim: as_str.elims)
  then show ?thesis by (simp only: required_present_def)
qed

lemma size_member [simp]: "x \<in> set xs \<Longrightarrow> size x < size (JArr xs)"
  by (induction xs) auto

lemma size_entry [simp]: "(k, v) \<in> set m \<Longrightarrow> size v < size (JObj m)"
  by (induction m) auto

text \<open>The instances a schema admits.\<close>

function conforms :: "json \<Rightarrow> json \<Rightarrow> bool" where
  "conforms schema inst \<longleftrightarrow> (case schema of
      JBool accept \<Rightarrow> accept
    | JObj sch \<Rightarrow>
        is_none_or (\<lambda>t. matches_type t inst) (expected_type sch) \<and> value_ok sch inst
        \<and> (case inst of
             JArr xs \<Rightarrow>
               (case bt_get sch ''items'' of None \<Rightarrow> True | Some s \<Rightarrow> \<forall>x \<in> set xs. conforms s x)
           | JObj m \<Rightarrow>
               required_present sch m
               \<and> (\<forall>(n, v) \<in> set m. case property_schema sch n of
                    Some ps \<Rightarrow> conforms ps v
                  | None \<Rightarrow>
                      (case bt_get sch ''additionalProperties'' of
                         None \<Rightarrow> True
                       | Some a \<Rightarrow> a \<noteq> JBool False \<and> (is_object a \<longrightarrow> conforms a v)))
           | _ \<Rightarrow> True)
    | _ \<Rightarrow> True)"
  by pat_completeness auto

termination
  by (relation "measure (size \<circ> snd)") (auto simp del: json.size)

declare conforms.simps [simp del]

section \<open>Inspection and validation agree with the specification\<close>

lemma check_numeric_bound_Nil:
  "k = ''minimum'' \<Longrightarrow> check_numeric_bound sch k x False path = [] \<longleftrightarrow>
     is_none_or (\<lambda>b. \<not> f64_lt x b) (keyword sch k as_f64)"
  "k = ''maximum'' \<Longrightarrow> check_numeric_bound sch k x False path = [] \<longleftrightarrow>
     is_none_or (\<lambda>b. \<not> f64_lt b x) (keyword sch k as_f64)"
  "k = ''exclusiveMinimum'' \<Longrightarrow> check_numeric_bound sch k x True path = [] \<longleftrightarrow>
     is_none_or (\<lambda>b. \<not> f64_le x b) (keyword sch k as_f64)"
  "k = ''exclusiveMaximum'' \<Longrightarrow> check_numeric_bound sch k x True path = [] \<longleftrightarrow>
     is_none_or (\<lambda>b. \<not> f64_le b x) (keyword sch k as_f64)"
  by (auto simp: check_numeric_bound_def keyword_def Let_def split: option.split)

lemma check_length_Nil:
  "check_length sch k n True path = [] \<longleftrightarrow> is_none_or (\<lambda>b. b \<le> n) (keyword sch k as_u64)"
  "check_length sch k n False path = [] \<longleftrightarrow> is_none_or (\<lambda>b. n \<le> b) (keyword sch k as_u64)"
  by (auto simp: check_length_def keyword_def split: option.split)

lemma case_option_Nil: "case_option [] f x = [] \<longleftrightarrow> is_none_or (\<lambda>e. f e = []) x"
  by (cases x) simp_all

lemma value_issues_Nil [issue_simps]: "value_issues sch v path = [] \<longleftrightarrow> value_ok sch v"
proof -
  have if_Nil: "(if b then [] else [x]) = [] \<longleftrightarrow> b" for b and x :: validation_issue by simp
  have num: "check_numeric_bound sch ''minimum'' x False path = []
      \<and> check_numeric_bound sch ''maximum'' x False path = []
      \<and> check_numeric_bound sch ''exclusiveMinimum'' x True path = []
      \<and> check_numeric_bound sch ''exclusiveMaximum'' x True path = [] \<longleftrightarrow> number_ok sch x" for x
    by (simp add: number_ok_def check_numeric_bound_Nil)
  show ?thesis
    unfolding value_issues_def value_ok_def append_is_Nil_conv case_option_Nil if_Nil num
      keyword_def [symmetric] list_ex_iff length_ok_def check_length_Nil
    by (rule refl)
qed

lemma as_str_Some_iff: "as_str v = Some s \<longleftrightarrow> v = JStr s"
  by (cases v) auto

lemma missing_issues_Nil [issue_simps]: "missing_issues sch m path = [] \<longleftrightarrow> required_present sch m"
  unfolding missing_issues_def required_present_def keyword_def [symmetric] case_option_Nil
    concat_map_Nil_iff
  by (cases "keyword sch ''required'' as_array")
    (auto simp: is_none_or_iff as_str_Some_iff bt_contains_key_def)

text \<open>Whether a schema is accepted does not depend on the path it is reported under.\<close>

lemma required_entry_issues_Nil:
  "required_entry_issues p i names xs = [] \<longleftrightarrow> required_entry_issues q j names xs = []"
  by (induction xs arbitrary: i j names) (auto split: option.split)

lemma inspect_object_Nil:
  assumes "\<not> 32 < d"
  shows "inspect_schema (JObj obj) p d = [] \<longleftrightarrow>
    keyword_issues obj p = [] \<and> type_issues obj p = []
    \<and> is_none_or (\<lambda>v. is_some_and (\<lambda>ps. length ps \<le> 256
         \<and> (\<forall>(n, ch) \<in> set ps. inspect_schema ch (p @ ''/properties/'' @ escape_pointer n) (d + 1) = []))
         (as_object v)) (bt_get obj ''properties'')
    \<and> \<not> is_some_and (\<lambda>v. \<not> is_array v) (bt_get obj ''required'') \<and> required_issues obj p = []
    \<and> is_none_or (\<lambda>a. is_boolean a \<or> inspect_schema a (p @ ''/additionalProperties'') (d + 1) = [])
         (bt_get obj ''additionalProperties'')
    \<and> is_none_or (\<lambda>a. inspect_schema a (p @ ''/items'') (d + 1) = []) (bt_get obj ''items'')
    \<and> numeric_keyword_issues obj p = [] \<and> length_keyword_issues obj p = [] \<and> enum_issues obj p = []"
proof -
  have props: "(case v of JObj ps \<Rightarrow> (if 256 < length ps then [x] else []) @ concat (map (\<lambda>(n, ch). f n ch) ps)
             | _ \<Rightarrow> [y]) = [] \<longleftrightarrow>
      is_some_and (\<lambda>ps. length ps \<le> 256 \<and> (\<forall>(n, ch) \<in> set ps. f n ch = [])) (as_object v)"
    for v and x y :: validation_issue and f
    by (cases v) (auto simp: not_less)
  have opt: "(case w of Some a \<Rightarrow> if is_boolean a then [] else f a | None \<Rightarrow> []) = [] \<longleftrightarrow>
      is_none_or (\<lambda>a. is_boolean a \<or> f a = []) w" for w and f :: "json \<Rightarrow> validation_issue list"
    by (cases w) auto
  have tail: "(if b then [x] else xs) = [] \<longleftrightarrow> \<not> b \<and> xs = []" for b and x :: validation_issue and xs
    by simp
  show ?thesis
    unfolding inspect_schema.simps [of "JObj obj"] if_not_P [OF assms] json.case append_is_Nil_conv
      tail opt case_option_Nil props by (rule refl)
qed

lemma inspect_schema_path: "inspect_schema s p d = [] \<longleftrightarrow> inspect_schema s q d = []"
proof (induction s p d arbitrary: q rule: inspect_schema.induct)
  case (1 s p d)
  show ?case
  proof (cases "\<exists>obj. s = JObj obj \<and> \<not> 32 < d")
    case True
    then obtain obj where s: "s = JObj obj" and d: "\<not> 32 < d" by blast
    note IH = 1 [OF d s]
    have parts: "keyword_issues obj p = [] \<longleftrightarrow> keyword_issues obj q = []"
      "type_issues obj p = [] \<longleftrightarrow> type_issues obj q = []"
      "required_issues obj p = [] \<longleftrightarrow> required_issues obj q = []"
      "numeric_keyword_issues obj p = [] \<longleftrightarrow> numeric_keyword_issues obj q = []"
      "length_keyword_issues obj p = [] \<longleftrightarrow> length_keyword_issues obj q = []"
      "enum_issues obj p = [] \<longleftrightarrow> enum_issues obj q = []"
      using required_entry_issues_Nil [of p 0 "[]" _ q 0]
      by (auto simp: keyword_issues_def type_issues_def required_issues_def numeric_keyword_issues_def
          length_keyword_issues_def enum_issues_def split: option.splits json.splits)
    have props: "inspect_schema ch (p @ x) (d + 1) = [] \<longleftrightarrow> inspect_schema ch (q @ x) (d + 1) = []"
      if "bt_get obj ''properties'' = Some (JObj ps)" "(n, ch) \<in> set ps" "x = ''/properties/'' @ escape_pointer n"
      for ps n ch x
      unfolding that(3) by (rule IH(1) [OF that(1) refl that(2) refl])
    show ?thesis
    proof (cases "is_some_and (\<lambda>v. \<not> is_array v) (bt_get obj ''required'')")
      case True
      then show ?thesis unfolding s by (simp add: inspect_object_Nil [OF d])
    next
      case False
      note ad = IH(2) [OF False, of _ "q @ ''/additionalProperties''"] and it = IH(3) [OF False, of _ "q @ ''/items''"]
      have "is_none_or (\<lambda>v. is_some_and (\<lambda>ps. length ps \<le> 256
         \<and> (\<forall>(n, ch) \<in> set ps. inspect_schema ch (p @ ''/properties/'' @ escape_pointer n) (d + 1) = []))
         (as_object v)) (bt_get obj ''properties'') \<longleftrightarrow>
        is_none_or (\<lambda>v. is_some_and (\<lambda>ps. length ps \<le> 256
         \<and> (\<forall>(n, ch) \<in> set ps. inspect_schema ch (q @ ''/properties/'' @ escape_pointer n) (d + 1) = []))
         (as_object v)) (bt_get obj ''properties'')"
      proof (cases "bt_get obj ''properties''")
        case (Some v)
        show ?thesis
        proof (cases v)
          case (JObj ps)
          have "(\<forall>e \<in> set ps. case e of (n, ch) \<Rightarrow> inspect_schema ch (p @ ''/properties/'' @ escape_pointer n) (d + 1) = [])
              \<longleftrightarrow> (\<forall>e \<in> set ps. case e of (n, ch) \<Rightarrow> inspect_schema ch (q @ ''/properties/'' @ escape_pointer n) (d + 1) = [])"
            using props [OF Some [unfolded JObj] _ refl] by (intro ball_cong refl) auto
          then show ?thesis by (simp only: Some JObj is_none_or_simps as_object.simps is_some_and_simps)
        qed (simp_all add: Some)
      qed simp
      moreover have "is_none_or (\<lambda>a. is_boolean a \<or> inspect_schema a (p @ ''/additionalProperties'') (d + 1) = [])
          (bt_get obj ''additionalProperties'') \<longleftrightarrow>
        is_none_or (\<lambda>a. is_boolean a \<or> inspect_schema a (q @ ''/additionalProperties'') (d + 1) = [])
          (bt_get obj ''additionalProperties'')"
        using ad by (cases "bt_get obj ''additionalProperties''") auto
      moreover have "is_none_or (\<lambda>a. inspect_schema a (p @ ''/items'') (d + 1) = []) (bt_get obj ''items'') \<longleftrightarrow>
        is_none_or (\<lambda>a. inspect_schema a (q @ ''/items'') (d + 1) = []) (bt_get obj ''items'')"
        using it by (cases "bt_get obj ''items''") auto
      ultimately show ?thesis unfolding s inspect_object_Nil [OF d] parts by simp
    qed
  next
    case False
    then show ?thesis by (cases s) (auto simp: inspect_schema.simps)
  qed
qed

text \<open>An accepted schema is at most 32 deep and its subschemas are accepted one level down.\<close>

lemma inspected_depth: "inspect_schema s path d = [] \<Longrightarrow> d \<le> 32"
  by (subst (asm) inspect_schema.simps) (auto split: if_splits)

lemma inspected_children:
  assumes "inspect_schema (JObj sch) path d = []"
  shows "property_schema sch n = Some ps \<Longrightarrow> \<exists>p. inspect_schema ps p (d + 1) = []"
    and "bt_get sch ''items'' = Some it \<Longrightarrow> \<exists>p. inspect_schema it p (d + 1) = []"
    and "bt_get sch ''additionalProperties'' = Some ad \<Longrightarrow> is_object ad \<Longrightarrow> \<exists>p. inspect_schema ad p (d + 1) = []"
proof -
  have "\<not> 32 < d" using inspected_depth [OF assms] by simp
  note top = assms [unfolded inspect_object_Nil [OF this]]
  show "property_schema sch n = Some ps \<Longrightarrow> \<exists>p. inspect_schema ps p (d + 1) = []"
    using top by (fastforce simp: property_schema_def is_some_and_iff dest!: bt_get_in_set split: option.splits)
  show "bt_get sch ''items'' = Some it \<Longrightarrow> \<exists>p. inspect_schema it p (d + 1) = []" using top by auto
  show "bt_get sch ''additionalProperties'' = Some ad \<Longrightarrow> is_object ad \<Longrightarrow> \<exists>p. inspect_schema ad p (d + 1) = []"
    using top by (cases ad) auto
qed

lemma concat_indexed_Nil:
  assumes "\<And>i x. x \<in> set xs \<Longrightarrow> f i x = [] \<longleftrightarrow> P x"
  shows "concat (map (\<lambda>(i, x). f i x) (List.enumerate n xs)) = [] \<longleftrightarrow> (\<forall>x \<in> set xs. P x)"
  using assms by (induction xs arbitrary: n) auto

lemma validate_node_conforms:
  "inspect_schema schema p d = [] \<Longrightarrow> validate_node schema inst q d = [] \<longleftrightarrow> conforms schema inst"
proof (induction schema inst arbitrary: p q d rule: conforms.induct)
  case (1 schema inst)
  have d: "\<not> 64 < d" using inspected_depth [OF "1.prems"] by simp
  show ?case
  proof (cases schema)
    case (JObj sch)
    note kids = inspected_children [OF "1.prems" [unfolded JObj]]
    have items: "validate_node it x q' (d + 1) = [] \<longleftrightarrow> conforms it x"
      if "bt_get sch ''items'' = Some it" "inst = JArr xs" "x \<in> set xs" for it x xs q'
      using kids(2) [OF that(1)] "1.IH"(1) [OF JObj that(2,1,3)] by blast
    have props: "validate_node ps v q' (d + 1) = [] \<longleftrightarrow> conforms ps v"
      if "property_schema sch n = Some ps" "inst = JObj m" "(n, v) \<in> set m" for n ps m v q'
      using kids(1) [OF that(1)] "1.IH"(3) [OF JObj that(2,3) refl that(1)] by blast
    have adds: "validate_node ad v q' (d + 1) = [] \<longleftrightarrow> conforms ad v"
      if "property_schema sch n = None" "bt_get sch ''additionalProperties'' = Some ad" "is_object ad"
        "inst = JObj m" "(n, v) \<in> set m" for ad n m v q'
      using kids(3) [OF that(2,3)] "1.IH"(2) [OF JObj that(4,5) refl that(1,2,3)] by blast
    show ?thesis
    proof (cases "is_none_or (\<lambda>t. matches_type t inst) (expected_type sch)")
      case False
      then show ?thesis
        by (simp add: JObj conforms.simps validate_node.simps d is_some_and_iff is_none_or_iff)
    next
      case True
      then have typed: "\<not> is_some_and (\<lambda>t. \<not> matches_type t inst) (expected_type sch)"
        by (simp add: is_some_and_iff is_none_or_iff)
      show ?thesis
      proof (cases inst)
        case (JArr xs)
        have "concat (map (\<lambda>(i, x). validate_node it x (q @ ''/'' @ show_nat i) (d + 1)) (indexed xs)) = []
            \<longleftrightarrow> (\<forall>x \<in> set xs. conforms it x)" if "bt_get sch ''items'' = Some it" for it
          by (rule concat_indexed_Nil) (rule items [OF that JArr])
        then show ?thesis using True typed
          by (simp add: JArr JObj conforms.simps [of "JObj sch"] validate_node.simps [of "JObj sch"] d issue_simps
              split: option.split del: concat_eq_Nil_conv)
      next
        case inst: (JObj m)
        have "(case property_schema sch n of
                 Some ps \<Rightarrow> validate_node ps v p' (d + 1)
               | None \<Rightarrow> (case bt_get sch ''additionalProperties'' of
                    Some ad \<Rightarrow> if json_eq ad (JBool False) then [issue p' msg]
                      else if is_object ad then validate_node ad v p' (d + 1) else []
                  | None \<Rightarrow> [])) = []
            \<longleftrightarrow> (case property_schema sch n of
                 Some ps \<Rightarrow> conforms ps v
               | None \<Rightarrow> (case bt_get sch ''additionalProperties'' of
                    None \<Rightarrow> True
                  | Some a \<Rightarrow> a \<noteq> JBool False \<and> (is_object a \<longrightarrow> conforms a v)))"
          if "(n, v) \<in> set m" for n v p' msg
          using props [OF _ inst that] adds [OF _ _ _ inst that]
          by (auto split: option.split)
        then show ?thesis using True typed
          by (simp add: inst JObj conforms.simps [of "JObj sch"] validate_node.simps [of "JObj sch"] d issue_simps
              concat_map_Nil_iff Let_def case_prod_beta del: concat_eq_Nil_conv)
      qed (use True typed in \<open>simp_all add: JObj conforms.simps validate_node.simps d issue_simps\<close>)
    qed
  qed (simp_all add: conforms.simps validate_node.simps d)
qed

section \<open>Numeric bounds\<close>

text \<open>Integers of at most 53 bits are floats, so bounds on them are exact.\<close>

definition small_int :: "int \<Rightarrow> bool" where
  "small_int n \<longleftrightarrow> \<bar>n\<bar> \<le> 2 ^ 53"

definition jint :: "int \<Rightarrow> json" where
  "jint n = JNum (if 0 \<le> n then PosInt (nat n) else NegInt n)"

lemma as_f64_jint: "as_f64 (jint n) = Some (int_as_f64 n)"
  by (simp add: jint_def)

lemma half_even_grid:
  assumes "q \<le> 0"
  shows "of_int (half_even (of_int n / pow2 q)) * pow2 q = of_int n"
proof -
  have "(of_int n :: rat) / pow2 q = of_int (n * 2 ^ nat (- q))"
    using assms by (auto simp: pow2_def)
  then have "half_even ((of_int n :: rat) / pow2 q) = n * 2 ^ nat (- q)" by (simp only: half_even_of_int)
  then show ?thesis using assms by (auto simp: pow2_def)
qed

lemma round_mag_small_int:
  assumes "0 < n" and "n \<le> 2 ^ 53"
  shows "round_mag (of_int n) = Some (of_int n)"
proof (cases "n = 2 ^ 53")
  case True
  show ?thesis unfolding True by code_simp
next
  case False
  with assms have "n < 2 ^ 53" by simp
  then have "(of_int n :: rat) < of_int (2 ^ 53)" unfolding of_int_less_iff .
  then have "(of_int n :: rat) < pow2 53" by (simp add: pow2_def)
  with assms have e: "exponent_of (of_int n) < 53" by (intro exponent_of_less) simp_all
  then have q: "max (exponent_of (of_int n) - 52) (- 1074) \<le> 0" by simp
  show ?thesis
    using e half_even_grid [OF q, of n] by (simp add: round_mag_def Let_def)
qed

lemma int_as_f64_small: "small_int n \<Longrightarrow> int_as_f64 n = Fin (of_int n)"
  using round_mag_small_int [of "\<bar>n\<bar>"]
  by (auto simp: int_as_f64_def rnd_def rnd_sign_def small_int_def of_int_abs abs_if split: if_splits)

section \<open>Properties\<close>

text \<open>
  C25. Validation decides conformance: an instance is accepted exactly when its schema is a valid
  document of the profile and the instance conforms to it. The depth limits of the two
  recursions never change the answer: a schema the inspection accepts is at most 32 levels deep,
  so the 64-level limit on instances is never what rejects one.
\<close>

theorem validate_instance_decides_conformance:
  "validate_instance schema inst = Ok () \<longleftrightarrow>
     validate_schema_document schema ''$schema'' = [] \<and> conforms schema inst"
  by (auto simp: validate_instance_def validate_schema_document_def validate_node_conforms Let_def)

text \<open>
  Numeric bounds on integers of at most 53 bits are exact: an integer violates a minimum,
  maximum, exclusive minimum or exclusive maximum exactly when the integers are so ordered.
\<close>

theorem integer_bounds_exact:
  assumes "small_int n" and "small_int b"
  shows "(check_numeric_bound [(''minimum'', jint b)] ''minimum'' (int_as_f64 n) False path = [] \<longleftrightarrow> b \<le> n)
    \<and> (check_numeric_bound [(''maximum'', jint b)] ''maximum'' (int_as_f64 n) False path = [] \<longleftrightarrow> n \<le> b)
    \<and> (check_numeric_bound [(''exclusiveMinimum'', jint b)] ''exclusiveMinimum'' (int_as_f64 n) True path = [] \<longleftrightarrow> b < n)
    \<and> (check_numeric_bound [(''exclusiveMaximum'', jint b)] ''exclusiveMaximum'' (int_as_f64 n) True path = [] \<longleftrightarrow> n < b)"
  using assms
  by (simp add: check_numeric_bound_Nil keyword_def as_f64_jint int_as_f64_small f64_order_finite not_less not_le)

theorem integer_bounds_exact_witness:
  "check_numeric_bound [(''maximum'', jint 60)] ''maximum'' (int_as_f64 30) False ''$'' = []
   \<and> check_numeric_bound [(''minimum'', jint 5)] ''minimum'' (int_as_f64 2) False ''$'' \<noteq> []"
  using integer_bounds_exact [of 30 60 "''$''"] integer_bounds_exact [of 2 5 "''$''"]
  by (simp add: small_int_def)

section \<open>How far the maximum of an integer schema is exact\<close>

definition at_most :: "int \<Rightarrow> json" where
  "at_most b = JObj [(''maximum'', jint b), (''type'', JStr ''integer'')]"

lemma at_most_valid: "validate_schema_document (at_most b) ''$schema'' = []"
  by (simp add: at_most_def validate_schema_document_def inspect_schema.simps keyword_issues_def type_issues_def
      numeric_keyword_issues_def length_keyword_issues_def enum_issues_def required_issues_def SUPPORTED_KEYWORDS_def TYPE_NAMES_def
      bt_get_def jint_def)

lemma validate_at_most:
  "validate_instance (at_most b) (jint n) = Ok () \<longleftrightarrow> \<not> f64_lt (int_as_f64 b) (int_as_f64 n)"
proof -
  have "validate_instance (at_most b) (jint n) = Ok () \<longleftrightarrow> conforms (at_most b) (jint n)"
    using at_most_valid [of b]
    by (simp add: validate_instance_def validate_schema_document_def validate_node_conforms Let_def)
  then show ?thesis
    by (simp add: at_most_def conforms.simps expected_type_def value_ok_def number_ok_def keyword_def bt_get_def as_f64_jint)
      (simp add: jint_def matches_type_def)
qed

lemma half_even_le_even: "even m \<Longrightarrow> half_even r \<le> m \<longleftrightarrow> r \<le> of_int m + 1 / 2"
proof -
  assume "even m"
  have f: "of_int \<lfloor>r\<rfloor> \<le> r" "r < of_int \<lfloor>r\<rfloor> + 1" by linarith+
  consider "\<lfloor>r\<rfloor> < m" | "\<lfloor>r\<rfloor> = m" | "m < \<lfloor>r\<rfloor>" by linarith
  then show ?thesis
  proof cases
    case 1
    then have "half_even r \<le> m" by (auto simp: half_even_def Let_def)
    moreover have "r < of_int m" using 1 by linarith
    ultimately show ?thesis by simp
  next
    case 2
    with \<open>even m\<close> show ?thesis by (auto simp: half_even_def Let_def)
  next
    case 3
    then have "m < half_even r" by (auto simp: half_even_def Let_def)
    moreover have "of_int m + 1 \<le> r" using 3 by linarith
    ultimately show ?thesis by linarith
  qed
qed

lemma exponent_of_int:
  assumes "2 ^ k \<le> n" and "n < 2 ^ Suc k"
  shows "exponent_of (of_int n) = int k"
proof -
  have n: "0 < n" using assms(1) by (meson less_le_trans zero_less_numeral zero_less_power)
  have p: "pow2 (int j) = of_int (2 ^ j)" for j by (simp add: pow2_of_nat)
  have "pow2 (exponent_of (of_int n)) < pow2 (int (Suc k))"
    using exponent_of_bounds(1) [of "of_int n"] n assms(2) unfolding p by (metis of_int_0_less_iff of_int_less_iff le_less_trans)
  moreover have "pow2 (int k) < pow2 (exponent_of (of_int n) + 1)"
    using exponent_of_bounds(2) [of "of_int n"] n assms(1) unfolding p by (metis of_int_0_less_iff of_int_le_iff le_less_trans)
  ultimately have "exponent_of (of_int n) < int (Suc k)" "int k < exponent_of (of_int n) + 1" by (blast intro: pow2_less_imp)+
  then show ?thesis by simp
qed

lemma int_as_f64_binade:
  assumes "52 \<le> k" and "k < 64" and "2 ^ k \<le> n" and "n < 2 ^ Suc k"
  shows "int_as_f64 n = Fin (of_int (half_even (of_int n / 2 ^ (k - 52))) * 2 ^ (k - 52))"
proof -
  have n: "0 < n" using assms(3) by (meson less_le_trans zero_less_numeral zero_less_power)
  have e: "exponent_of (of_int n) = int k" using exponent_of_int [OF assms(3,4)] .
  have q: "pow2 (int k - 52) = 2 ^ (k - 52)" using assms(1) by (simp add: pow2_def nat_diff_distrib)
  have r: "round_mag (of_int n) = Some (of_int (half_even (of_int n / 2 ^ (k - 52))) * 2 ^ (k - 52))"
    using assms(1,2) by (simp add: round_mag_def Let_def e q max_def)
  have "(2::int) ^ (k - 52) \<le> 2 ^ k" by simp
  with assms(3) have "(2::int) ^ (k - 52) \<le> n" by linarith
  then have "(2::rat) ^ (k - 52) \<le> of_int n" by (metis of_int_le_iff of_int_numeral of_int_power)
  then have "1 \<le> half_even (of_int n / 2 ^ (k - 52))" by (intro half_even_mono_int) simp
  then show ?thesis using n r by (simp add: int_as_f64_def rnd_def rnd_sign_def)
qed

text \<open>
  C40. An integer schema with a maximum accepts exactly the integers up to it as long as both have at
  most 53 bits. Beyond, instance and bound are compared after conversion to floats: with maximum
  \<open>2^k\<close> the integers of its binade are accepted exactly up to half a unit in the last place above
  it, \<open>2^k + 2^(k-53)\<close>, so that at least one integer greater than the maximum always passes.
\<close>

theorem integer_maximum_precision:
  assumes "53 \<le> k" and "k < 64" and "2 ^ k \<le> n" and "n < 2 ^ Suc k" and "small_int m" and "small_int b"
  shows "(validate_instance (at_most b) (jint m) = Ok () \<longleftrightarrow> m \<le> b)
    \<and> (validate_instance (at_most (2 ^ k)) (jint n) = Ok () \<longleftrightarrow> n \<le> 2 ^ k + 2 ^ (k - 53))"
proof
  show "validate_instance (at_most b) (jint m) = Ok () \<longleftrightarrow> m \<le> b"
    using assms(5,6) by (simp add: validate_at_most int_as_f64_small f64_order_finite not_less)
  define u where "u = (2::rat) ^ (k - 52)"
  have u: "0 < u" by (simp add: u_def)
  have k: "(2::rat) ^ k = 2 ^ 52 * u" "(2::rat) ^ (k - 53) = u / 2"
    using assms(1) by (simp_all add: u_def power_add [symmetric] power_diff)
  have "half_even (of_int (2 ^ k) / u) = 2 ^ 52"
  proof -
    have "(of_int (2 ^ k) :: rat) / u = of_int (2 ^ 52)" using k(1) u by simp
    then show ?thesis by (simp only: half_even_of_int)
  qed
  then have bound: "int_as_f64 (2 ^ k) = Fin (2 ^ 52 * u)"
    using int_as_f64_binade [of k "2 ^ k"] assms(1,2) by (simp add: u_def)
  have inst: "int_as_f64 n = Fin (of_int (half_even (of_int n / u)) * u)"
    using int_as_f64_binade [of k n] assms(1-4) by (simp add: u_def)
  have "validate_instance (at_most (2 ^ k)) (jint n) = Ok () \<longleftrightarrow> half_even (of_int n / u) \<le> 2 ^ 52"
  proof -
    have "of_int (half_even (of_int n / u)) * u \<le> 2 ^ 52 * u \<longleftrightarrow> of_int (half_even (of_int n / u)) \<le> (of_int (2 ^ 52) :: rat)" using u by simp
    then show ?thesis unfolding of_int_le_iff by (simp add: validate_at_most bound inst f64_order_finite not_less)
  qed
  also have "\<dots> \<longleftrightarrow> of_int n / u \<le> 2 ^ 52 + 1 / 2" using half_even_le_even [of "2 ^ 52" "of_int n / u"] by simp
  also have "\<dots> \<longleftrightarrow> of_int n \<le> 2 ^ k + (2::rat) ^ (k - 53)" unfolding k using u by (simp add: pos_divide_le_eq distrib_right)
  also have "\<dots> \<longleftrightarrow> n \<le> 2 ^ k + 2 ^ (k - 53)" using of_int_le_iff [of n "2 ^ k + 2 ^ (k - 53)", where 'a = rat] by simp
  finally show "validate_instance (at_most (2 ^ k)) (jint n) = Ok () \<longleftrightarrow> n \<le> 2 ^ k + 2 ^ (k - 53)" .
qed

theorem integer_maximum_precision_witness:
  "(validate_instance (at_most 100) (jint 101) \<noteq> Ok ())
   \<and> validate_instance (at_most 9007199254740992) (jint 9007199254740993) = Ok ()
   \<and> validate_instance (at_most 9007199254740992) (jint 9007199254740994) \<noteq> Ok ()"
  using integer_maximum_precision [of 53 9007199254740993 101 100] integer_maximum_precision [of 53 9007199254740994 101 100]
  by (simp add: small_int_def)

end
