(* ===== verification/Validation.thy ===== *)
theory Validation
  imports Blueprint_Model Schema
begin

text \<open>
  \<^verbatim>\<open>crates/device-contract/src/validation.rs\<close>: the semantic checks a blueprint passes before it is
  published. \<open>validate_blueprint\<close> is cut into one definition per block of the source function;
  each returns the issues its block pushes. \<open>blueprint_valid\<close> is the specification: what a
  blueprint that passes is known to satisfy.
\<close>

section \<open>Keys, durations and addresses\<close>

definition quote :: "string \<Rightarrow> string" where
  "quote s = [CHR 0x27] @ s @ [CHR 0x27]"

definition key_byte :: "char \<Rightarrow> bool" where
  "key_byte c \<longleftrightarrow> is_ascii_lowercase c \<or> is_ascii_digit c \<or> c = CHR ''-'' \<or> c = CHR ''_'' \<or> c = CHR ''.''"

definition key_ok :: "string \<Rightarrow> bool" where
  "key_ok s \<longleftrightarrow> 1 \<le> length s \<and> length s \<le> 64 \<and> is_ascii_lowercase (hd s) \<and> list_all key_byte s"

definition KEY_MESSAGE :: string where
  "KEY_MESSAGE = ''key must start with a lowercase letter and contain 1-64 lowercase letters, digits, ''
     @ quote ''-'' @ '', '' @ quote ''_'' @ '', or '' @ quote ''.''"

definition validate_key :: "string \<Rightarrow> string \<Rightarrow> validation_issue list" where
  "validate_key s path = (if key_ok s then [] else [issue path KEY_MESSAGE])"

definition validate_schema_key :: "string \<Rightarrow> string \<Rightarrow> validation_issue list" where
  "validate_schema_key s path = (case rsplit_once (CHR ''@'') s of
      None \<Rightarrow> [issue path (''schema key must end in '' @ quote ''@<version>'')]
    | Some (name, version) \<Rightarrow>
        validate_key name path
        @ (if is_none_or (\<lambda>v. v = 0) (parse_u32 version)
           then [issue path ''schema version must be a positive integer''] else []))"

definition checked_mul_u64 :: "nat \<Rightarrow> nat \<Rightarrow> nat option" where
  "checked_mul_u64 a b = (if a * b < 2 ^ 64 then Some (a * b) else None)"

definition parse_duration_ms :: "string \<Rightarrow> nat option" where
  "parse_duration_ms s =
     (case (case strip_suffix ''ms'' s of
              Some number \<Rightarrow> Some (number, 1)
            | None \<Rightarrow>
                (case strip_suffix ''s'' s of
                   Some number \<Rightarrow> Some (number, 1000)
                 | None \<Rightarrow>
                     (case strip_suffix ''m'' s of
                        Some number \<Rightarrow> Some (number, 60000)
                      | None \<Rightarrow>
                          (case strip_suffix ''h'' s of
                             Some number \<Rightarrow> Some (number, 3600000)
                           | None \<Rightarrow> None)))) of
        None \<Rightarrow> None
      | Some (number, multiplier) \<Rightarrow>
          (case parse_u64 number of None \<Rightarrow> None | Some n \<Rightarrow> checked_mul_u64 n multiplier))"

definition validate_duration :: "string \<Rightarrow> string \<Rightarrow> validation_issue list" where
  "validate_duration s path =
     (if is_none_or (\<lambda>d. d = 0) (parse_duration_ms s)
      then [issue path ''duration must be a positive integer followed by ms, s, m, or h''] else [])"

definition DEVICE_VARIABLE :: string where
  "DEVICE_VARIABLE = ''{device.id}''"

definition validate_address :: "string \<Rightarrow> nat \<Rightarrow> validation_issue list" where
  "validate_address s i =
     (let path = ''/spec/routes/'' @ show_nat i @ ''/address'';
          without_device = str_replace DEVICE_VARIABLE [] s
      in (if s = [] \<or> 512 < length s then [issue path ''address must contain 1-512 bytes''] else [])
         @ (if CHR ''{'' \<in> set without_device \<or> CHR ''}'' \<in> set without_device
            then [issue path ''only the {device.id} template variable is allowed''] else [])
         @ (if CHR ''*'' \<in> set s \<or> CHR ''#'' \<in> set s
            then [issue path ''wildcards are not allowed in device route addresses''] else []))"

fun encoding_compatible :: "payload_encoding \<Rightarrow> schema_format \<Rightarrow> bool" where
  "encoding_compatible EncJson JsonSchema = True"
| "encoding_compatible EncCbor JsonSchema = True"
| "encoding_compatible EncProtobufDynamic ProtobufDescriptor = True"
| "encoding_compatible EncRaw Opaque = True"
| "encoding_compatible _ _ = False"

definition validate_encoding_schema :: "payload_encoding \<Rightarrow> schema_format \<Rightarrow> nat \<Rightarrow> validation_issue list" where
  "validate_encoding_schema encoding format i =
     (if encoding_compatible encoding format then []
      else [issue (''/spec/routes/'' @ show_nat i @ ''/encoding'')
              ''encoding is incompatible with the referenced schema format''])"

definition is_json_pointer :: "string \<Rightarrow> bool" where
  "is_json_pointer s \<longleftrightarrow> starts_with ''/'' s \<and> \<not> contains_str ''//'' s"

definition is_color :: "string \<Rightarrow> bool" where
  "is_color s \<longleftrightarrow> length s = 7 \<and> starts_with ''#'' s \<and> list_all is_ascii_hexdigit (tl s)"

section \<open>Indexes\<close>

text \<open>\<^verbatim>\<open>keyed\<close> builds the index of a list of declarations and reports the keys met before.\<close>

definition keyed :: "('a \<Rightarrow> string) \<Rightarrow> 'a list \<Rightarrow> (string, 'a) btree" where
  "keyed key items = bt_collect (map (\<lambda>x. (key x, x)) items)"

definition keyed_issues :: "('a \<Rightarrow> string) \<Rightarrow> string \<Rightarrow> 'a list \<Rightarrow> validation_issue list" where
  "keyed_issues key path items =
     concat (map (\<lambda>(i, x). if key x \<in> key ` set (take i items)
       then [issue (path @ ''/'' @ show_nat i @ ''/key'') (''duplicate key '' @ quote (key x))] else [])
       (indexed items))"

section \<open>The blocks of the validation\<close>

definition header_issues :: "device_blueprint \<Rightarrow> validation_issue list" where
  "header_issues bp =
     (if bp_api_version bp \<noteq> BLUEPRINT_API_VERSION
      then [issue ''/apiVersion'' (''must equal '' @ quote BLUEPRINT_API_VERSION)] else [])
     @ (if bp_kind bp \<noteq> BLUEPRINT_KIND
        then [issue ''/kind'' (''must equal '' @ quote BLUEPRINT_KIND)] else [])
     @ validate_key (md_key (bp_metadata bp)) ''/metadata/key''
     @ (if trim_is_empty (md_name (bp_metadata bp)) \<or> 128 < length (md_name (bp_metadata bp))
        then [issue ''/metadata/name'' ''name must contain 1-128 bytes''] else [])
     @ (if is_some_and (\<lambda>c. \<not> is_color c) (md_color (bp_metadata bp))
        then [issue ''/metadata/color'' ''color must be a #RRGGBB value''] else [])"

definition runtime_issues :: "runtime_definition \<Rightarrow> validation_issue list" where
  "runtime_issues runtime =
     (let heartbeat_ms = parse_duration_ms (hb_interval (rd_heartbeat runtime));
          offline_ms = parse_duration_ms (hb_offline_after (rd_heartbeat runtime));
          limits = rd_limits runtime
      in (if rd_minimum_contract_api runtime = 0 \<or> CONTRACT_API_VERSION < rd_minimum_contract_api runtime
          then [issue ''/spec/runtime/minimumContractApi''
                  (''must be between 1 and '' @ show_nat CONTRACT_API_VERSION)] else [])
         @ validate_duration (hb_interval (rd_heartbeat runtime)) ''/spec/runtime/heartbeat/interval''
         @ validate_duration (hb_offline_after (rd_heartbeat runtime)) ''/spec/runtime/heartbeat/offlineAfter''
         @ (case (heartbeat_ms, offline_ms) of
              (Some h, Some off) \<Rightarrow>
                if off \<le> h
                then [issue ''/spec/runtime/heartbeat/offlineAfter'' ''must be greater than the heartbeat interval'']
                else []
            | _ \<Rightarrow> [])
         @ (if rl_max_message_bytes limits = 0
            then [issue ''/spec/runtime/limits/maxMessageBytes'' ''must be greater than zero''] else [])
         @ (if rl_max_messages_per_minute limits = 0
            then [issue ''/spec/runtime/limits/maxMessagesPerMinute'' ''must be greater than zero''] else [])
         @ (if rl_max_metric_cardinality limits = 0
            then [issue ''/spec/runtime/limits/maxMetricCardinality'' ''must be greater than zero''] else []))"

definition transport_issues :: "blueprint_spec \<Rightarrow> validation_issue list" where
  "transport_issues spec =
     keyed_issues tr_key ''/spec/transports'' (sp_transports spec)
     @ concat (map (\<lambda>(i, t).
         validate_key (tr_key t) (''/spec/transports/'' @ show_nat i @ ''/key'')
         @ validate_key (tr_binding t) (''/spec/transports/'' @ show_nat i @ ''/binding''))
         (indexed (sp_transports spec)))"

definition schema_issues :: "blueprint_spec \<Rightarrow> validation_issue list" where
  "schema_issues spec =
     keyed_issues sd_key ''/spec/schemas'' (sp_schemas spec)
     @ concat (map (\<lambda>(i, s).
         validate_schema_key (sd_key s) (''/spec/schemas/'' @ show_nat i @ ''/key'')
         @ (if sd_format s = JsonSchema
            then validate_schema_document (sd_schema s) (''/spec/schemas/'' @ show_nat i @ ''/schema'')
            else []))
         (indexed (sp_schemas spec)))"

definition ZENOH_PREFIX :: string where
  "ZENOH_PREFIX = ''extrittio/devices/{device.id}/''"

definition route_item_issues :: "blueprint_spec \<Rightarrow> nat \<Rightarrow> route_definition \<Rightarrow> validation_issue list" where
  "route_item_issues spec i r =
     (let transports = keyed tr_key (sp_transports spec);
          schemas = keyed sd_key (sp_schemas spec);
          path = ''/spec/routes/'' @ show_nat i
      in validate_key (ro_key r) (path @ ''/key'')
         @ (if \<not> bt_contains_key transports (ro_transport r)
            then [issue (path @ ''/transport'') (''unknown transport '' @ quote (ro_transport r))] else [])
         @ (if \<not> starts_with ''extrittio.'' (ro_message_schema r)
              \<and> \<not> bt_contains_key schemas (ro_message_schema r)
            then [issue (path @ ''/messageSchema'') (''unknown schema '' @ quote (ro_message_schema r))] else [])
         @ validate_address (ro_address r) i
         @ (if is_some_and (\<lambda>t. tr_protocol t = Zenoh) (bt_get transports (ro_transport r))
              \<and> \<not> starts_with ZENOH_PREFIX (ro_address r)
            then [issue (path @ ''/address'')
                    (''Zenoh route addresses must start with '' @ quote ZENOH_PREFIX)] else [])
         @ (case bt_get schemas (ro_message_schema r) of
              Some s \<Rightarrow> validate_encoding_schema (ro_encoding r) (sd_format s) i
            | None \<Rightarrow> []))"

definition route_issues :: "blueprint_spec \<Rightarrow> validation_issue list" where
  "route_issues spec =
     keyed_issues ro_key ''/spec/routes'' (sp_routes spec)
     @ concat (map (\<lambda>(i, r). route_item_issues spec i r) (indexed (sp_routes spec)))"

definition field_issues :: "string \<Rightarrow> field_definition list \<Rightarrow> nat \<Rightarrow> field_definition \<Rightarrow> validation_issue list" where
  "field_issues stream_path fs j f =
     (let path = stream_path @ ''/fields/'' @ show_nat j
      in (if \<not> is_json_pointer (fd_path f)
          then [issue (path @ ''/path'') ''field path must be an absolute JSON pointer''] else [])
         @ (if fd_path f \<in> fd_path ` set (take j fs)
            then [issue (path @ ''/path'') ''field path must be unique within its stream''] else [])
         @ (if trim_is_empty (fd_label f) then [issue (path @ ''/label'') ''label must not be empty''] else [])
         @ (if \<not> is_numeric (fd_value_type f)
              \<and> (\<exists>a \<in> set (fd_aggregates f). a \<noteq> AgCount \<and> a \<noteq> AgLast)
            then [issue (path @ ''/aggregates'') ''non-numeric fields support only count and last aggregates'']
            else []))"

definition stream_item_issues :: "blueprint_spec \<Rightarrow> nat \<Rightarrow> stream_definition \<Rightarrow> validation_issue list" where
  "stream_item_issues spec i s =
     (let path = ''/spec/streams/'' @ show_nat i in
      validate_key (st_key s) (path @ ''/key'')
      @ (case bt_get (keyed ro_key (sp_routes spec)) (st_route s) of
           None \<Rightarrow> [issue (path @ ''/route'') (''unknown route '' @ quote (st_route s))]
         | Some r \<Rightarrow>
             if ro_direction r \<noteq> DeviceToCloud
             then [issue (path @ ''/route'') ''stream route must have device_to_cloud direction''] else [])
      @ concat (map (\<lambda>(j, f). field_issues path (st_fields s) j f) (indexed (st_fields s))))"

definition stream_issues :: "blueprint_spec \<Rightarrow> validation_issue list" where
  "stream_issues spec =
     keyed_issues st_key ''/spec/streams'' (sp_streams spec)
     @ concat (map (\<lambda>(i, s). stream_item_issues spec i s) (indexed (sp_streams spec)))"

text \<open>The metric names the declared fields give, as health signals and summaries refer to them.\<close>

definition metric_paths :: "blueprint_spec \<Rightarrow> string list" where
  "metric_paths spec =
     concat (map (\<lambda>s. map (\<lambda>f. st_key s @ ''.'' @ fd_path f) (st_fields s)) (sp_streams spec))"

definition location_issues :: "blueprint_spec \<Rightarrow> validation_issue list" where
  "location_issues spec = (case sp_location spec of
      None \<Rightarrow> []
    | Some l \<Rightarrow>
        validate_duration (lo_max_age l) ''/spec/location/maxAge''
        @ (if lo_latitude_path l = lo_longitude_path l
           then [issue ''/spec/location/longitudePath'' ''coordinates must reference distinct fields''] else [])
        @ (case bt_get (keyed st_key (sp_streams spec)) (lo_stream l) of
             Some s \<Rightarrow>
               concat (map (\<lambda>(name, pointer).
                 if \<exists>f \<in> set (st_fields s). fd_path f = pointer \<and> is_numeric (fd_value_type f) then []
                 else [issue (''/spec/location/'' @ name)
                         ''must reference a declared numeric field in the location stream''])
                 [(''latitudePath'', lo_latitude_path l), (''longitudePath'', lo_longitude_path l)])
           | None \<Rightarrow> [issue ''/spec/location/stream'' ''unknown location stream'']))"

definition command_route_issues ::
  "blueprint_spec \<Rightarrow> string \<Rightarrow> route_direction \<Rightarrow> string \<Rightarrow> string \<Rightarrow> validation_issue list" where
  "command_route_issues spec route direction path message =
     (case bt_get (keyed ro_key (sp_routes spec)) route of
        Some r \<Rightarrow> if ro_direction r = direction then [] else [issue path message]
      | None \<Rightarrow> [issue path (''unknown route '' @ quote route)])"

definition command_item_issues :: "blueprint_spec \<Rightarrow> nat \<Rightarrow> command_definition \<Rightarrow> validation_issue list" where
  "command_item_issues spec i c =
     (let path = ''/spec/commands/'' @ show_nat i in
      validate_key (cm_key c) (path @ ''/key'')
      @ validate_duration (cm_timeout c) (path @ ''/timeout'')
      @ command_route_issues spec (cm_request_route c) CloudToDevice (path @ ''/requestRoute'')
          ''command request route must be cloud_to_device''
      @ command_route_issues spec (cm_response_route c) DeviceToCloud (path @ ''/responseRoute'')
          ''command response route must be device_to_cloud''
      @ validate_schema_document (cm_input_schema c) (path @ ''/inputSchema'')
      @ validate_schema_document (cm_result_schema c) (path @ ''/resultSchema''))"

definition command_issues :: "blueprint_spec \<Rightarrow> validation_issue list" where
  "command_issues spec =
     keyed_issues cm_key ''/spec/commands'' (sp_commands spec)
     @ concat (map (\<lambda>(i, c). command_item_issues spec i c) (indexed (sp_commands spec)))"

definition default_issues :: "configuration_definition \<Rightarrow> validation_issue list" where
  "default_issues c =
     (if is_null (cf_defaults c) then []
      else case validate_instance (cf_schema c) (cf_defaults c) of
        Inr _ \<Rightarrow> []
      | Inl e \<Rightarrow>
          (case validation_issues e of
             None \<Rightarrow> []
           | Some found \<Rightarrow>
               map (\<lambda>x. issue (''/spec/configuration/defaults'' @ trim_start_matches (CHR ''$'') (vi_path x))
                          (vi_message x)) found))"

definition configuration_issues :: "blueprint_spec \<Rightarrow> validation_issue list" where
  "configuration_issues spec = (case sp_configuration spec of
      None \<Rightarrow> []
    | Some c \<Rightarrow>
        let found = validate_schema_document (cf_schema c) ''/spec/configuration/schema''
        in (if found = [] then default_issues c else [])
           @ found
           @ validate_duration (ap_acknowledgement_timeout (cf_apply c))
               ''/spec/configuration/apply/acknowledgementTimeout'')"

definition reported_state_issues :: "blueprint_spec \<Rightarrow> validation_issue list" where
  "reported_state_issues spec = (case sp_reported_state spec of
      None \<Rightarrow> []
    | Some r \<Rightarrow> validate_schema_document (rs_schema r) ''/spec/reportedState/schema'')"

definition health_issues :: "blueprint_spec \<Rightarrow> validation_issue list" where
  "health_issues spec = (case sp_health spec of
      None \<Rightarrow> []
    | Some h \<Rightarrow>
        keyed_issues hs_key ''/spec/health/signals'' (he_signals h)
        @ concat (map (\<lambda>(i, g).
            validate_key (hs_key g) (''/spec/health/signals/'' @ show_nat i @ ''/key'')
            @ (if hs_source g = SourceMetric \<and> hs_path g \<notin> set (metric_paths spec)
               then [issue (''/spec/health/signals/'' @ show_nat i @ ''/path'')
                       (''unknown metric '' @ quote (hs_path g))] else []))
            (indexed (he_signals h))))"

definition relationship_issues :: "blueprint_spec \<Rightarrow> validation_issue list" where
  "relationship_issues spec =
     concat (map (\<lambda>(i, r).
       validate_key (rp_key r) (''/spec/relationships/'' @ show_nat i @ ''/key'')
       @ (if \<not> bt_contains_key (keyed st_key (sp_streams spec)) (rp_stream r)
          then [issue (''/spec/relationships/'' @ show_nat i @ ''/stream'')
                  (''unknown stream '' @ quote (rp_stream r))] else [])
       @ (if \<not> is_json_pointer (rp_target_key_path r)
          then [issue (''/spec/relationships/'' @ show_nat i @ ''/targetKeyPath'')
                  ''target key path must be an absolute JSON pointer''] else []))
       (indexed (sp_relationships spec)))"

definition presentation_issues :: "blueprint_spec \<Rightarrow> validation_issue list" where
  "presentation_issues spec = (case sp_presentation spec of
      None \<Rightarrow> []
    | Some p \<Rightarrow>
        concat (map (\<lambda>(i, m). if mr_metric m \<notin> set (metric_paths spec)
          then [issue (''/spec/presentation/summary/'' @ show_nat i @ ''/metric'')
                  (''unknown metric '' @ quote (mr_metric m))] else [])
          (indexed (pr_summary p))))"

definition cardinality_issues :: "blueprint_spec \<Rightarrow> validation_issue list" where
  "cardinality_issues spec =
     (if rl_max_metric_cardinality (rd_limits (sp_runtime spec))
         < sum_list (map (\<lambda>s. length (st_fields s)) (sp_streams spec))
      then [issue ''/spec/streams'' ''declared field count exceeds runtime maxMetricCardinality''] else [])"

datatype validated_blueprint = ValidatedBlueprint (blueprint: device_blueprint)

definition blueprint_issues :: "device_blueprint \<Rightarrow> validation_issue list" where
  "blueprint_issues bp =
     (let spec = bp_spec bp in
      header_issues bp @ runtime_issues (sp_runtime spec) @ transport_issues spec @ schema_issues spec
      @ route_issues spec @ stream_issues spec @ location_issues spec @ command_issues spec
      @ configuration_issues spec @ reported_state_issues spec @ health_issues spec
      @ relationship_issues spec @ presentation_issues spec @ cardinality_issues spec)"

definition validate_blueprint :: "device_blueprint \<Rightarrow> (contract_error, validated_blueprint) result" where
  "validate_blueprint bp =
     (let issues = blueprint_issues bp
      in if issues = [] then Ok (ValidatedBlueprint bp)
         else Err (InvalidBlueprint (length issues) issues))"

section \<open>Specification\<close>

text \<open>What the references and settings of an accepted blueprint satisfy.\<close>

definition schema_key_ok :: "string \<Rightarrow> bool" where
  "schema_key_ok s \<longleftrightarrow> (\<exists>name version n. rsplit_once (CHR ''@'') s = Some (name, version)
     \<and> key_ok name \<and> parse_u32 version = Some n \<and> 0 < n)"

definition duration_ok :: "string \<Rightarrow> bool" where
  "duration_ok s \<longleftrightarrow> (\<exists>n. parse_duration_ms s = Some n \<and> 0 < n)"

definition address_ok :: "string \<Rightarrow> bool" where
  "address_ok s \<longleftrightarrow> s \<noteq> [] \<and> length s \<le> 512
     \<and> CHR ''{'' \<notin> set (str_replace DEVICE_VARIABLE [] s) \<and> CHR ''}'' \<notin> set (str_replace DEVICE_VARIABLE [] s)
     \<and> CHR ''*'' \<notin> set s \<and> CHR ''#'' \<notin> set s"

definition schema_doc_ok :: "json \<Rightarrow> bool" where
  "schema_doc_ok s \<longleftrightarrow> validate_schema_document s ''$schema'' = []"

definition runtime_ok :: "runtime_definition \<Rightarrow> bool" where
  "runtime_ok rt \<longleftrightarrow> rd_minimum_contract_api rt = 1
     \<and> (\<exists>h off. parse_duration_ms (hb_interval (rd_heartbeat rt)) = Some h
          \<and> parse_duration_ms (hb_offline_after (rd_heartbeat rt)) = Some off \<and> 0 < h \<and> h < off)
     \<and> 0 < rl_max_message_bytes (rd_limits rt) \<and> 0 < rl_max_messages_per_minute (rd_limits rt)
     \<and> 0 < rl_max_metric_cardinality (rd_limits rt)"

definition transport_ok :: "transport_definition \<Rightarrow> bool" where
  "transport_ok t \<longleftrightarrow> key_ok (tr_key t) \<and> key_ok (tr_binding t)"

definition schema_ok :: "schema_definition \<Rightarrow> bool" where
  "schema_ok s \<longleftrightarrow> schema_key_ok (sd_key s) \<and> (sd_format s = JsonSchema \<longrightarrow> schema_doc_ok (sd_schema s))"

definition route_ok :: "blueprint_spec \<Rightarrow> route_definition \<Rightarrow> bool" where
  "route_ok spec r \<longleftrightarrow> key_ok (ro_key r) \<and> address_ok (ro_address r)
     \<and> (\<exists>t \<in> set (sp_transports spec). tr_key t = ro_transport r
          \<and> (tr_protocol t = Zenoh \<longrightarrow> starts_with ZENOH_PREFIX (ro_address r)))
     \<and> (starts_with ''extrittio.'' (ro_message_schema r)
        \<or> (\<exists>s \<in> set (sp_schemas spec). sd_key s = ro_message_schema r))
     \<and> (\<forall>s \<in> set (sp_schemas spec). sd_key s = ro_message_schema r \<longrightarrow>
          encoding_compatible (ro_encoding r) (sd_format s))"

definition route_exists :: "blueprint_spec \<Rightarrow> string \<Rightarrow> route_direction \<Rightarrow> bool" where
  "route_exists spec k dir \<longleftrightarrow> (\<exists>r \<in> set (sp_routes spec). ro_key r = k \<and> ro_direction r = dir)"

definition field_ok :: "field_definition \<Rightarrow> bool" where
  "field_ok f \<longleftrightarrow> is_json_pointer (fd_path f) \<and> \<not> trim_is_empty (fd_label f)
     \<and> (is_numeric (fd_value_type f) \<or> set (fd_aggregates f) \<subseteq> {AgCount, AgLast})"

definition stream_ok :: "blueprint_spec \<Rightarrow> stream_definition \<Rightarrow> bool" where
  "stream_ok spec s \<longleftrightarrow> key_ok (st_key s) \<and> route_exists spec (st_route s) DeviceToCloud
     \<and> distinct (map fd_path (st_fields s)) \<and> (\<forall>f \<in> set (st_fields s). field_ok f)"

definition location_ok :: "blueprint_spec \<Rightarrow> location_definition \<Rightarrow> bool" where
  "location_ok spec l \<longleftrightarrow> duration_ok (lo_max_age l) \<and> lo_latitude_path l \<noteq> lo_longitude_path l
     \<and> (\<exists>s \<in> set (sp_streams spec). st_key s = lo_stream l
          \<and> (\<forall>p \<in> {lo_latitude_path l, lo_longitude_path l}.
               \<exists>f \<in> set (st_fields s). fd_path f = p \<and> is_numeric (fd_value_type f)))"

definition command_ok :: "blueprint_spec \<Rightarrow> command_definition \<Rightarrow> bool" where
  "command_ok spec c \<longleftrightarrow> key_ok (cm_key c) \<and> duration_ok (cm_timeout c)
     \<and> route_exists spec (cm_request_route c) CloudToDevice
     \<and> route_exists spec (cm_response_route c) DeviceToCloud
     \<and> schema_doc_ok (cm_input_schema c) \<and> schema_doc_ok (cm_result_schema c)"

definition configuration_ok :: "configuration_definition \<Rightarrow> bool" where
  "configuration_ok c \<longleftrightarrow> schema_doc_ok (cf_schema c)
     \<and> (is_null (cf_defaults c) \<or> conforms (cf_schema c) (cf_defaults c))
     \<and> duration_ok (ap_acknowledgement_timeout (cf_apply c))"

definition health_ok :: "blueprint_spec \<Rightarrow> health_definition \<Rightarrow> bool" where
  "health_ok spec h \<longleftrightarrow> distinct (map hs_key (he_signals h))
     \<and> (\<forall>g \<in> set (he_signals h). key_ok (hs_key g)
          \<and> (hs_source g = SourceMetric \<longrightarrow> hs_path g \<in> set (metric_paths spec)))"

definition relationship_ok :: "blueprint_spec \<Rightarrow> relationship_definition \<Rightarrow> bool" where
  "relationship_ok spec r \<longleftrightarrow> key_ok (rp_key r) \<and> is_json_pointer (rp_target_key_path r)
     \<and> (\<exists>s \<in> set (sp_streams spec). st_key s = rp_stream r)"

definition header_ok :: "device_blueprint \<Rightarrow> bool" where
  "header_ok bp \<longleftrightarrow> bp_api_version bp = BLUEPRINT_API_VERSION \<and> bp_kind bp = BLUEPRINT_KIND
     \<and> key_ok (md_key (bp_metadata bp)) \<and> \<not> trim_is_empty (md_name (bp_metadata bp))
     \<and> length (md_name (bp_metadata bp)) \<le> 128 \<and> is_none_or is_color (md_color (bp_metadata bp))"

definition spec_ok :: "blueprint_spec \<Rightarrow> bool" where
  "spec_ok spec \<longleftrightarrow> runtime_ok (sp_runtime spec)
     \<and> distinct (map tr_key (sp_transports spec)) \<and> (\<forall>t \<in> set (sp_transports spec). transport_ok t)
     \<and> distinct (map sd_key (sp_schemas spec)) \<and> (\<forall>s \<in> set (sp_schemas spec). schema_ok s)
     \<and> distinct (map ro_key (sp_routes spec)) \<and> (\<forall>r \<in> set (sp_routes spec). route_ok spec r)
     \<and> distinct (map st_key (sp_streams spec)) \<and> (\<forall>s \<in> set (sp_streams spec). stream_ok spec s)
     \<and> is_none_or (location_ok spec) (sp_location spec)
     \<and> distinct (map cm_key (sp_commands spec)) \<and> (\<forall>c \<in> set (sp_commands spec). command_ok spec c)
     \<and> is_none_or configuration_ok (sp_configuration spec)
     \<and> is_none_or (\<lambda>r. schema_doc_ok (rs_schema r)) (sp_reported_state spec)
     \<and> is_none_or (health_ok spec) (sp_health spec)
     \<and> (\<forall>r \<in> set (sp_relationships spec). relationship_ok spec r)
     \<and> is_none_or (\<lambda>p. \<forall>m \<in> set (pr_summary p). mr_metric m \<in> set (metric_paths spec)) (sp_presentation spec)
     \<and> length (metric_paths spec) \<le> rl_max_metric_cardinality (rd_limits (sp_runtime spec))"

definition blueprint_valid :: "device_blueprint \<Rightarrow> bool" where
  "blueprint_valid bp \<longleftrightarrow> header_ok bp \<and> spec_ok (bp_spec bp)"

section \<open>Each block reports nothing exactly when its part is well formed\<close>

lemma indexed_fresh:
  "(\<forall>(i, x) \<in> set (indexed xs). key x \<notin> key ` set (take i xs)) \<longleftrightarrow> distinct (map key xs)"
proof (induction xs rule: rev_induct)
  case (snoc y xs)
  have "(\<forall>(i, x) \<in> set (indexed xs). key x \<notin> key ` set (take i (xs @ [y])))
      \<longleftrightarrow> (\<forall>(i, x) \<in> set (indexed xs). key x \<notin> key ` set (take i xs))"
    by (intro ball_cong refl) (auto simp: in_set_enumerate_eq)
  with snoc show ?case by (auto simp: enumerate_append_eq)
qed simp

lemma keyed_issues_Nil [issue_simps]: "keyed_issues key path xs = [] \<longleftrightarrow> distinct (map key xs)"
  unfolding keyed_issues_def concat_map_Nil_iff indexed_fresh [symmetric]
  by (intro ball_cong refl) auto

lemma keyed_get:
  assumes "distinct (map key xs)"
  shows "bt_get (keyed key xs) k = Some x \<longleftrightarrow> x \<in> set xs \<and> key x = k"
proof -
  have d: "distinct (map fst (map (\<lambda>x. (key x, x)) xs))" using assms by (simp add: comp_def)
  show ?thesis
    unfolding keyed_def bt_get_collect_distinct [OF d]
    using d map_of_eq_Some_iff [OF d, of k x] by auto
qed

lemma keyed_cases:
  assumes "distinct (map key xs)"
  obtains "bt_get (keyed key xs) k = None" and "\<And>x. x \<in> set xs \<Longrightarrow> key x \<noteq> k"
  | x where "bt_get (keyed key xs) k = Some x" and "x \<in> set xs" and "key x = k"
      and "\<And>y. y \<in> set xs \<Longrightarrow> key y = k \<longleftrightarrow> y = x"
proof (cases "bt_get (keyed key xs) k")
  case None
  with keyed_get [OF assms, of k] that(1) show thesis by auto
next
  case (Some x)
  have x: "x \<in> set xs" "key x = k" using keyed_get [OF assms, of k x] Some by simp_all
  have "key y = k \<longleftrightarrow> y = x" if "y \<in> set xs" for y
    using keyed_get [OF assms, of k y] Some that by auto
  with that(2) [OF Some x] show thesis by blast
qed

lemma keyed_contains:
  "distinct (map key xs) \<Longrightarrow> bt_contains_key (keyed key xs) k \<longleftrightarrow> (\<exists>x \<in> set xs. key x = k)"
  using keyed_get [of key xs k] by (auto simp: bt_contains_key_def)

lemma validate_key_Nil [issue_simps]: "validate_key s path = [] \<longleftrightarrow> key_ok s"
  by (simp add: validate_key_def)

lemma validate_schema_key_Nil [issue_simps]: "validate_schema_key s path = [] \<longleftrightarrow> schema_key_ok s"
  by (auto simp: validate_schema_key_def schema_key_ok_def issue_simps is_none_or_iff split: option.split)

lemma validate_duration_Nil [issue_simps]: "validate_duration s path = [] \<longleftrightarrow> duration_ok s"
  by (cases "parse_duration_ms s") (auto simp: validate_duration_def duration_ok_def)

lemma validate_address_Nil [issue_simps]: "validate_address s i = [] \<longleftrightarrow> address_ok s"
  by (auto simp: validate_address_def address_ok_def Let_def)

lemma validate_encoding_Nil [issue_simps]:
  "validate_encoding_schema e f i = [] \<longleftrightarrow> encoding_compatible e f"
  by (simp add: validate_encoding_schema_def)

lemma header_issues_Nil [issue_simps]: "header_issues bp = [] \<longleftrightarrow> header_ok bp"
  by (auto simp: header_issues_def header_ok_def issue_simps is_some_and_iff is_none_or_iff)

lemma runtime_issues_Nil [issue_simps]: "runtime_issues rt = [] \<longleftrightarrow> runtime_ok rt"
proof -
  have one: "(rd_minimum_contract_api rt = 0 \<or> CONTRACT_API_VERSION < rd_minimum_contract_api rt)
      \<longleftrightarrow> rd_minimum_contract_api rt \<noteq> 1" by (auto simp: CONTRACT_API_VERSION_def)
  show ?thesis
    unfolding runtime_issues_def runtime_ok_def Let_def one
    by (cases "parse_duration_ms (hb_interval (rd_heartbeat rt))";
        cases "parse_duration_ms (hb_offline_after (rd_heartbeat rt))")
      (auto simp: issue_simps duration_ok_def)
qed

lemma transport_issues_Nil [issue_simps]:
  "transport_issues spec = [] \<longleftrightarrow>
     distinct (map tr_key (sp_transports spec)) \<and> (\<forall>t \<in> set (sp_transports spec). transport_ok t)"
  unfolding transport_issues_def append_is_Nil_conv
  by (subst concat_indexed_Nil [where P = transport_ok]) (simp_all add: issue_simps transport_ok_def)

lemma schema_document_Nil [issue_simps]: "validate_schema_document s path = [] \<longleftrightarrow> schema_doc_ok s"
  unfolding validate_schema_document_def schema_doc_ok_def by (rule inspect_schema_path)

lemma schema_issues_Nil [issue_simps]:
  "schema_issues spec = [] \<longleftrightarrow>
     distinct (map sd_key (sp_schemas spec)) \<and> (\<forall>s \<in> set (sp_schemas spec). schema_ok s)"
  unfolding schema_issues_def append_is_Nil_conv
  by (subst concat_indexed_Nil [where P = schema_ok]) (simp_all add: issue_simps schema_ok_def)

lemma route_item_issues_Nil:
  assumes "distinct (map tr_key (sp_transports spec))" and "distinct (map sd_key (sp_schemas spec))"
  shows "route_item_issues spec i r = [] \<longleftrightarrow> route_ok spec r"
proof -
  note s = keyed_contains [OF assms(2)]
  have enc: "(case bt_get (keyed sd_key (sp_schemas spec)) k of
        Some s \<Rightarrow> validate_encoding_schema (ro_encoding r) (sd_format s) i | None \<Rightarrow> []) = []
      \<longleftrightarrow> (\<forall>s \<in> set (sp_schemas spec). sd_key s = k \<longrightarrow> encoding_compatible (ro_encoding r) (sd_format s))" for k
    by (rule keyed_cases [OF assms(2), of k]) (auto simp: issue_simps)
  have zen: "bt_contains_key (keyed tr_key (sp_transports spec)) k
        \<and> \<not> (is_some_and (\<lambda>t. tr_protocol t = Zenoh) (bt_get (keyed tr_key (sp_transports spec)) k) \<and> \<not> b)
      \<longleftrightarrow> (\<exists>t \<in> set (sp_transports spec). tr_key t = k \<and> (tr_protocol t = Zenoh \<longrightarrow> b))" for k b
    by (rule keyed_cases [OF assms(1), of k]) (auto simp: bt_contains_key_def)
  show ?thesis
    unfolding route_item_issues_def route_ok_def Let_def append_is_Nil_conv enc zen [symmetric]
    by (auto simp: issue_simps s)
qed

lemma route_issues_Nil:
  assumes "distinct (map tr_key (sp_transports spec))" and "distinct (map sd_key (sp_schemas spec))"
  shows "route_issues spec = [] \<longleftrightarrow>
     distinct (map ro_key (sp_routes spec)) \<and> (\<forall>r \<in> set (sp_routes spec). route_ok spec r)"
  unfolding route_issues_def append_is_Nil_conv
  by (subst concat_indexed_Nil [where P = "route_ok spec"])
    (simp_all add: issue_simps route_item_issues_Nil [OF assms])

lemma route_lookup_Nil:
  assumes "distinct (map ro_key (sp_routes spec))"
  shows "(case bt_get (keyed ro_key (sp_routes spec)) k of
      None \<Rightarrow> [x] | Some r \<Rightarrow> if ro_direction r \<noteq> dir then [y] else []) = [] \<longleftrightarrow> route_exists spec k dir"
  by (rule keyed_cases [OF assms, of k]) (auto simp: route_exists_def)

lemma field_issues_Nil:
  "concat (map (\<lambda>(j, f). field_issues path fs j f) (indexed fs)) = [] \<longleftrightarrow>
     distinct (map fd_path fs) \<and> (\<forall>f \<in> set fs. field_ok f)"
proof -
  have one: "field_issues path fs j f = [] \<longleftrightarrow> field_ok f \<and> fd_path f \<notin> fd_path ` set (take j fs)" for j f
    by (auto simp: field_issues_def field_ok_def Let_def)
  have "(\<forall>e \<in> set (indexed fs). field_ok (snd e)) \<longleftrightarrow> (\<forall>f \<in> set fs. field_ok f)"
    by (rule ball_enumerate_snd)
  then show ?thesis
    unfolding concat_map_Nil_iff indexed_fresh [symmetric] case_prod_beta one ball_conj_distrib by auto
qed

lemma stream_issues_Nil:
  assumes "distinct (map ro_key (sp_routes spec))"
  shows "stream_issues spec = [] \<longleftrightarrow>
     distinct (map st_key (sp_streams spec)) \<and> (\<forall>s \<in> set (sp_streams spec). stream_ok spec s)"
proof -
  have "stream_item_issues spec i s = [] \<longleftrightarrow> stream_ok spec s" for i s
    unfolding stream_item_issues_def stream_ok_def Let_def append_is_Nil_conv field_issues_Nil
      route_lookup_Nil [OF assms] by (simp add: issue_simps)
  then show ?thesis
    unfolding stream_issues_def append_is_Nil_conv
    by (subst concat_indexed_Nil [where P = "stream_ok spec"]) (simp_all add: issue_simps)
qed

lemma location_issues_Nil:
  assumes "distinct (map st_key (sp_streams spec))"
  shows "location_issues spec = [] \<longleftrightarrow> is_none_or (location_ok spec) (sp_location spec)"
proof (cases "sp_location spec")
  case (Some l)
  show ?thesis
    by (rule keyed_cases [OF assms, of "lo_stream l"])
      (auto simp: Some location_issues_def location_ok_def issue_simps)
qed (simp add: location_issues_def)

lemma command_issues_Nil:
  assumes "distinct (map ro_key (sp_routes spec))"
  shows "command_issues spec = [] \<longleftrightarrow>
     distinct (map cm_key (sp_commands spec)) \<and> (\<forall>c \<in> set (sp_commands spec). command_ok spec c)"
proof -
  have "command_route_issues spec k dir p m = [] \<longleftrightarrow> route_exists spec k dir" for k dir p m
    by (rule keyed_cases [OF assms, of k]) (auto simp: command_route_issues_def route_exists_def)
  then have "command_item_issues spec i c = [] \<longleftrightarrow> command_ok spec c" for i c
    unfolding command_item_issues_def command_ok_def Let_def append_is_Nil_conv by (simp add: issue_simps)
  then show ?thesis
    unfolding command_issues_def append_is_Nil_conv
    by (subst concat_indexed_Nil [where P = "command_ok spec"]) (simp_all add: issue_simps)
qed

lemma default_issues_Nil:
  assumes "schema_doc_ok (cf_schema c)"
  shows "default_issues c = [] \<longleftrightarrow> is_null (cf_defaults c) \<or> conforms (cf_schema c) (cf_defaults c)"
proof -
  have doc: "inspect_schema (cf_schema c) p 0 = []" for p
    using assms inspect_schema_path [of "cf_schema c" "''$schema''" 0 p]
    by (simp add: schema_doc_ok_def validate_schema_document_def)
  show ?thesis
    using validate_node_conforms [OF doc, of "cf_defaults c" "''$''"]
    by (auto simp: default_issues_def validate_instance_def validate_schema_document_def doc Let_def)
qed

lemma configuration_issues_Nil [issue_simps]:
  "configuration_issues spec = [] \<longleftrightarrow> is_none_or configuration_ok (sp_configuration spec)"
  by (cases "sp_configuration spec")
    (auto simp: configuration_issues_def configuration_ok_def Let_def issue_simps default_issues_Nil)

lemma reported_state_issues_Nil [issue_simps]:
  "reported_state_issues spec = [] \<longleftrightarrow> is_none_or (\<lambda>r. schema_doc_ok (rs_schema r)) (sp_reported_state spec)"
  by (cases "sp_reported_state spec") (simp_all add: reported_state_issues_def issue_simps)

lemma health_issues_Nil [issue_simps]:
  "health_issues spec = [] \<longleftrightarrow> is_none_or (health_ok spec) (sp_health spec)"
proof (cases "sp_health spec")
  case (Some h)
  show ?thesis
    unfolding health_issues_def Some option.case append_is_Nil_conv is_none_or_simps health_ok_def keyed_issues_Nil
    by (subst concat_indexed_Nil [where P = "\<lambda>g. key_ok (hs_key g)
          \<and> (hs_source g = SourceMetric \<longrightarrow> hs_path g \<in> set (metric_paths spec))"])
      (simp_all add: issue_simps)
qed (simp add: health_issues_def)

lemma relationship_issues_Nil:
  assumes "distinct (map st_key (sp_streams spec))"
  shows "relationship_issues spec = [] \<longleftrightarrow> (\<forall>r \<in> set (sp_relationships spec). relationship_ok spec r)"
  unfolding relationship_issues_def
  by (rule concat_indexed_Nil) (auto simp: issue_simps keyed_contains [OF assms] relationship_ok_def)

lemma presentation_issues_Nil [issue_simps]:
  "presentation_issues spec = [] \<longleftrightarrow>
     is_none_or (\<lambda>p. \<forall>m \<in> set (pr_summary p). mr_metric m \<in> set (metric_paths spec)) (sp_presentation spec)"
proof (cases "sp_presentation spec")
  case (Some p)
  show ?thesis
    unfolding presentation_issues_def Some option.case is_none_or_simps
    by (rule concat_indexed_Nil) simp
qed (simp add: presentation_issues_def)

lemma cardinality_issues_Nil [issue_simps]:
  "cardinality_issues spec = [] \<longleftrightarrow>
     length (metric_paths spec) \<le> rl_max_metric_cardinality (rd_limits (sp_runtime spec))"
  by (simp add: cardinality_issues_def metric_paths_def length_concat comp_def not_less)

lemma blueprint_issues_Nil: "blueprint_issues bp = [] \<longleftrightarrow> blueprint_valid bp"
proof -
  let ?s = "bp_spec bp"
  have "transport_issues ?s = [] \<and> schema_issues ?s = [] \<and> route_issues ?s = [] \<and> stream_issues ?s = []
      \<and> location_issues ?s = [] \<and> command_issues ?s = [] \<and> relationship_issues ?s = [] \<longleftrightarrow>
    (distinct (map tr_key (sp_transports ?s)) \<and> (\<forall>t \<in> set (sp_transports ?s). transport_ok t))
     \<and> (distinct (map sd_key (sp_schemas ?s)) \<and> (\<forall>s \<in> set (sp_schemas ?s). schema_ok s))
     \<and> (distinct (map ro_key (sp_routes ?s)) \<and> (\<forall>r \<in> set (sp_routes ?s). route_ok ?s r))
     \<and> (distinct (map st_key (sp_streams ?s)) \<and> (\<forall>s \<in> set (sp_streams ?s). stream_ok ?s s))
     \<and> is_none_or (location_ok ?s) (sp_location ?s)
     \<and> (distinct (map cm_key (sp_commands ?s)) \<and> (\<forall>c \<in> set (sp_commands ?s). command_ok ?s c))
     \<and> (\<forall>r \<in> set (sp_relationships ?s). relationship_ok ?s r)"
    using route_issues_Nil [of ?s] stream_issues_Nil [of ?s] location_issues_Nil [of ?s]
      command_issues_Nil [of ?s] relationship_issues_Nil [of ?s]
    unfolding transport_issues_Nil schema_issues_Nil by blast
  then show ?thesis
    unfolding blueprint_issues_def blueprint_valid_def spec_ok_def Let_def append_is_Nil_conv
      header_issues_Nil runtime_issues_Nil configuration_issues_Nil reported_state_issues_Nil
      health_issues_Nil presentation_issues_Nil cardinality_issues_Nil
    by blast
qed

section \<open>Properties\<close>

text \<open>
  C18. Validation is sound and complete for the declared integrity of a blueprint: it accepts
  exactly the documents whose header is right, whose declarations have unique well-formed keys,
  whose routes, streams, location, commands, health signals, relationships and summaries refer
  to declarations that exist and have the right direction and type, whose schemas belong to the
  profile and admit the declared defaults, whose durations are positive with the device declared
  offline only after its heartbeat interval, and whose fields stay within the declared
  cardinality. An accepted document is returned unchanged.
\<close>

theorem validation_is_exact:
  "validate_blueprint bp = Ok vb \<longleftrightarrow> vb = ValidatedBlueprint bp \<and> blueprint_valid bp"
  using blueprint_issues_Nil [of bp] by (auto simp: validate_blueprint_def Let_def)

end
