(* ===== verification/Canonical.thy ===== *)
theory Canonical
  imports Schema
begin

text \<open>
  \<^verbatim>\<open>crates/device-contract/src/canonical.rs\<close> and the \<^verbatim>\<open>ContractHash\<close> of \<^verbatim>\<open>compiler.rs\<close>: the canonical
  form of a JSON document, in which the members of every object are in key order, and the
  hexadecimal form of a digest. Serialization to a value and to bytes and the digest itself are
  parameters.
\<close>

section \<open>Canonical JSON\<close>

lemma size_get [termination_simp]: "bt_get m k = Some v \<Longrightarrow> size v < size (JObj m)"
  by (rule size_entry) (rule bt_get_in_set)

function sort_value :: "json \<Rightarrow> json" where
  "sort_value (JArr xs) = JArr (map sort_value xs)"
| "sort_value (JObj m) =
     JObj (bt_collect (concat (map (\<lambda>k. case bt_get m k of Some v \<Rightarrow> [(k, sort_value v)] | None \<Rightarrow> [])
       (sort (map fst m)))))"
| "sort_value JNull = JNull"
| "sort_value (JBool b) = JBool b"
| "sort_value (JNum n) = JNum n"
| "sort_value (JStr s) = JStr s"
  by pat_completeness auto

termination
  by (relation "measure size") (auto simp del: json.size dest: size_get)

record 'a serialize_api =
  to_value :: "'a \<Rightarrow> (string, json) result"
  to_vec :: "json \<Rightarrow> (string, string) result"
  sha256 :: "string \<Rightarrow> string"

definition serialization :: "(string, 'a) result \<Rightarrow> (contract_error, 'a) result" where
  "serialization r = (case r of Inl e \<Rightarrow> Err (Serialization e) | Inr x \<Rightarrow> Ok x)"

definition canonical_json :: "'a serialize_api \<Rightarrow> 'a \<Rightarrow> (contract_error, string) result" where
  "canonical_json S v =
     rbind (serialization (to_value S v)) (\<lambda>j. serialization (to_vec S (sort_value j)))"

section \<open>Digests\<close>

text \<open>\<^verbatim>\<open>{byte:02x}\<close> and its inverse.\<close>

definition hex_digit :: "nat \<Rightarrow> char" where
  "hex_digit d = char_of (if d < 10 then 48 + d else 87 + d)"

definition hex_val :: "char \<Rightarrow> nat" where
  "hex_val c = (if is_ascii_digit c then byte c - 48
     else if is_ascii_lowercase c then byte c - 87 else byte c - 55)"

definition as_hex :: "string \<Rightarrow> string" where
  "as_hex hash = concat (map (\<lambda>c. [hex_digit (byte c div 16), hex_digit (byte c mod 16)]) hash)"

fun chunks2 :: "string \<Rightarrow> string" where
  "chunks2 (a # b # s) = char_of (16 * hex_val a + hex_val b) # chunks2 s"
| "chunks2 _ = []"

definition hash_from_str :: "string \<Rightarrow> (contract_error, string) result" where
  "hash_from_str s =
     (if length s \<noteq> 64 \<or> \<not> list_all is_ascii_hexdigit s
      then Err (InvalidContext ''contract hash must contain 64 hexadecimal characters'')
      else Ok (chunks2 s))"

section \<open>The canonical form forgets the order of members\<close>

text \<open>Two documents that differ at most in the order of members, at any depth.\<close>

inductive reordered :: "json \<Rightarrow> json \<Rightarrow> bool" where
  same: "reordered v v"
| arr: "list_all2 reordered xs ys \<Longrightarrow> reordered (JArr xs) (JArr ys)"
| obj: "list_all2 (\<lambda>a b. fst a = fst b \<and> reordered (snd a) (snd b)) m m' \<Longrightarrow> set m' = set m'' \<Longrightarrow>
    distinct (map fst m') \<Longrightarrow> distinct (map fst m'') \<Longrightarrow> reordered (JObj m) (JObj m'')"

lemma sort_value_obj:
  assumes "distinct (map fst m)"
  shows "sort_value (JObj m) = JObj (bt_collect (map (\<lambda>(k, v). (k, sort_value v)) m))"
proof -
  let ?f = "\<lambda>k. case bt_get m k of Some v \<Rightarrow> [(k, sort_value v)] | None \<Rightarrow> []"
  have get: "bt_get m = map_of m" by (simp add: fun_eq_iff bt_get_def)
  have set: "set (concat (map ?f (sort (map fst m)))) = set (map (\<lambda>(k, v). (k, sort_value v)) m)"
    using assms by (force simp: get split: option.splits dest: map_of_SomeD intro: rev_image_eqI)
  have "map fst (concat (map ?f ks)) = filter (\<lambda>k. map_of m k \<noteq> None) ks" for ks
    by (induction ks) (auto simp: get split: option.splits)
  then have d: "distinct (map fst (concat (map ?f (sort (map fst m)))))"
    using assms by simp
  have d': "distinct (map fst (map (\<lambda>(k, v). (k, sort_value v)) m))"
    using assms by (simp add: comp_def case_prod_beta)
  have "bt_collect (concat (map ?f (sort (map fst m)))) = bt_collect (map (\<lambda>(k, v). (k, sort_value v)) m)"
    by (rule bt_collect_distinct_cong [OF d d' set])
  then show ?thesis by simp
qed

lemma sort_value_wf:
  assumes "json_wf v"
  shows "sort_value v = v"
  using assms
proof (induction v)
  case (JArr xs)
  then show ?case by (auto intro: map_idI)
next
  case (JObj m)
  have "map (\<lambda>(k, v). (k, sort_value v)) m = m"
    using JObj by (force intro: map_idI)
  with JObj.prems show ?case
    by (simp add: sort_value_obj bt_wf_distinct bt_collect_id del: sort_value.simps)
qed simp_all

lemma sort_value_reordered: "reordered v w \<Longrightarrow> sort_value v = sort_value w"
proof (induction rule: reordered.induct)
  case (same v)
  show ?case by simp
next
  case (arr xs ys)
  then show ?case by (simp add: list_all2_conv_all_nth list_eq_iff_nth_eq)
next
  case (obj m m' m'')
  let ?g = "\<lambda>(k, v). (k, sort_value v)"
  have keys: "map fst m = map fst m'" and vals: "map ?g m = map ?g m'"
    using obj.IH by (induction rule: list_all2_induct) auto
  have "bt_collect (map ?g m') = bt_collect (map ?g m'')"
    using obj.hyps by (intro bt_collect_distinct_cong) (simp_all add: comp_def case_prod_beta)
  with keys vals obj.hyps show ?case
    by (simp add: sort_value_obj del: sort_value.simps)
qed

text \<open>
  The bytes a contract is hashed over do not depend on the order in which object members were
  written, at any depth; and documents \<^verbatim>\<open>serde_json\<close> holds in its ordered maps are already in
  canonical form, so the sort changes nothing there.
\<close>

theorem canonical_bytes_ignore_member_order:
  assumes "to_value S a = Ok v" and "to_value S b = Ok w" and "reordered v w"
  shows "canonical_json S a = canonical_json S b
    \<and> (json_wf v \<longrightarrow> canonical_json S a = serialization (to_vec S v))"
  using assms sort_value_reordered [OF assms(3)] sort_value_wf [of v]
  by (auto simp: canonical_json_def serialization_def)

definition sample_serializer :: "json serialize_api" where
  "sample_serializer = \<lparr>to_value = Ok, to_vec = (\<lambda>v. case v of JObj m \<Rightarrow> Ok (concat (map fst m)) | _ \<Rightarrow> Inl ''unsupported''),
     sha256 = (\<lambda>s. s)\<rparr>"

theorem canonical_bytes_ignore_member_order_witness:
  "canonical_json sample_serializer (JObj [(''b'', JNull), (''a'', JBool True)])
     = canonical_json sample_serializer (JObj [(''a'', JBool True), (''b'', JNull)])
   \<and> canonical_json sample_serializer (JObj [(''a'', JBool True), (''b'', JNull)]) = Ok ''ab''"
proof -
  let ?v = "JObj [(''a'', JBool True), (''b'', JNull)]" and ?w = "JObj [(''b'', JNull), (''a'', JBool True)]"
  have r: "reordered ?v ?w"
    by (rule reordered.obj [of "[(''a'', JBool True), (''b'', JNull)]" "[(''a'', JBool True), (''b'', JNull)]"])
      (auto intro: reordered.same)
  have wf: "json_wf ?v" by code_simp
  have t: "to_value sample_serializer ?v = Ok ?v" "to_value sample_serializer ?w = Ok ?w"
    by (simp_all add: sample_serializer_def)
  have "serialization (to_vec sample_serializer ?v) = Ok ''ab''"
    by (simp add: sample_serializer_def serialization_def)
  then show ?thesis
    using canonical_bytes_ignore_member_order [OF t r] wf by (metis (no_types))
qed

section \<open>The text form of a digest\<close>

lemma byte_hex_digit: "d < 16 \<Longrightarrow> byte (hex_digit d) = (if d < 10 then 48 + d else 87 + d)"
  by (simp add: byte_def hex_digit_def)

lemma hex_digit_laws:
  assumes "d < 16"
  shows "hex_val (hex_digit d) = d" and "is_ascii_hexdigit (hex_digit d)"
    and "to_ascii_lowercase (hex_digit d) = hex_digit d"
  using assms byte_hex_digit [OF assms]
  by (auto simp: hex_val_def is_ascii_hexdigit_def is_ascii_digit_def is_ascii_lowercase_def
      to_ascii_lowercase_def is_ascii_uppercase_def)

lemma hex_val_laws:
  assumes "is_ascii_hexdigit c"
  shows "hex_val c < 16" and "hex_digit (hex_val c) = to_ascii_lowercase c"
  using assms
  by (auto simp: hex_val_def hex_digit_def is_ascii_hexdigit_def is_ascii_digit_def
      is_ascii_lowercase_def to_ascii_lowercase_def is_ascii_uppercase_def byte_def)

lemma hexdigit_to_lowercase: "is_ascii_hexdigit (to_ascii_lowercase c) \<longleftrightarrow> is_ascii_hexdigit c"
  by (auto simp: is_ascii_hexdigit_def is_ascii_digit_def to_ascii_lowercase_def
      is_ascii_uppercase_def byte_def)

lemma to_ascii_lowercase_idem: "to_ascii_lowercase (to_ascii_lowercase c) = to_ascii_lowercase c"
  by (simp add: to_ascii_lowercase_def is_ascii_uppercase_def byte_def)

lemma byte_less_256: "byte c < 256"
  using nat_of_char_less_256 [of c] by (simp add: byte_def)

lemma length_as_hex: "length (as_hex h) = 2 * length h"
  by (induction h) (simp_all add: as_hex_def)

lemma as_hex_hexdigits:
  "list_all is_ascii_hexdigit (as_hex h)" "map to_ascii_lowercase (as_hex h) = as_hex h"
  by (induction h; simp add: as_hex_def hex_digit_laws byte_less_256 less_mult_imp_div_less)+

lemma chunks2_as_hex: "chunks2 (as_hex h) = h"
  by (induction h)
    (simp_all add: as_hex_def hex_digit_laws byte_less_256 less_mult_imp_div_less, simp add: byte_def)

lemma hash_from_str_as_hex: "length h = 32 \<Longrightarrow> hash_from_str (as_hex h) = Ok h"
  by (simp add: hash_from_str_def length_as_hex as_hex_hexdigits chunks2_as_hex)

lemma as_hex_chunks2:
  "list_all is_ascii_hexdigit s \<Longrightarrow> even (length s) \<Longrightarrow> as_hex (chunks2 s) = map to_ascii_lowercase s"
proof (induction s rule: chunks2.induct)
  case (1 a b s)
  have "byte (char_of (16 * hex_val a + hex_val b)) = 16 * hex_val a + hex_val b"
    using 1 hex_val_laws(1) [of a] hex_val_laws(1) [of b] by (simp add: byte_def)
  then show ?case using 1 by (simp add: as_hex_def hex_val_laws)
qed (simp_all add: as_hex_def)

lemma length_chunks2: "even (length s) \<Longrightarrow> 2 * length (chunks2 s) = length s"
  by (induction s rule: chunks2.induct) simp_all

lemma hexdigits_up_to_case:
  assumes "map to_ascii_lowercase s = as_hex h"
  shows "list_all is_ascii_hexdigit s" and "length s = 2 * length h"
proof -
  have "list_all is_ascii_hexdigit (map to_ascii_lowercase s)"
    unfolding assms by (rule as_hex_hexdigits)
  then show "list_all is_ascii_hexdigit s"
    by (simp add: list.pred_map comp_def hexdigit_to_lowercase)
  show "length s = 2 * length h"
    using arg_cong [OF assms, of length] by (simp add: length_as_hex)
qed

text \<open>
  A digest is parsed from exactly the texts that spell its 32 bytes as 64 hexadecimal digits,
  in either case: \<^verbatim>\<open>from_str\<close> inverts \<^verbatim>\<open>as_hex\<close> and accepts nothing else.
\<close>

theorem contract_hash_text_exact:
  "hash_from_str s = Ok h \<longleftrightarrow> length h = 32 \<and> eq_ignore_ascii_case s (as_hex h)"
proof
  assume "hash_from_str s = Ok h"
  then have s: "length s = 64" "list_all is_ascii_hexdigit s" and h: "h = chunks2 s"
    by (auto simp: hash_from_str_def split: if_splits)
  then show "length h = 32 \<and> eq_ignore_ascii_case s (as_hex h)"
    using length_chunks2 [of s] as_hex_chunks2 [of s]
    by (simp add: eq_ignore_ascii_case_def to_ascii_lowercase_idem)
next
  assume "length h = 32 \<and> eq_ignore_ascii_case s (as_hex h)"
  then have h: "length h = 32" and eq: "map to_ascii_lowercase s = as_hex h"
    by (simp_all add: eq_ignore_ascii_case_def as_hex_hexdigits)
  note s = hexdigits_up_to_case [OF eq]
  have "as_hex (chunks2 s) = as_hex h"
    using s eq by (simp add: as_hex_chunks2)
  then have "chunks2 s = h" using chunks2_as_hex by metis
  with s h show "hash_from_str s = Ok h" by (simp add: hash_from_str_def)
qed

end
