(* ===== verification/Contract_Compiler.thy ===== *)
theory Contract_Compiler
  imports Validation Canonical Topics
begin

text \<open>
  \<^verbatim>\<open>crates/device-contract/src/compiler.rs\<close>: the compilation of a validated blueprint for one
  device. Failures are the errors of the crate or the panics of its \<^verbatim>\<open>expect\<close> calls, kept apart so
  that their absence can be stated. Serialization and the digest come with the parameter of the
  canonical form, and the resolution of JSON pointers is an argument of the one function that uses it.
\<close>

section \<open>Failures\<close>

datatype failure = Fail contract_error | Panic string

definition lift_result :: "(contract_error, 'a) result \<Rightarrow> (failure, 'a) result" where
  "lift_result r = (case r of Inl e \<Rightarrow> Err (Fail e) | Inr x \<Rightarrow> Ok x)"

definition expect :: "'a option \<Rightarrow> string \<Rightarrow> (failure, 'a) result" where
  "expect x message = (case x of None \<Rightarrow> Err (Panic message) | Some a \<Rightarrow> Ok a)"

fun rmap :: "('a \<Rightarrow> ('e, 'b) result) \<Rightarrow> 'a list \<Rightarrow> ('e, 'b list) result" where
  "rmap f [] = Ok []"
| "rmap f (x # xs) = rbind (f x) (\<lambda>y. rbind (rmap f xs) (\<lambda>ys. Ok (y # ys)))"

section \<open>Inputs and outputs\<close>

record resolved_transport =
  rv_protocol :: transport_protocol
  rv_endpoint :: string
  rv_server_ca_pem :: "string option"
  rv_credential_ref :: "string option"

record compile_context =
  cx_contract_id :: string
  cx_tenant_id :: string
  cx_device_id :: string
  cx_blueprint_revision_id :: string
  cx_blueprint_revision :: nat
  cx_transport_bindings :: "(string, resolved_transport) btree"
  cx_configuration_layers :: "json list"

record compiled_runtime =
  crt_heartbeat_interval_ms :: nat
  crt_offline_after_ms :: nat
  crt_max_message_bytes :: nat
  crt_max_messages_per_minute :: nat
  crt_max_metric_cardinality :: nat

record compiled_location =
  clo_stream :: string
  clo_latitude_path :: string
  clo_longitude_path :: string
  clo_coordinate_system :: coordinate_system
  clo_unit :: coordinate_unit
  clo_max_age_ms :: nat

record compiled_transport =
  ctr_protocol :: transport_protocol
  ctr_endpoint :: string
  ctr_delivery :: delivery_semantics
  ctr_ordering :: ordering_semantics
  ctr_server_ca_pem :: "string option"
  ctr_credential_ref :: "string option"

record compiled_route =
  cro_transport :: string
  cro_direction :: route_direction
  cro_address :: string
  cro_message_schema :: string
  cro_encoding :: payload_encoding

record compiled_schema =
  csc_format :: schema_format
  csc_schema :: json

record compiled_field =
  cfd_value_type :: field_value_type
  cfd_label :: string
  cfd_unit :: "string option"
  cfd_semantic :: "string option"
  cfd_index :: bool
  cfd_aggregates :: "aggregate_kind list"
  cfd_presentation :: "field_presentation option"

record compiled_stream =
  cst_route :: string
  cst_timestamp :: string
  cst_fields :: "(string, compiled_field) btree"

record compiled_command =
  ccm_request_route :: string
  ccm_response_route :: string
  ccm_label :: string
  ccm_description :: "string option"
  ccm_danger :: command_danger
  ccm_timeout_ms :: nat
  ccm_input_schema :: json
  ccm_result_schema :: json
  ccm_availability :: "string option"
  ccm_idempotency :: command_idempotency

record compiled_configuration =
  ccf_schema :: json
  ccf_desired :: json
  ccf_mode :: configuration_mode
  ccf_acknowledgement_timeout_ms :: nat
  ccf_atomic :: bool

record compiled_contract_document =
  doc_contract_api :: nat
  doc_contract_id :: string
  doc_tenant_id :: string
  doc_device_id :: string
  doc_blueprint_revision_id :: string
  doc_blueprint_revision :: nat
  doc_blueprint_key :: string
  doc_blueprint_name :: string
  doc_runtime :: compiled_runtime
  doc_transports :: "(string, compiled_transport) btree"
  doc_routes :: "(string, compiled_route) btree"
  doc_schemas :: "(string, compiled_schema) btree"
  doc_streams :: "(string, compiled_stream) btree"
  doc_location :: "compiled_location option"
  doc_commands :: "(string, compiled_command) btree"
  doc_configuration :: "compiled_configuration option"
  doc_reported_state :: "reported_state_definition option"
  doc_health :: "health_definition option"
  doc_firmware :: "firmware_definition option"
  doc_relationships :: "relationship_definition list"
  doc_presentation :: "presentation_definition option"

record compiled_contract =
  ct_hash :: string
  ct_document :: compiled_contract_document

section \<open>Hashes of documents\<close>

definition contract_hash ::
  "compiled_contract_document serialize_api \<Rightarrow> compiled_contract_document \<Rightarrow> (contract_error, string) result" where
  "contract_hash S doc = rbind (canonical_json S doc) (\<lambda>bytes. Ok (sha256 S bytes))"

definition verify_hash ::
  "compiled_contract_document serialize_api \<Rightarrow> compiled_contract \<Rightarrow> (contract_error, bool) result" where
  "verify_hash S c =
     rbind (canonical_json S (ct_document c)) (\<lambda>bytes. Ok (ct_hash c = sha256 S bytes))"

section \<open>The location of an event\<close>

definition event_location ::
  "(json \<Rightarrow> string \<Rightarrow> json option) \<Rightarrow> compiled_contract_document \<Rightarrow> string \<Rightarrow> json \<Rightarrow> int \<Rightarrow> (f64 \<times> f64) option" where
  "event_location pointer doc route_key payload age_ms =
     (case doc_location doc of
        None \<Rightarrow> None
      | Some binding \<Rightarrow>
          if age_ms < 0 then None
          else if clo_max_age_ms binding < nat age_ms then None
          else (case bt_get (doc_streams doc) (clo_stream binding) of
             None \<Rightarrow> None
           | Some stream \<Rightarrow>
               if cst_route stream \<noteq> route_key then None
               else (case Option.bind (pointer payload (clo_latitude_path binding)) as_f64 of
                  None \<Rightarrow> None
                | Some latitude \<Rightarrow>
                    (case Option.bind (pointer payload (clo_longitude_path binding)) as_f64 of
                       None \<Rightarrow> None
                     | Some longitude \<Rightarrow>
                         if \<not> is_finite latitude \<or> \<not> is_finite longitude
                           \<or> \<not> (f64_le (Fin (- 90)) latitude \<and> f64_le latitude (Fin 90))
                           \<or> \<not> (f64_le (Fin (- 180)) longitude \<and> f64_le longitude (Fin 180))
                         then None
                         else Some (latitude, longitude)))))"

section \<open>Configuration\<close>

lemma size_property:
  assumes "as_object schema = Some m" and "Option.bind (bt_get m k) as_object = Some properties"
    and "(key, child) \<in> set properties"
  shows "size child < size schema"
proof -
  have s: "schema = JObj m" using assms(1) by (cases schema) simp_all
  obtain v where v: "bt_get m k = Some v" "as_object v = Some properties"
    using assms(2) by (cases "bt_get m k") simp_all
  then have "v = JObj properties" by (cases v) simp_all
  then show ?thesis
    using size_entry [OF assms(3)] size_get [OF v(1)] s by simp
qed

function defaults_from_schema :: "json \<Rightarrow> json option" where
  "defaults_from_schema schema =
     (case as_object schema of
        None \<Rightarrow> None
      | Some m \<Rightarrow>
          if bt_contains_key m ''default'' then bt_get m ''default''
          else if Option.bind (bt_get m ''type'') as_str = Some ''object'' then
            Some (JObj (case Option.bind (bt_get m ''properties'') as_object of
                None \<Rightarrow> []
              | Some properties \<Rightarrow>
                  foldl (\<lambda>defaults (key, child_schema).
                      case defaults_from_schema child_schema of
                        None \<Rightarrow> defaults
                      | Some child \<Rightarrow> bt_insert key child defaults) [] properties))
          else None)"
  by pat_completeness auto

termination
  by (relation "measure size") (auto dest: size_property)

declare defaults_from_schema.simps [simp del]

lemma size_overlay: "as_object overlay = Some entries \<Longrightarrow> (key, v) \<in> set entries \<Longrightarrow> size v < size overlay"
  by (cases overlay) (simp_all add: size_entry del: json.size)

function merge_value :: "json \<Rightarrow> json \<Rightarrow> json" where
  "merge_value target overlay =
     (case (as_object target, as_object overlay) of
        (Some t, Some entries) \<Rightarrow>
          JObj (foldl (\<lambda>t (key, value).
              bt_insert key (merge_value (unwrap_or JNull (bt_get t key)) value) t) t entries)
      | _ \<Rightarrow> overlay)"
  by pat_completeness auto

termination
  by (relation "measure (size \<circ> snd)") (auto intro: size_overlay [OF sym])

declare merge_value.simps [simp del]

definition desired_configuration :: "configuration_definition \<Rightarrow> json list \<Rightarrow> json" where
  "desired_configuration cf layers =
     (let d = unwrap_or JNull (defaults_from_schema (cf_schema cf));
          d' = (if is_null (cf_defaults cf) then d else merge_value d (cf_defaults cf))
      in foldl merge_value d' layers)"

definition compile_configuration ::
  "configuration_definition \<Rightarrow> compile_context \<Rightarrow> (failure, compiled_configuration) result" where
  "compile_configuration cf cx =
     (let desired = desired_configuration cf (cx_configuration_layers cx)
      in rbind (lift_result (validate_instance (cf_schema cf) desired)) (\<lambda>_.
         rbind (expect (parse_duration_ms (ap_acknowledgement_timeout (cf_apply cf)))
                  ''validated acknowledgement timeout'') (\<lambda>timeout.
         Ok \<lparr>ccf_schema = cf_schema cf, ccf_desired = desired, ccf_mode = ap_mode (cf_apply cf),
              ccf_acknowledgement_timeout_ms = timeout, ccf_atomic = ap_atomic (cf_apply cf)\<rparr>)))"

section \<open>The context\<close>

definition context_id_error :: "string \<times> string \<Rightarrow> contract_error list" where
  "context_id_error = (\<lambda>(name, text).
     if trim_is_empty text \<or> 128 < length text
     then [InvalidContext (name @ '' must contain 1-128 bytes'')] else [])"

definition validate_context :: "compile_context \<Rightarrow> (contract_error, unit) result" where
  "validate_context cx =
     (case concat (map context_id_error
        [(''contract_id'', cx_contract_id cx), (''tenant_id'', cx_tenant_id cx),
         (''device_id'', cx_device_id cx), (''blueprint_revision_id'', cx_blueprint_revision_id cx)]) of
        e # _ \<Rightarrow> Err e
      | [] \<Rightarrow>
          if cx_blueprint_revision cx = 0 then Err (InvalidContext ''blueprint_revision must be positive'')
          else if \<not> list_all (\<lambda>c. is_ascii_alphanumeric c
              \<or> c \<in> {CHR ''-'', CHR ''_'', CHR ''.'', CHR '':''}) (cx_device_id cx)
          then Err (InvalidContext ''device_id contains characters unsafe for route expansion'')
          else Ok ())"

section \<open>The compiler\<close>

fun protocol_debug :: "transport_protocol \<Rightarrow> string" where
  "protocol_debug Zenoh = ''Zenoh''"
| "protocol_debug Mqtt = ''Mqtt''"
| "protocol_debug Http = ''Http''"

definition compile_transport ::
  "compile_context \<Rightarrow> transport_definition \<Rightarrow> (contract_error, compiled_transport) result" where
  "compile_transport cx t =
     (case bt_get (cx_transport_bindings cx) (tr_binding t) of
        None \<Rightarrow> Err (MissingTransportBinding (tr_binding t))
      | Some rv \<Rightarrow>
          if rv_protocol rv \<noteq> tr_protocol t
          then Err (InvalidContext (''binding '' @ quote (tr_binding t) @ '' uses ''
                 @ protocol_debug (rv_protocol rv) @ '', expected '' @ protocol_debug (tr_protocol t)))
          else if trim_is_empty (rv_endpoint rv)
          then Err (InvalidContext (''binding '' @ quote (tr_binding t) @ '' has an empty endpoint''))
          else Ok \<lparr>ctr_protocol = rv_protocol rv, ctr_endpoint = rv_endpoint rv,
                   ctr_delivery = qos_delivery (tr_qos t), ctr_ordering = qos_ordering (tr_qos t),
                   ctr_server_ca_pem = rv_server_ca_pem rv, ctr_credential_ref = rv_credential_ref rv\<rparr>)"

fun compile_transports ::
  "compile_context \<Rightarrow> transport_definition list \<Rightarrow> (string, compiled_transport) btree
     \<Rightarrow> (contract_error, (string, compiled_transport) btree) result" where
  "compile_transports cx [] transports = Ok transports"
| "compile_transports cx (t # ts) transports =
     rbind (compile_transport cx t) (\<lambda>c. compile_transports cx ts (bt_insert (tr_key t) c transports))"

definition compile_route :: "compile_context \<Rightarrow> route_definition \<Rightarrow> compiled_route" where
  "compile_route cx r =
     \<lparr>cro_transport = ro_transport r, cro_direction = ro_direction r,
      cro_address = str_replace DEVICE_VARIABLE (cx_device_id cx) (ro_address r),
      cro_message_schema = ro_message_schema r, cro_encoding = ro_encoding r\<rparr>"

definition compile_schema :: "schema_definition \<Rightarrow> compiled_schema" where
  "compile_schema s = \<lparr>csc_format = sd_format s, csc_schema = sd_schema s\<rparr>"

definition compile_field :: "field_definition \<Rightarrow> compiled_field" where
  "compile_field f =
     \<lparr>cfd_value_type = fd_value_type f, cfd_label = fd_label f, cfd_unit = fd_unit f,
      cfd_semantic = fd_semantic f, cfd_index = fd_index f, cfd_aggregates = fd_aggregates f,
      cfd_presentation = fd_presentation f\<rparr>"

definition compile_stream :: "stream_definition \<Rightarrow> compiled_stream" where
  "compile_stream s =
     \<lparr>cst_route = st_route s, cst_timestamp = st_timestamp s,
      cst_fields = bt_collect (map (\<lambda>f. (fd_path f, compile_field f)) (st_fields s))\<rparr>"

definition compile_command :: "command_definition \<Rightarrow> (failure, string \<times> compiled_command) result" where
  "compile_command c =
     rbind (expect (parse_duration_ms (cm_timeout c)) ''validated command duration'') (\<lambda>timeout.
       Ok (cm_key c, \<lparr>ccm_request_route = cm_request_route c, ccm_response_route = cm_response_route c,
          ccm_label = cm_label c, ccm_description = cm_description c, ccm_danger = cm_danger c,
          ccm_timeout_ms = timeout, ccm_input_schema = cm_input_schema c,
          ccm_result_schema = cm_result_schema c, ccm_availability = cm_availability c,
          ccm_idempotency = cm_idempotency c\<rparr>))"

definition compile_runtime :: "runtime_definition \<Rightarrow> (failure, compiled_runtime) result" where
  "compile_runtime rt =
     rbind (expect (parse_duration_ms (hb_interval (rd_heartbeat rt))) ''validated heartbeat interval'') (\<lambda>interval.
     rbind (expect (parse_duration_ms (hb_offline_after (rd_heartbeat rt))) ''validated offline timeout'') (\<lambda>offline.
       Ok \<lparr>crt_heartbeat_interval_ms = interval, crt_offline_after_ms = offline,
          crt_max_message_bytes = rl_max_message_bytes (rd_limits rt),
          crt_max_messages_per_minute = rl_max_messages_per_minute (rd_limits rt),
          crt_max_metric_cardinality = rl_max_metric_cardinality (rd_limits rt)\<rparr>))"

definition compile_location :: "location_definition \<Rightarrow> (failure, compiled_location) result" where
  "compile_location l =
     rbind (expect (parse_duration_ms (lo_max_age l)) ''validated location freshness'') (\<lambda>age.
       Ok \<lparr>clo_stream = lo_stream l, clo_latitude_path = lo_latitude_path l,
          clo_longitude_path = lo_longitude_path l, clo_coordinate_system = lo_coordinate_system l,
          clo_unit = lo_unit l, clo_max_age_ms = age\<rparr>)"

definition transpose_opt :: "('a \<Rightarrow> ('e, 'b) result) \<Rightarrow> 'a option \<Rightarrow> ('e, 'b option) result" where
  "transpose_opt f x = (case x of None \<Rightarrow> Ok None | Some a \<Rightarrow> rbind (f a) (\<lambda>b. Ok (Some b)))"

definition compile_document ::
  "device_blueprint \<Rightarrow> compile_context \<Rightarrow> (failure, compiled_contract_document) result" where
  "compile_document bp cx =
     (let spec = bp_spec bp in
      rbind (lift_result (compile_transports cx (sp_transports spec) [])) (\<lambda>transports.
      rbind (rmap compile_command (sp_commands spec)) (\<lambda>commands.
      rbind (transpose_opt (\<lambda>cf. compile_configuration cf cx) (sp_configuration spec)) (\<lambda>configuration.
      if configuration = None \<and> cx_configuration_layers cx \<noteq> []
      then Err (Fail (InvalidContext
             ''configuration layers were provided for a blueprint without configuration''))
      else
      rbind (compile_runtime (sp_runtime spec)) (\<lambda>runtime.
      rbind (transpose_opt compile_location (sp_location spec)) (\<lambda>location.
      Ok \<lparr>doc_contract_api = CONTRACT_API_VERSION,
          doc_contract_id = cx_contract_id cx,
          doc_tenant_id = cx_tenant_id cx,
          doc_device_id = cx_device_id cx,
          doc_blueprint_revision_id = cx_blueprint_revision_id cx,
          doc_blueprint_revision = cx_blueprint_revision cx,
          doc_blueprint_key = md_key (bp_metadata bp),
          doc_blueprint_name = md_name (bp_metadata bp),
          doc_runtime = runtime,
          doc_transports = transports,
          doc_routes = bt_collect (map (\<lambda>r. (ro_key r, compile_route cx r)) (sp_routes spec)),
          doc_schemas = bt_collect (map (\<lambda>s. (sd_key s, compile_schema s)) (sp_schemas spec)),
          doc_streams = bt_collect (map (\<lambda>s. (st_key s, compile_stream s)) (sp_streams spec)),
          doc_location = location,
          doc_commands = bt_collect commands,
          doc_configuration = configuration,
          doc_reported_state = sp_reported_state spec,
          doc_health = sp_health spec,
          doc_firmware = sp_firmware spec,
          doc_relationships = sp_relationships spec,
          doc_presentation = sp_presentation spec\<rparr>))))))"

definition compile ::
  "compiled_contract_document serialize_api \<Rightarrow> validated_blueprint \<Rightarrow> compile_context
     \<Rightarrow> (failure, compiled_contract) result" where
  "compile S vb cx =
     rbind (lift_result (validate_context cx)) (\<lambda>_.
     rbind (compile_document (blueprint vb) cx) (\<lambda>document.
     rbind (lift_result (canonical_json S document)) (\<lambda>bytes.
     Ok \<lparr>ct_hash = sha256 S bytes, ct_document = document\<rparr>)))"

section \<open>Sequencing\<close>

lemma lift_result_simps [simp]:
  "lift_result (Inl e) = Err (Fail e)" "lift_result (Inr x) = Ok x"
  by (simp_all add: lift_result_def)

lemma lift_result_Ok: "lift_result r = Ok x \<longleftrightarrow> r = Ok x"
  by (cases r) simp_all

lemma expect_simps [simp]:
  "expect (Some a) message = Ok a" "expect None message = Err (Panic message)"
  by (simp_all add: expect_def)

lemma expect_Ok: "expect x message = Ok a \<longleftrightarrow> x = Some a"
  by (cases x) simp_all

lemma transpose_opt_Ok:
  "transpose_opt f x = Ok y \<longleftrightarrow>
     (case x of None \<Rightarrow> y = None | Some a \<Rightarrow> \<exists>b. f a = Ok b \<and> y = Some b)"
  by (auto simp: transpose_opt_def rbind_Inr_iff split: option.splits)

lemma rmap_Ok: "rmap f xs = Ok ys \<longleftrightarrow> list_all2 (\<lambda>x y. f x = Ok y) xs ys"
proof (induction xs arbitrary: ys)
  case (Cons x xs)
  then show ?case by (cases ys) (auto simp: rbind_Inr_iff)
qed auto

lemma succeeds_rbind: "(\<exists>y. rbind r f = Ok y) \<longleftrightarrow> (\<exists>x. r = Ok x \<and> (\<exists>y. f x = Ok y))"
  by (cases r) simp_all

lemma succeeds_unless: "(\<exists>y. (if b then Err e else r) = Ok y) \<longleftrightarrow> \<not> b \<and> (\<exists>y. r = Ok y)"
  by simp

lemmas sequencing = rbind_Inr_iff lift_result_Ok expect_Ok transpose_opt_Ok rmap_Ok

text \<open>A step that cannot panic.\<close>

definition no_panic :: "(failure, 'a) result \<Rightarrow> bool" where
  "no_panic r \<longleftrightarrow> (\<forall>message. r \<noteq> Err (Panic message))"

lemma no_panic_basic [simp]:
  "no_panic (Inr x)" "no_panic (Inl (Fail e))" "no_panic (lift_result q)"
  by (auto simp: no_panic_def lift_result_def split: sum.splits)

lemma no_panic_rbind:
  "no_panic r \<Longrightarrow> (\<And>x. r = Ok x \<Longrightarrow> no_panic (f x)) \<Longrightarrow> no_panic (rbind r f)"
  by (cases r) (auto simp: no_panic_def)

lemma no_panic_duration:
  "duration_ok d \<Longrightarrow> (\<And>n. no_panic (f n)) \<Longrightarrow> no_panic (rbind (expect (parse_duration_ms d) message) f)"
  by (auto simp: duration_ok_def)

lemma no_panic_rmap: "(\<And>x. x \<in> set xs \<Longrightarrow> no_panic (f x)) \<Longrightarrow> no_panic (rmap f xs)"
  by (induction xs) (auto intro!: no_panic_rbind)

lemma no_panic_transpose:
  "is_none_or (\<lambda>a. no_panic (f a)) x \<Longrightarrow> no_panic (transpose_opt f x)"
  by (cases x) (auto simp: transpose_opt_def intro!: no_panic_rbind)

lemma compile_document_no_panic:
  assumes "spec_ok (bp_spec bp)"
  shows "no_panic (compile_document bp cx)"
proof -
  let ?s = "bp_spec bp"
  have cmd: "no_panic (rmap compile_command (sp_commands ?s))"
    using assms by (intro no_panic_rmap)
      (auto simp: spec_ok_def command_ok_def compile_command_def intro!: no_panic_duration)
  have cfg: "no_panic (transpose_opt (\<lambda>cf. compile_configuration cf cx) (sp_configuration ?s))"
    using assms by (intro no_panic_transpose)
      (auto simp: spec_ok_def is_none_or_iff configuration_ok_def compile_configuration_def Let_def
        intro!: no_panic_rbind no_panic_duration)
  have run: "no_panic (compile_runtime (sp_runtime ?s))"
    using assms by (auto simp: spec_ok_def runtime_ok_def compile_runtime_def)
  have loc: "no_panic (transpose_opt compile_location (sp_location ?s))"
    using assms by (intro no_panic_transpose)
      (auto simp: spec_ok_def is_none_or_iff location_ok_def compile_location_def intro!: no_panic_duration)
  show ?thesis
    unfolding compile_document_def Let_def
    by (auto intro!: no_panic_rbind cmd cfg run loc)
qed

section \<open>What a compiled document holds\<close>

lemma collect_lookup:
  assumes "distinct (map key xs)"
  shows "bt_get (bt_collect (map (\<lambda>x. (key x, f x)) xs)) k = Some y \<longleftrightarrow> (\<exists>x \<in> set xs. key x = k \<and> y = f x)"
proof -
  have d: "distinct (map fst (map (\<lambda>x. (key x, f x)) xs))" using assms by (simp add: comp_def)
  show ?thesis
    unfolding bt_get_collect_distinct [OF d] map_of_eq_Some_iff [OF d] by auto
qed

lemma compile_transports_lookup:
  assumes "compile_transports cx ts acc = Ok m" and "distinct (map tr_key ts)"
  shows "bt_get m k = Some c \<longleftrightarrow>
    (\<exists>t \<in> set ts. tr_key t = k \<and> compile_transport cx t = Ok c)
    \<or> k \<notin> tr_key ` set ts \<and> bt_get acc k = Some c"
  using assms
proof (induction ts arbitrary: acc)
  case (Cons t ts)
  obtain c' where c': "compile_transport cx t = Ok c'"
    and rest: "compile_transports cx ts (bt_insert (tr_key t) c' acc) = Ok m"
    using Cons.prems by (auto simp: rbind_Inr_iff)
  show ?case
    using Cons.IH [OF rest] Cons.prems(2) c' by (auto simp: bt_get_bt_insert)
qed simp

lemma compile_transports_Ok:
  "(\<exists>m. compile_transports cx ts acc = Ok m) \<longleftrightarrow> (\<forall>t \<in> set ts. \<exists>c. compile_transport cx t = Ok c)"
  by (induction ts arbitrary: acc) (auto simp: rbind_Inr_iff)

lemma compile_command_Ok:
  "compile_command c = Ok (k, cc) \<Longrightarrow> k = cm_key c \<and> ccm_request_route cc = cm_request_route c
     \<and> ccm_response_route cc = cm_response_route c
     \<and> parse_duration_ms (cm_timeout c) = Some (ccm_timeout_ms cc)"
  by (auto simp: compile_command_def sequencing)

lemma compile_location_Ok:
  "compile_location l = Ok cl \<Longrightarrow> clo_stream cl = lo_stream l \<and> clo_latitude_path cl = lo_latitude_path l
     \<and> clo_longitude_path cl = lo_longitude_path l
     \<and> parse_duration_ms (lo_max_age l) = Some (clo_max_age_ms cl)"
  by (auto simp: compile_location_def sequencing)

lemma compile_document_Ok:
  assumes "compile_document bp cx = Ok doc"
  obtains commands where
    "compile_transports cx (sp_transports (bp_spec bp)) [] = Ok (doc_transports doc)"
    "list_all2 (\<lambda>c kc. compile_command c = Ok kc) (sp_commands (bp_spec bp)) commands"
    "doc_commands doc = bt_collect commands"
    "transpose_opt (\<lambda>cf. compile_configuration cf cx) (sp_configuration (bp_spec bp)) = Ok (doc_configuration doc)"
    "transpose_opt compile_location (sp_location (bp_spec bp)) = Ok (doc_location doc)"
    "doc_routes doc = bt_collect (map (\<lambda>r. (ro_key r, compile_route cx r)) (sp_routes (bp_spec bp)))"
    "doc_schemas doc = bt_collect (map (\<lambda>s. (sd_key s, compile_schema s)) (sp_schemas (bp_spec bp)))"
    "doc_streams doc = bt_collect (map (\<lambda>s. (st_key s, compile_stream s)) (sp_streams (bp_spec bp)))"
    "doc_contract_id doc = cx_contract_id cx" "doc_tenant_id doc = cx_tenant_id cx"
    "doc_device_id doc = cx_device_id cx" "doc_blueprint_revision_id doc = cx_blueprint_revision_id cx"
    "doc_blueprint_revision doc = cx_blueprint_revision cx"
    "doc_health doc = sp_health (bp_spec bp)" "doc_relationships doc = sp_relationships (bp_spec bp)"
    "doc_presentation doc = sp_presentation (bp_spec bp)"
proof -
  from assms show thesis
    unfolding compile_document_def Let_def
    by (clarsimp simp only: rbind_Inr_iff lift_result_Ok rmap_Ok split: if_splits) (auto intro!: that)
qed

lemma compile_Ok:
  assumes "validate_blueprint bp = Ok vb" and "compile S vb cx = Ok c"
  shows "spec_ok (bp_spec bp)" and "validate_context cx = Ok ()"
    and "compile_document bp cx = Ok (ct_document c)"
    and "\<exists>bytes. canonical_json S (ct_document c) = Ok bytes \<and> ct_hash c = sha256 S bytes"
  using assms blueprint_issues_Nil [of bp]
  by (auto simp: validate_blueprint_def Let_def blueprint_valid_def compile_def sequencing split: if_splits)

section \<open>When compilation succeeds\<close>

definition context_ok :: "compile_context \<Rightarrow> bool" where
  "context_ok cx \<longleftrightarrow>
     list_all (\<lambda>s. \<not> trim_is_empty s \<and> length s \<le> 128)
       [cx_contract_id cx, cx_tenant_id cx, cx_device_id cx, cx_blueprint_revision_id cx]
     \<and> 0 < cx_blueprint_revision cx \<and> is_valid_device_id (cx_device_id cx)"

definition binding_ok :: "compile_context \<Rightarrow> transport_definition \<Rightarrow> bool" where
  "binding_ok cx t \<longleftrightarrow>
     is_some_and (\<lambda>rv. rv_protocol rv = tr_protocol t \<and> \<not> trim_is_empty (rv_endpoint rv))
       (bt_get (cx_transport_bindings cx) (tr_binding t))"

definition layers_ok :: "blueprint_spec \<Rightarrow> compile_context \<Rightarrow> bool" where
  "layers_ok spec cx = (case sp_configuration spec of
      None \<Rightarrow> cx_configuration_layers cx = []
    | Some cf \<Rightarrow> conforms (cf_schema cf) (desired_configuration cf (cx_configuration_layers cx)))"

definition serializes :: "'a serialize_api \<Rightarrow> bool" where
  "serializes S \<longleftrightarrow> (\<forall>x. \<exists>v. to_value S x = Ok v) \<and> (\<forall>v. \<exists>bytes. to_vec S v = Ok bytes)"

lemma serializes_canonical: "serializes S \<Longrightarrow> \<exists>bytes. canonical_json S x = Ok bytes"
proof -
  assume S: "serializes S"
  then obtain v where v: "to_value S x = Ok v" by (auto simp: serializes_def)
  obtain bytes where "to_vec S (sort_value v) = Ok bytes" using S by (auto simp: serializes_def)
  with v show ?thesis by (simp add: canonical_json_def serialization_def)
qed

lemma context_bytes:
  "(is_ascii_alphanumeric c \<or> c \<in> {CHR ''-'', CHR ''_'', CHR ''.'', CHR '':''}) \<longleftrightarrow> device_id_byte c"
  by (auto simp: is_ascii_alphanumeric_def device_id_byte_def)

lemma validate_context_Ok: "validate_context cx = Ok () \<longleftrightarrow> context_ok cx"
proof -
  have "0 < length s" if "\<not> trim_is_empty s" for s using that by (cases s) simp_all
  then show ?thesis
    unfolding validate_context_def context_ok_def context_bytes
    by (auto simp: context_id_error_def is_valid_device_id_def Suc_le_eq not_less split: if_splits)
qed

lemma compile_transport_Ok: "(\<exists>c. compile_transport cx t = Ok c) \<longleftrightarrow> binding_ok cx t"
  by (auto simp: compile_transport_def binding_ok_def split: option.splits)

lemma compile_configuration_Ok:
  assumes "configuration_ok cf"
  shows "(\<exists>cc. compile_configuration cf cx = Ok cc) \<longleftrightarrow>
    conforms (cf_schema cf) (desired_configuration cf (cx_configuration_layers cx))"
proof -
  have "inspect_schema (cf_schema cf) ''$schema'' 0 = []"
    using assms inspect_schema_path [of "cf_schema cf" "''$schema''" 0]
    by (auto simp: configuration_ok_def schema_doc_ok_def validate_schema_document_def)
  then have v: "validate_instance (cf_schema cf) x = Ok () \<longleftrightarrow> conforms (cf_schema cf) x" for x
    by (auto simp: validate_instance_def validate_schema_document_def validate_node_conforms Let_def)
  obtain n where "parse_duration_ms (ap_acknowledgement_timeout (cf_apply cf)) = Some n"
    using assms by (auto simp: configuration_ok_def duration_ok_def)
  then show ?thesis
    by (auto simp: compile_configuration_def Let_def sequencing v)
qed

lemma compile_document_succeeds:
  assumes "spec_ok (bp_spec bp)"
  shows "(\<exists>doc. compile_document bp cx = Ok doc) \<longleftrightarrow>
    (\<forall>t \<in> set (sp_transports (bp_spec bp)). binding_ok cx t) \<and> layers_ok (bp_spec bp) cx"
proof -
  let ?s = "bp_spec bp"
  have cmd: "\<exists>cs. rmap compile_command (sp_commands ?s) = Ok cs"
  proof -
    have "\<exists>cc. compile_command c = Ok cc" if "c \<in> set (sp_commands ?s)" for c
      using that assms by (auto simp: spec_ok_def command_ok_def duration_ok_def compile_command_def)
    then have "list_all2 (\<lambda>c cc. compile_command c = Ok cc) (sp_commands ?s)
        (map (\<lambda>c. SOME cc. compile_command c = Ok cc) (sp_commands ?s))"
      by (auto simp: list_all2_conv_all_nth intro: someI_ex)
    then show ?thesis unfolding rmap_Ok [symmetric] by blast
  qed
  have run: "\<exists>rt. compile_runtime (sp_runtime ?s) = Ok rt"
    using assms by (auto simp: spec_ok_def runtime_ok_def compile_runtime_def)
  have loc: "\<exists>l. transpose_opt compile_location (sp_location ?s) = Ok l"
    using assms
    by (cases "sp_location ?s")
      (auto simp: spec_ok_def location_ok_def duration_ok_def compile_location_def transpose_opt_def)
  have cfg: "(\<exists>cf. transpose_opt (\<lambda>cf. compile_configuration cf cx) (sp_configuration ?s) = Ok cf
        \<and> \<not> (cf = None \<and> cx_configuration_layers cx \<noteq> [])) \<longleftrightarrow> layers_ok ?s cx"
  proof (cases "sp_configuration ?s")
    case (Some cf)
    then have "configuration_ok cf" using assms by (simp add: spec_ok_def)
    from compile_configuration_Ok [OF this, of cx] Some show ?thesis
      by (auto simp: layers_ok_def transpose_opt_Ok)
  qed (auto simp: layers_ok_def transpose_opt_Ok)
  have tr: "(\<exists>m. compile_transports cx (sp_transports ?s) [] = Ok m) \<longleftrightarrow> (\<forall>t \<in> set (sp_transports ?s). binding_ok cx t)"
    by (simp add: compile_transports_Ok compile_transport_Ok)
  show ?thesis
    unfolding tr [symmetric] cfg [symmetric] compile_document_def Let_def succeeds_rbind succeeds_unless
      lift_result_Ok
    using cmd run loc by blast
qed

lemma compile_succeeds:
  assumes "validate_blueprint bp = Ok vb" and "serializes S"
  shows "(\<exists>c. compile S vb cx = Ok c) \<longleftrightarrow> context_ok cx
      \<and> (\<forall>t \<in> set (sp_transports (bp_spec bp)). binding_ok cx t) \<and> layers_ok (bp_spec bp) cx"
proof -
  have bp: "spec_ok (bp_spec bp)" "blueprint vb = bp"
    using assms(1) blueprint_issues_Nil [of bp]
    by (auto simp: validate_blueprint_def Let_def blueprint_valid_def split: if_splits)
  show ?thesis
    unfolding compile_document_succeeds [OF bp(1), symmetric] validate_context_Ok [symmetric]
    using serializes_canonical [OF assms(2)] bp(2)
    by (auto simp: compile_def sequencing)
qed

text \<open>
  C27. Compiling a validated blueprint never reaches one of the \<^verbatim>\<open>expect\<close> panics, and it succeeds
  exactly when the context is well formed, every transport has a binding of its protocol with an
  endpoint, and the merged configuration conforms to the declared schema (no layers being given
  when none is declared). Serialization is relied on not to fail.
\<close>

theorem compile_outcome_exact:
  assumes "validate_blueprint bp = Ok vb" and "serializes S"
  shows "(\<forall>message. compile S vb cx \<noteq> Err (Panic message))
    \<and> ((\<exists>c. compile S vb cx = Ok c) \<longleftrightarrow> context_ok cx
         \<and> (\<forall>t \<in> set (sp_transports (bp_spec bp)). binding_ok cx t) \<and> layers_ok (bp_spec bp) cx)"
proof
  have bp: "spec_ok (bp_spec bp)" "blueprint vb = bp"
    using assms(1) blueprint_issues_Nil [of bp]
    by (auto simp: validate_blueprint_def Let_def blueprint_valid_def split: if_splits)
  have "no_panic (compile S vb cx)"
    unfolding compile_def bp(2)
    by (intro no_panic_rbind compile_document_no_panic bp) simp_all
  then show "\<forall>message. compile S vb cx \<noteq> Err (Panic message)" by (simp add: no_panic_def)
  show "(\<exists>c. compile S vb cx = Ok c) \<longleftrightarrow> context_ok cx
      \<and> (\<forall>t \<in> set (sp_transports (bp_spec bp)). binding_ok cx t) \<and> layers_ok (bp_spec bp) cx"
    using assms by (rule compile_succeeds)
qed

section \<open>A blueprint and a context to evaluate\<close>

definition sample_route :: "string \<Rightarrow> route_direction \<Rightarrow> route_definition" where
  "sample_route k dir = \<lparr>ro_key = k, ro_transport = ''main'', ro_direction = dir,
     ro_address = ''extrittio/devices/{device.id}/'' @ k, ro_message_schema = ''extrittio.event'',
     ro_encoding = EncJson\<rparr>"

definition sample_field :: "string \<Rightarrow> field_definition" where
  "sample_field p = \<lparr>fd_path = p, fd_value_type = VtFloat64, fd_label = ''Position'', fd_unit = None,
     fd_semantic = None, fd_index = False, fd_aggregates = [AgLast], fd_presentation = None\<rparr>"

definition sample_spec :: blueprint_spec where
  "sample_spec =
    \<lparr>sp_runtime = \<lparr>rd_minimum_contract_api = 1,
       rd_heartbeat = \<lparr>hb_interval = ''30s'', hb_offline_after = ''90s''\<rparr>,
       rd_limits = \<lparr>rl_max_message_bytes = 65536, rl_max_messages_per_minute = 60,
         rl_max_metric_cardinality = 16\<rparr>\<rparr>,
     sp_transports = [\<lparr>tr_key = ''main'', tr_binding = ''zenoh'', tr_protocol = Zenoh, tr_qos = default_transport_qos\<rparr>],
     sp_routes = [sample_route ''events'' DeviceToCloud, sample_route ''commands'' CloudToDevice],
     sp_schemas = [],
     sp_streams = [\<lparr>st_key = ''gps'', st_route = ''events'', st_timestamp = default_timestamp_source,
       st_fields = [sample_field ''/lat'', sample_field ''/lon''], st_retention = None\<rparr>],
     sp_location = Some \<lparr>lo_stream = ''gps'', lo_latitude_path = ''/lat'', lo_longitude_path = ''/lon'',
       lo_coordinate_system = Wgs84, lo_unit = Degrees, lo_max_age = ''5m''\<rparr>,
     sp_commands = [\<lparr>cm_key = ''reboot'', cm_request_route = ''commands'', cm_response_route = ''events'',
       cm_label = ''Reboot'', cm_description = None, cm_danger = DangerConfirm, cm_timeout = ''10s'',
       cm_input_schema = JBool True, cm_result_schema = JBool True, cm_availability = None,
       cm_idempotency = Idempotent\<rparr>],
     sp_configuration = Some \<lparr>cf_schema = JObj [(''type'', JStr ''object'')],
       cf_defaults = JObj [(''rate'', JStr ''slow''), (''unit'', JStr ''C'')],
       cf_apply = \<lparr>ap_mode = DesiredReported, ap_acknowledgement_timeout = ''30s'', ap_atomic = True\<rparr>\<rparr>,
     sp_reported_state = None,
     sp_health = Some \<lparr>he_signals = [\<lparr>hs_key = ''arctic'', hs_source = SourceMetric, hs_path = ''gps./lat'',
       hs_operator = CmpGt, hs_value = JNum (PosInt 66), hs_severity = SevWarning\<rparr>]\<rparr>,
     sp_firmware = None,
     sp_relationships = [\<lparr>rp_key = ''gateway'', rp_stream = ''gps'', rp_target_key_path = ''/gateway'', rp_target_kind = ''device''\<rparr>],
     sp_presentation = Some \<lparr>pr_summary = [\<lparr>mr_metric = ''gps./lon''\<rparr>], pr_tabs = [TabOverview]\<rparr>\<rparr>"

definition sample_blueprint :: device_blueprint where
  "sample_blueprint = \<lparr>bp_api_version = BLUEPRINT_API_VERSION, bp_kind = BLUEPRINT_KIND,
     bp_metadata = \<lparr>md_key = ''tracker'', md_name = ''Tracker'', md_description = None, md_icon = None,
       md_color = None, md_labels = []\<rparr>,
     bp_spec = sample_spec\<rparr>"

definition sample_context :: compile_context where
  "sample_context = \<lparr>cx_contract_id = ''c1'', cx_tenant_id = ''acme'', cx_device_id = ''dev-7'',
     cx_blueprint_revision_id = ''r1'', cx_blueprint_revision = 3,
     cx_transport_bindings = [(''zenoh'', \<lparr>rv_protocol = Zenoh, rv_endpoint = ''tls/broker:7447'',
       rv_server_ca_pem = None, rv_credential_ref = None\<rparr>)],
     cx_configuration_layers = [JObj [(''rate'', JStr ''fast'')]]\<rparr>"

definition constant_serializer :: "'a serialize_api" where
  "constant_serializer = \<lparr>to_value = (\<lambda>_. Ok JNull), to_vec = (\<lambda>_. Ok ''null''), sha256 = (\<lambda>_. replicate 32 (CHR 0x2A))\<rparr>"

definition sample_contract :: compiled_contract where
  "sample_contract = (case compile constant_serializer (ValidatedBlueprint sample_blueprint) sample_context of
      Inr c \<Rightarrow> c | Inl _ \<Rightarrow> undefined)"

lemma sample_validates: "validate_blueprint sample_blueprint = Ok (ValidatedBlueprint sample_blueprint)"
  by code_simp

lemma sample_serializes: "serializes constant_serializer"
  by (simp add: serializes_def constant_serializer_def)

lemma sample_context_ok:
  "context_ok sample_context" "\<forall>t \<in> set (sp_transports (bp_spec sample_blueprint)). binding_ok sample_context t"
  "layers_ok (bp_spec sample_blueprint) sample_context"
  by code_simp+

theorem compile_outcome_exact_witness:
  "\<exists>c. compile constant_serializer (ValidatedBlueprint sample_blueprint) sample_context = Ok c"
  using compile_outcome_exact [OF sample_validates sample_serializes, of sample_context] sample_context_ok
  by blast

section \<open>Routes stay with their device\<close>

lemma expanded_zenoh_address:
  assumes "starts_with ZENOH_PREFIX a" and "is_valid_device_id d"
  shows "contract_device_id (str_replace DEVICE_VARIABLE d a) = Some d"
proof -
  obtain r where a: "a = DEVICE_TOPIC_PREFIX @ DEVICE_VARIABLE @ CHR ''/'' # r"
    using assms(1) by (auto simp: starts_with_iff ZENOH_PREFIX_def DEVICE_TOPIC_PREFIX_def DEVICE_VARIABLE_def)
  have v: "DEVICE_VARIABLE = CHR ''{'' # ''device.id}''" by (simp add: DEVICE_VARIABLE_def)
  have "str_replace DEVICE_VARIABLE d a = DEVICE_TOPIC_PREFIX @ str_replace DEVICE_VARIABLE d (DEVICE_VARIABLE @ CHR ''/'' # r)"
    unfolding a v by (rule str_replace_prefix) (simp add: DEVICE_TOPIC_PREFIX_def)
  also have "str_replace DEVICE_VARIABLE d (DEVICE_VARIABLE @ CHR ''/'' # r)
      = d @ str_replace DEVICE_VARIABLE d (CHR ''/'' # r)"
    by (rule str_replace_here) (simp add: v)
  also have "str_replace DEVICE_VARIABLE d (CHR ''/'' # r) = CHR ''/'' # str_replace DEVICE_VARIABLE d r"
    by (rule str_replace_skip) (auto simp: v starts_with_iff)
  finally show ?thesis using assms(2) by (auto simp: contract_device_id_iff)
qed

lemma expanded_address_plain:
  assumes "address_ok a" and "is_valid_device_id d"
  shows "set (str_replace DEVICE_VARIABLE d a) \<inter> {CHR ''*'', CHR ''#'', CHR ''{'', CHR ''}''} = {}"
proof -
  have "set d \<inter> {CHR ''*'', CHR ''#'', CHR ''{'', CHR ''}''} = {}"
    using assms(2) by (auto simp: is_valid_device_id_def list_all_iff dest: device_id_byte_safe)
  then show ?thesis
    using assms(1) set_str_replace [of DEVICE_VARIABLE d a] set_str_replace_subset [of DEVICE_VARIABLE d a]
    by (auto simp: address_ok_def)
qed

lemma compiled_route_source:
  assumes "validate_blueprint bp = Ok vb" and "compile S vb cx = Ok c"
    and "bt_get (doc_routes (ct_document c)) k = Some r"
  obtains d where "d \<in> set (sp_routes (bp_spec bp))" and "ro_key d = k" and "r = compile_route cx d"
    and "route_ok (bp_spec bp) d"
proof -
  note c = compile_Ok [OF assms(1,2)]
  have "doc_routes (ct_document c) = bt_collect (map (\<lambda>r. (ro_key r, compile_route cx r)) (sp_routes (bp_spec bp)))"
    by (rule compile_document_Ok [OF c(3)])
  then show thesis
    using assms(3) c(1) by (auto simp: collect_lookup spec_ok_def intro: that)
qed

lemma compiled_transport_source:
  assumes "validate_blueprint bp = Ok vb" and "compile S vb cx = Ok c"
  shows "bt_get (doc_transports (ct_document c)) k = Some t \<longleftrightarrow>
    (\<exists>d \<in> set (sp_transports (bp_spec bp)). tr_key d = k \<and> compile_transport cx d = Ok t)"
proof -
  note c = compile_Ok [OF assms]
  have "compile_transports cx (sp_transports (bp_spec bp)) [] = Ok (doc_transports (ct_document c))"
    by (rule compile_document_Ok [OF c(3)])
  from compile_transports_lookup [OF this, of k t] c(1) show ?thesis by (simp add: spec_ok_def)
qed

lemma route_confined:
  assumes "validate_blueprint bp = Ok vb" and "compile S vb cx = Ok c"
    and "bt_get (doc_routes (ct_document c)) k = Some r"
    and "bt_get (doc_transports (ct_document c)) (cro_transport r) = Some t"
  shows "set (cro_address r) \<inter> {CHR ''*'', CHR ''#'', CHR ''{'', CHR ''}''} = {}
    \<and> (ctr_protocol t = Zenoh \<longrightarrow> contract_device_id (cro_address r) = Some (cx_device_id cx))"
proof -
  note c = compile_Ok [OF assms(1,2)]
  have dev: "is_valid_device_id (cx_device_id cx)"
    using c(2) by (simp add: validate_context_Ok context_ok_def)
  obtain d where d: "r = compile_route cx d" "route_ok (bp_spec bp) d"
    by (rule compiled_route_source [OF assms(1-3)])
  obtain e where e: "e \<in> set (sp_transports (bp_spec bp))" "tr_key e = ro_transport d"
      "compile_transport cx e = Ok t"
    using assms(4) d compiled_transport_source [OF assms(1,2)] by (auto simp: compile_route_def)
  have "ctr_protocol t = tr_protocol e"
    using e(3) by (auto simp: compile_transport_def split: option.splits if_splits)
  moreover have "tr_protocol e = Zenoh \<longrightarrow> starts_with ZENOH_PREFIX (ro_address d)"
  proof -
    obtain e' where e': "e' \<in> set (sp_transports (bp_spec bp))" "tr_key e' = ro_transport d"
        "tr_protocol e' = Zenoh \<longrightarrow> starts_with ZENOH_PREFIX (ro_address d)"
      using d(2) by (auto simp: route_ok_def)
    have "e' = e" using c(1) e e' by (auto simp: spec_ok_def distinct_map inj_on_def)
    with e'(3) show ?thesis by simp
  qed
  ultimately show ?thesis
    using d dev expanded_zenoh_address expanded_address_plain
    by (auto simp: compile_route_def route_ok_def)
qed

text \<open>
  C26. A compiled contract cannot reach outside its device: no route address holds a wildcard or an
  unexpanded variable, and every route over a Zenoh transport lies under the topics of the very
  device the contract was compiled for.
\<close>

theorem compiled_routes_confined:
  assumes "validate_blueprint bp = Ok vb" and "compile S vb cx = Ok c"
    and "bt_get (doc_routes (ct_document c)) k = Some r"
    and "bt_get (doc_transports (ct_document c)) (cro_transport r) = Some t"
  shows "set (cro_address r) \<inter> {CHR ''*'', CHR ''#'', CHR ''{'', CHR ''}''} = {}
    \<and> (ctr_protocol t = Zenoh \<longrightarrow> contract_device_id (cro_address r) = Some (cx_device_id cx))"
  using assms by (rule route_confined)

theorem compiled_routes_confined_witness:
  "map_option cro_address (bt_get (doc_routes (ct_document sample_contract)) ''events'')
     = Some ''extrittio/devices/dev-7/events''
   \<and> contract_device_id ''extrittio/devices/dev-7/events'' = Some ''dev-7''"
proof -
  have c: "compile constant_serializer (ValidatedBlueprint sample_blueprint) sample_context = Ok sample_contract"
    and r: "bt_get (doc_routes (ct_document sample_contract)) ''events''
      = Some (compile_route sample_context (sample_route ''events'' DeviceToCloud))"
    and a: "cro_address (compile_route sample_context (sample_route ''events'' DeviceToCloud))
      = ''extrittio/devices/dev-7/events''"
    and d: "cx_device_id sample_context = ''dev-7''"
    by code_simp+
  have "is_some_and (\<lambda>t. ctr_protocol t = Zenoh) (bt_get (doc_transports (ct_document sample_contract))
      (cro_transport (compile_route sample_context (sample_route ''events'' DeviceToCloud))))"
    by code_simp
  with compiled_routes_confined [OF sample_validates c r] a d r show ?thesis
    by (auto simp: is_some_and_iff)
qed

end
