(* ===== verification/Contract_Document.thy ===== *)
theory Contract_Document
  imports Contract_Compiler
begin

text \<open>
  What the documents issued by \<^verbatim>\<open>compiler.rs\<close> promise to the runtimes that consume them: every
  reference resolves, the hash verifies, the configuration is the layered merge of its sources,
  and an event yields a location only as the blueprint declares it.
\<close>

section \<open>References\<close>

definition routed :: "compiled_contract_document \<Rightarrow> string \<Rightarrow> route_direction \<Rightarrow> bool" where
  "routed doc k dir \<longleftrightarrow> is_some_and (\<lambda>r. cro_direction r = dir) (bt_get (doc_routes doc) k)"

definition numeric_field :: "compiled_stream \<Rightarrow> string \<Rightarrow> bool" where
  "numeric_field s path \<longleftrightarrow> is_some_and (\<lambda>f. is_numeric (cfd_value_type f)) (bt_get (cst_fields s) path)"

text \<open>A metric is named by its stream and the path of its field.\<close>

definition metric_exists :: "compiled_contract_document \<Rightarrow> string \<Rightarrow> bool" where
  "metric_exists doc m \<longleftrightarrow>
     list_ex (\<lambda>(k, s). list_ex (\<lambda>(p, _). m = k @ ''.'' @ p) (cst_fields s)) (doc_streams doc)"

definition document_closed :: "compiled_contract_document \<Rightarrow> bool" where
  "document_closed doc \<longleftrightarrow>
     (\<forall>k r. bt_get (doc_routes doc) k = Some r \<longrightarrow>
        bt_contains_key (doc_transports doc) (cro_transport r)
        \<and> (starts_with ''extrittio.'' (cro_message_schema r)
           \<or> is_some_and (\<lambda>s. encoding_compatible (cro_encoding r) (csc_format s))
               (bt_get (doc_schemas doc) (cro_message_schema r))))
     \<and> (\<forall>k s. bt_get (doc_streams doc) k = Some s \<longrightarrow> routed doc (cst_route s) DeviceToCloud)
     \<and> (\<forall>k c. bt_get (doc_commands doc) k = Some c \<longrightarrow>
          routed doc (ccm_request_route c) CloudToDevice \<and> routed doc (ccm_response_route c) DeviceToCloud
          \<and> 0 < ccm_timeout_ms c)
     \<and> is_none_or (\<lambda>l. is_some_and (\<lambda>s. numeric_field s (clo_latitude_path l) \<and> numeric_field s (clo_longitude_path l))
          (bt_get (doc_streams doc) (clo_stream l))) (doc_location doc)
     \<and> is_none_or (\<lambda>c. conforms (ccf_schema c) (ccf_desired c)) (doc_configuration doc)
     \<and> is_none_or (\<lambda>h. \<forall>g \<in> set (he_signals h). hs_source g = SourceMetric \<longrightarrow> metric_exists doc (hs_path g)) (doc_health doc)
     \<and> (\<forall>r \<in> set (doc_relationships doc). bt_contains_key (doc_streams doc) (rp_stream r))
     \<and> is_none_or (\<lambda>p. \<forall>m \<in> set (pr_summary p). metric_exists doc (mr_metric m)) (doc_presentation doc)"

text \<open>A contract the compiler issues for a validated blueprint.\<close>

definition issued ::
  "device_blueprint \<Rightarrow> compiled_contract_document serialize_api \<Rightarrow> compile_context \<Rightarrow> compiled_contract \<Rightarrow> bool" where
  "issued bp S cx c \<longleftrightarrow> (\<exists>vb. validate_blueprint bp = Ok vb \<and> compile S vb cx = Ok c)"

lemma issued_spec_ok: "issued bp S cx c \<Longrightarrow> spec_ok (bp_spec bp)"
  by (auto simp: issued_def dest: compile_Ok(1))

lemma issued_document: "issued bp S cx c \<Longrightarrow> compile_document bp cx = Ok (ct_document c)"
  by (auto simp: issued_def dest: compile_Ok(3))

lemma issued_route:
  assumes "issued bp S cx c"
  shows "bt_get (doc_routes (ct_document c)) k = Some r \<longleftrightarrow>
     (\<exists>d \<in> set (sp_routes (bp_spec bp)). ro_key d = k \<and> r = compile_route cx d)"
proof -
  have "doc_routes (ct_document c) = bt_collect (map (\<lambda>r. (ro_key r, compile_route cx r)) (sp_routes (bp_spec bp)))"
    by (rule compile_document_Ok [OF issued_document [OF assms]])
  then show ?thesis using issued_spec_ok [OF assms] by (auto simp: collect_lookup spec_ok_def)
qed

lemma issued_schema:
  assumes "issued bp S cx c"
  shows "bt_get (doc_schemas (ct_document c)) k = Some x \<longleftrightarrow>
     (\<exists>d \<in> set (sp_schemas (bp_spec bp)). sd_key d = k \<and> x = compile_schema d)"
proof -
  have "doc_schemas (ct_document c) = bt_collect (map (\<lambda>s. (sd_key s, compile_schema s)) (sp_schemas (bp_spec bp)))"
    by (rule compile_document_Ok [OF issued_document [OF assms]])
  then show ?thesis using issued_spec_ok [OF assms] by (auto simp: collect_lookup spec_ok_def)
qed

lemma issued_stream:
  assumes "issued bp S cx c"
  shows "bt_get (doc_streams (ct_document c)) k = Some x \<longleftrightarrow>
     (\<exists>d \<in> set (sp_streams (bp_spec bp)). st_key d = k \<and> x = compile_stream d)"
proof -
  have "doc_streams (ct_document c) = bt_collect (map (\<lambda>s. (st_key s, compile_stream s)) (sp_streams (bp_spec bp)))"
    by (rule compile_document_Ok [OF issued_document [OF assms]])
  then show ?thesis using issued_spec_ok [OF assms] by (auto simp: collect_lookup spec_ok_def)
qed

lemma issued_transport:
  assumes "issued bp S cx c"
  shows "bt_contains_key (doc_transports (ct_document c)) k \<longleftrightarrow>
     (\<exists>d \<in> set (sp_transports (bp_spec bp)). tr_key d = k)"
proof -
  have t: "compile_transports cx (sp_transports (bp_spec bp)) [] = Ok (doc_transports (ct_document c))"
    by (rule compile_document_Ok [OF issued_document [OF assms]])
  have "\<exists>c. compile_transport cx d = Ok c" if "d \<in> set (sp_transports (bp_spec bp))" for d
    using that t compile_transports_Ok [of cx "sp_transports (bp_spec bp)" "[]"] by blast
  moreover have "distinct (map tr_key (sp_transports (bp_spec bp)))"
    using issued_spec_ok [OF assms] by (simp add: spec_ok_def)
  note compile_transports_lookup [OF t this, of k, simplified]
  ultimately show ?thesis unfolding bt_contains_key_def not_None_eq by blast
qed

lemma issued_command:
  assumes "issued bp S cx c" and "bt_get (doc_commands (ct_document c)) k = Some x"
  obtains d where "d \<in> set (sp_commands (bp_spec bp))" and "compile_command d = Ok (k, x)"
proof -
  obtain commands where l: "list_all2 (\<lambda>c kc. compile_command c = Ok kc) (sp_commands (bp_spec bp)) commands"
    and d: "doc_commands (ct_document c) = bt_collect commands"
    by (rule compile_document_Ok [OF issued_document [OF assms(1)]])
  have "(k, x) \<in> set commands"
    using assms(2) unfolding d bt_get_collect by (auto dest: map_of_SomeD)
  with l obtain d where "d \<in> set (sp_commands (bp_spec bp))" "compile_command d = Ok (k, x)"
    by (fastforce simp: list_all2_conv_all_nth in_set_conv_nth)
  then show thesis by (rule that)
qed

lemma issued_location:
  assumes "issued bp S cx c" and "doc_location (ct_document c) = Some x"
  obtains l where "sp_location (bp_spec bp) = Some l" and "compile_location l = Ok x"
proof -
  have "transpose_opt compile_location (sp_location (bp_spec bp)) = Ok (doc_location (ct_document c))"
    by (rule compile_document_Ok [OF issued_document [OF assms(1)]])
  with assms(2) that show thesis by (auto simp: transpose_opt_Ok split: option.splits)
qed

lemma issued_configuration:
  assumes "issued bp S cx c" and "doc_configuration (ct_document c) = Some x"
  obtains cf where "sp_configuration (bp_spec bp) = Some cf" and "compile_configuration cf cx = Ok x"
proof -
  have "transpose_opt (\<lambda>cf. compile_configuration cf cx) (sp_configuration (bp_spec bp))
      = Ok (doc_configuration (ct_document c))"
    by (rule compile_document_Ok [OF issued_document [OF assms(1)]])
  with assms(2) that show thesis by (auto simp: transpose_opt_Ok split: option.splits)
qed

lemma issued_routed:
  "issued bp S cx c \<Longrightarrow> route_exists (bp_spec bp) k dir \<Longrightarrow> routed (ct_document c) k dir"
  by (auto simp: routed_def is_some_and_iff issued_route route_exists_def compile_route_def)

lemma compiled_field:
  assumes "stream_ok spec s" and "f \<in> set (st_fields s)"
  shows "bt_get (cst_fields (compile_stream s)) (fd_path f) = Some (compile_field f)"
  using assms by (auto simp: compile_stream_def collect_lookup stream_ok_def)

lemma compiled_numeric_field:
  assumes "stream_ok spec s" and "f \<in> set (st_fields s)" and "is_numeric (fd_value_type f)"
  shows "numeric_field (compile_stream s) (fd_path f)"
  using compiled_field [OF assms(1,2)] assms(3) by (simp add: numeric_field_def compile_field_def)

lemma configuration_conforms:
  assumes "compile_configuration cf cx = Ok x"
  shows "ccf_schema x = cf_schema cf" and "ccf_desired x = desired_configuration cf (cx_configuration_layers cx)"
    and "conforms (ccf_schema x) (ccf_desired x)"
proof -
  show x: "ccf_schema x = cf_schema cf" "ccf_desired x = desired_configuration cf (cx_configuration_layers cx)"
    using assms by (auto simp: compile_configuration_def Let_def sequencing)
  have "validate_instance (cf_schema cf) (desired_configuration cf (cx_configuration_layers cx)) = Ok ()"
    using assms by (auto simp: compile_configuration_def Let_def sequencing)
  then show "conforms (ccf_schema x) (ccf_desired x)"
    unfolding x by (auto simp: validate_instance_def validate_schema_document_def validate_node_conforms Let_def
        split: if_splits)
qed

lemma issued_route_closed:
  assumes "issued bp S cx c" and "bt_get (doc_routes (ct_document c)) k = Some r"
  shows "bt_contains_key (doc_transports (ct_document c)) (cro_transport r)"
    and "starts_with ''extrittio.'' (cro_message_schema r)
      \<or> is_some_and (\<lambda>s. encoding_compatible (cro_encoding r) (csc_format s))
          (bt_get (doc_schemas (ct_document c)) (cro_message_schema r))"
proof -
  obtain d where d: "d \<in> set (sp_routes (bp_spec bp))" "r = compile_route cx d"
    using assms(2) unfolding issued_route [OF assms(1)] by blast
  then have "route_ok (bp_spec bp) d" using issued_spec_ok [OF assms(1)] by (simp add: spec_ok_def)
  with d show "bt_contains_key (doc_transports (ct_document c)) (cro_transport r)"
    and "starts_with ''extrittio.'' (cro_message_schema r)
      \<or> is_some_and (\<lambda>s. encoding_compatible (cro_encoding r) (csc_format s))
          (bt_get (doc_schemas (ct_document c)) (cro_message_schema r))"
    unfolding issued_transport [OF assms(1)] is_some_and_iff issued_schema [OF assms(1)]
    by (auto simp: route_ok_def compile_route_def compile_schema_def)
qed

lemma issued_stream_closed:
  assumes "issued bp S cx c" and "bt_get (doc_streams (ct_document c)) k = Some s"
  shows "routed (ct_document c) (cst_route s) DeviceToCloud"
proof -
  obtain d where d: "d \<in> set (sp_streams (bp_spec bp))" "s = compile_stream d"
    using assms(2) unfolding issued_stream [OF assms(1)] by blast
  then have "stream_ok (bp_spec bp) d" using issued_spec_ok [OF assms(1)] by (simp add: spec_ok_def)
  with d show ?thesis
    by (simp add: stream_ok_def compile_stream_def issued_routed [OF assms(1)])
qed

lemma issued_command_closed:
  assumes "issued bp S cx c" and "bt_get (doc_commands (ct_document c)) k = Some x"
  shows "routed (ct_document c) (ccm_request_route x) CloudToDevice"
    and "routed (ct_document c) (ccm_response_route x) DeviceToCloud" and "0 < ccm_timeout_ms x"
proof -
  obtain d where d: "d \<in> set (sp_commands (bp_spec bp))" "compile_command d = Ok (k, x)"
    by (rule issued_command [OF assms])
  then have "command_ok (bp_spec bp) d" using issued_spec_ok [OF assms(1)] by (simp add: spec_ok_def)
  with compile_command_Ok [OF d(2)] show "routed (ct_document c) (ccm_request_route x) CloudToDevice"
    and "routed (ct_document c) (ccm_response_route x) DeviceToCloud" and "0 < ccm_timeout_ms x"
    by (auto simp: command_ok_def duration_ok_def intro: issued_routed [OF assms(1)])
qed

lemma issued_location_closed:
  assumes "issued bp S cx c" and "doc_location (ct_document c) = Some x"
  shows "is_some_and (\<lambda>s. numeric_field s (clo_latitude_path x) \<and> numeric_field s (clo_longitude_path x))
    (bt_get (doc_streams (ct_document c)) (clo_stream x))"
proof -
  obtain l where l: "sp_location (bp_spec bp) = Some l" "compile_location l = Ok x"
    by (rule issued_location [OF assms])
  note x = compile_location_Ok [OF l(2)]
  have "location_ok (bp_spec bp) l" using issued_spec_ok [OF assms(1)] l(1) by (simp add: spec_ok_def)
  then obtain s where s: "s \<in> set (sp_streams (bp_spec bp))" "st_key s = clo_stream x"
    and f: "\<And>p. p \<in> {clo_latitude_path x, clo_longitude_path x} \<Longrightarrow>
      \<exists>f \<in> set (st_fields s). fd_path f = p \<and> is_numeric (fd_value_type f)"
    using x by (auto simp: location_ok_def)
  have "stream_ok (bp_spec bp) s" using issued_spec_ok [OF assms(1)] s by (simp add: spec_ok_def)
  then have "numeric_field (compile_stream s) p" if "p \<in> {clo_latitude_path x, clo_longitude_path x}" for p
    using f [OF that] compiled_numeric_field by blast
  with s show ?thesis
    unfolding is_some_and_iff issued_stream [OF assms(1)] by auto
qed

lemma issued_metric_exists:
  assumes "issued bp S cx c" and "m \<in> set (metric_paths (bp_spec bp))"
  shows "metric_exists (ct_document c) m"
proof -
  obtain s f where s: "s \<in> set (sp_streams (bp_spec bp))" "f \<in> set (st_fields s)" "m = st_key s @ ''.'' @ fd_path f"
    using assms(2) by (auto simp: metric_paths_def)
  have "stream_ok (bp_spec bp) s" using issued_spec_ok [OF assms(1)] s(1) by (simp add: spec_ok_def)
  note field = bt_get_in_set [OF compiled_field [OF this s(2)]]
  have "bt_get (doc_streams (ct_document c)) (st_key s) = Some (compile_stream s)"
    using s(1) unfolding issued_stream [OF assms(1)] by blast
  note stream = bt_get_in_set [OF this]
  show ?thesis
    unfolding metric_exists_def list_ex_iff using field s(3) by (intro bexI [OF _ stream]) (force simp: list_ex_iff)
qed

lemma issued_references:
  assumes "issued bp S cx c"
  shows "doc_health (ct_document c) = Some h \<Longrightarrow> g \<in> set (he_signals h) \<Longrightarrow> hs_source g = SourceMetric \<Longrightarrow> metric_exists (ct_document c) (hs_path g)"
    and "r \<in> set (doc_relationships (ct_document c)) \<Longrightarrow> bt_contains_key (doc_streams (ct_document c)) (rp_stream r)"
    and "doc_presentation (ct_document c) = Some p \<Longrightarrow> m \<in> set (pr_summary p) \<Longrightarrow> metric_exists (ct_document c) (mr_metric m)"
proof -
  have d: "doc_health (ct_document c) = sp_health (bp_spec bp)" "doc_relationships (ct_document c) = sp_relationships (bp_spec bp)"
    "doc_presentation (ct_document c) = sp_presentation (bp_spec bp)"
    by (rule compile_document_Ok [OF issued_document [OF assms]]; assumption)+
  note ok = issued_spec_ok [OF assms, unfolded spec_ok_def]
  show "doc_health (ct_document c) = Some h \<Longrightarrow> g \<in> set (he_signals h) \<Longrightarrow> hs_source g = SourceMetric \<Longrightarrow> metric_exists (ct_document c) (hs_path g)"
    using ok unfolding d by (auto simp: health_ok_def intro: issued_metric_exists [OF assms])
  show "doc_presentation (ct_document c) = Some p \<Longrightarrow> m \<in> set (pr_summary p) \<Longrightarrow> metric_exists (ct_document c) (mr_metric m)"
    using ok unfolding d by (auto intro: issued_metric_exists [OF assms])
  assume "r \<in> set (doc_relationships (ct_document c))"
  then obtain s where "s \<in> set (sp_streams (bp_spec bp))" "st_key s = rp_stream r"
    using ok unfolding d by (auto simp: relationship_ok_def)
  then have "bt_get (doc_streams (ct_document c)) (rp_stream r) = Some (compile_stream s)"
    unfolding issued_stream [OF assms] by blast
  then show "bt_contains_key (doc_streams (ct_document c)) (rp_stream r)" by (simp add: bt_contains_key_def)
qed


lemma sample_issued: "issued sample_blueprint constant_serializer sample_context sample_contract"
proof -
  have "compile constant_serializer (ValidatedBlueprint sample_blueprint) sample_context = Ok sample_contract"
    by code_simp
  with sample_validates show ?thesis by (auto simp: issued_def)
qed


section \<open>The hash\<close>

text \<open>
  An issued contract names the tenant, device and revision it was compiled for, its hash is the
  digest of its canonical document and verifies, no other hash does, and for a digest of 32 bytes
  the printed hash is read back.
\<close>

theorem issued_contract_verifies:
  assumes "issued bp S cx c" and "\<And>bytes. length (sha256 S bytes) = 32"
  shows "contract_hash S (ct_document c) = Ok (ct_hash c)
    \<and> verify_hash S (c\<lparr>ct_hash := h\<rparr>) = Ok (h = ct_hash c)
    \<and> hash_from_str (as_hex (ct_hash c)) = Ok (ct_hash c)
    \<and> doc_contract_id (ct_document c) = cx_contract_id cx \<and> doc_tenant_id (ct_document c) = cx_tenant_id cx
    \<and> doc_device_id (ct_document c) = cx_device_id cx
    \<and> doc_blueprint_revision_id (ct_document c) = cx_blueprint_revision_id cx
    \<and> doc_blueprint_revision (ct_document c) = cx_blueprint_revision cx"
proof -
  obtain bytes where "canonical_json S (ct_document c) = Ok bytes" "ct_hash c = sha256 S bytes"
    using assms(1) by (auto simp: issued_def dest: compile_Ok(4))
  moreover note ids = compile_document_Ok [OF issued_document [OF assms(1)]]
  ultimately show ?thesis
    using assms(2) by (auto simp: contract_hash_def verify_hash_def hash_from_str_as_hex intro: ids)
qed

theorem issued_contract_verifies_witness:
  "verify_hash constant_serializer sample_contract = Ok True
   \<and> doc_device_id (ct_document sample_contract) = ''dev-7''"
proof -
  have d: "length (sha256 (constant_serializer :: compiled_contract_document serialize_api) bytes) = 32" for bytes
    by (simp add: constant_serializer_def)
  have "sample_contract\<lparr>ct_hash := ct_hash sample_contract\<rparr> = sample_contract" by simp
  with issued_contract_verifies [OF sample_issued d, of "ct_hash sample_contract"]
  show ?thesis by (simp add: sample_context_def)
qed

section \<open>Layered configuration\<close>

text \<open>A value holds everything an overlay sets: its members at any depth, and otherwise itself.\<close>

function covers :: "json \<Rightarrow> json \<Rightarrow> bool" where
  "covers v overlay \<longleftrightarrow> (case as_object overlay of
      None \<Rightarrow> v = overlay
    | Some entries \<Rightarrow>
        (case as_object v of
           None \<Rightarrow> False
         | Some m \<Rightarrow> \<forall>(k, x) \<in> set entries. (case bt_get m k of None \<Rightarrow> False | Some y \<Rightarrow> covers y x)))"
  by pat_completeness auto

termination
  by (relation "measure (size \<circ> snd)") (auto intro: size_overlay)

declare covers.simps [simp del]

fun json_at :: "json \<Rightarrow> string list \<Rightarrow> json option" where
  "json_at v [] = Some v"
| "json_at v (k # path) = (case jget v k of None \<Rightarrow> None | Some x \<Rightarrow> json_at x path)"

text \<open>An overlay says nothing about a path.\<close>

fun untouched :: "json \<Rightarrow> string list \<Rightarrow> bool" where
  "untouched overlay [] = False"
| "untouched overlay (k # path) = (case as_object overlay of
      None \<Rightarrow> False
    | Some entries \<Rightarrow> (case bt_get entries k of None \<Rightarrow> True | Some x \<Rightarrow> untouched x path))"

lemma merge_value_other:
  "as_object t = None \<or> as_object v = None \<Longrightarrow> merge_value t v = v"
  by (subst merge_value.simps) (auto split: option.splits)

lemma merge_value_get:
  assumes "distinct (map fst entries)"
  shows "jget (merge_value (JObj t) (JObj entries)) k = (case bt_get entries k of
      None \<Rightarrow> bt_get t k
    | Some v \<Rightarrow> Some (merge_value (unwrap_or JNull (bt_get t k)) v))"
proof -
  let ?step = "\<lambda>t (key, v). bt_insert key (merge_value (unwrap_or JNull (bt_get t key)) v) t"
  have "bt_get (foldl ?step t entries) k = (case map_of entries k of
      None \<Rightarrow> bt_get t k | Some v \<Rightarrow> Some (merge_value (unwrap_or JNull (bt_get t k)) v))"
    using assms
  proof (induction entries arbitrary: t)
    case (Cons e entries)
    then show ?case
      by (cases e) (auto simp: bt_get_bt_insert map_of_eq_None_iff [THEN iffD2] split: option.splits
          dest: map_of_SomeD)
  qed simp
  then show ?thesis
    by (subst merge_value.simps) (simp add: bt_get_def)
qed

lemma covers_refl: "json_wf v \<Longrightarrow> covers v v"
proof (induction v)
  case (JObj m)
  have "bt_get m k = Some x \<and> covers x x" if "(k, x) \<in> set m" for k x
    using that JObj by (force simp: bt.entries_get)
  then show ?case by (subst covers.simps) fastforce
qed (subst covers.simps; simp)+

lemma merge_covers: "json_wf v \<Longrightarrow> covers (merge_value t v) v"
proof (induction v arbitrary: t)
  case (JObj m)
  show ?case
  proof (cases t)
    case (JObj a)
    have d: "distinct (map fst m)" using JObj.prems by (simp add: bt_wf_distinct)
    obtain r where r: "merge_value t (JObj m) = JObj r"
      using JObj by (subst (asm) merge_value.simps) (simp add: merge_value.simps [of t])
    have "\<exists>y. bt_get r k = Some y \<and> covers y x" if kx: "(k, x) \<in> set m" for k x
    proof -
      have "bt_get m k = Some x" using kx JObj.prems by (simp add: bt.entries_get)
      then have "bt_get r k = Some (merge_value (unwrap_or JNull (bt_get a k)) x)"
        using merge_value_get [OF d, of a k] JObj r by simp
      with JObj.IH kx JObj.prems show ?thesis by force
    qed
    then show ?thesis unfolding r by (subst covers.simps) fastforce
  qed (use JObj.prems covers_refl [of "JObj m"] in \<open>simp_all add: merge_value_other\<close>)
qed (simp_all add: merge_value_other covers.simps)

lemma merge_keeps_untouched:
  "json_wf v \<Longrightarrow> json_at t p = Some x \<Longrightarrow> untouched v p \<Longrightarrow> json_at (merge_value t v) p = Some x"
proof (induction p arbitrary: t v)
  case (Cons k p)
  obtain m where m: "v = JObj m"
    using Cons.prems(3) by (cases v) simp_all
  have d: "distinct (map fst m)" and wf: "\<And>y. bt_get m k = Some y \<Longrightarrow> json_wf y"
    using Cons.prems(1) m by (simp_all add: bt_wf_distinct json_wf_get [of m])
  obtain a y where a: "t = JObj a" "bt_get a k = Some y" "json_at y p = Some x"
    using Cons.prems(2) by (cases t) (auto split: option.splits)
  show ?case
    using Cons.IH [OF wf a(3)] Cons.prems(3) a m merge_value_get [OF d, of a k]
    by (auto split: option.splits)
qed simp

text \<open>
  The configuration of an issued contract conforms to its schema and is layered from least to
  most specific: it holds everything the most specific layer sets, and every value that defaults
  and the earlier layers gave at a path this layer does not mention.
\<close>

theorem configuration_is_layered:
  assumes "issued bp S cx c" and "sp_configuration (bp_spec bp) = Some cf"
    and "cx_configuration_layers cx = layers @ [last_layer]" and "json_wf last_layer"
  shows "\<exists>x. doc_configuration (ct_document c) = Some x \<and> conforms (cf_schema cf) (ccf_desired x)
    \<and> covers (ccf_desired x) last_layer
    \<and> (\<forall>p v. json_at (desired_configuration cf layers) p = Some v \<and> untouched last_layer p \<longrightarrow>
         json_at (ccf_desired x) p = Some v)"
proof -
  have "transpose_opt (\<lambda>cf. compile_configuration cf cx) (sp_configuration (bp_spec bp))
      = Ok (doc_configuration (ct_document c))"
    by (rule compile_document_Ok [OF issued_document [OF assms(1)]])
  then obtain x where x: "doc_configuration (ct_document c) = Some x" "compile_configuration cf cx = Ok x"
    using assms(2) by (auto simp: transpose_opt_Ok)
  note cc = configuration_conforms [OF x(2)]
  have "ccf_desired x = merge_value (desired_configuration cf layers) last_layer"
    unfolding cc(2) assms(3) by (simp add: desired_configuration_def Let_def)
  with x(1) cc(1,3) merge_covers [OF assms(4)] merge_keeps_untouched [OF assms(4)] show ?thesis by auto
qed

theorem configuration_is_layered_witness:
  "\<exists>x. doc_configuration (ct_document sample_contract) = Some x
     \<and> json_at (ccf_desired x) [''unit''] = Some (JStr ''C'')
     \<and> covers (ccf_desired x) (JObj [(''rate'', JStr ''fast'')])"
proof -
  define cf where "cf = the (sp_configuration (bp_spec sample_blueprint))"
  have cf: "sp_configuration (bp_spec sample_blueprint) = Some cf"
    unfolding cf_def by (simp add: sample_blueprint_def sample_spec_def)
  have l: "cx_configuration_layers sample_context = [] @ [JObj [(''rate'', JStr ''fast'')]]"
    by (simp add: sample_context_def)
  have wf: "json_wf (JObj [(''rate'', JStr ''fast'')])"
    and u: "untouched (JObj [(''rate'', JStr ''fast'')]) [''unit'']" by code_simp+
  have "json_at (desired_configuration cf []) [''unit''] = Some (JStr ''C'')"
    unfolding cf_def by code_simp
  with configuration_is_layered [OF sample_issued cf l wf] u show ?thesis by blast
qed

section \<open>Locations\<close>

text \<open>
  An issued contract reads a location only where its blueprint declares one: from an event on
  the route of the declared stream, no older than the declared freshness and not from the future,
  at the two declared numeric fields, and within the range of geographic coordinates.
\<close>

theorem event_location_as_declared:
  assumes "issued bp S cx c"
    and "event_location pointer (ct_document c) route payload age = Some (latitude, longitude)"
  shows "\<exists>l s n. sp_location (bp_spec bp) = Some l \<and> s \<in> set (sp_streams (bp_spec bp)) \<and> st_key s = lo_stream l
    \<and> st_route s = route \<and> parse_duration_ms (lo_max_age l) = Some n \<and> 0 \<le> age \<and> age \<le> int n
    \<and> numeric_field (compile_stream s) (lo_latitude_path l) \<and> numeric_field (compile_stream s) (lo_longitude_path l)
    \<and> Option.bind (pointer payload (lo_latitude_path l)) as_f64 = Some latitude
    \<and> Option.bind (pointer payload (lo_longitude_path l)) as_f64 = Some longitude
    \<and> f64_le (Fin (- 90)) latitude \<and> f64_le latitude (Fin 90)
    \<and> f64_le (Fin (- 180)) longitude \<and> f64_le longitude (Fin 180)"
proof -
  obtain b where b: "doc_location (ct_document c) = Some b"
    using assms(2) by (auto simp: event_location_def split: option.splits)
  obtain s where s: "bt_get (doc_streams (ct_document c)) (clo_stream b) = Some s"
    using assms(2) b by (auto simp: event_location_def split: option.splits if_splits)
  obtain l where l: "sp_location (bp_spec bp) = Some l" "compile_location l = Ok b"
    by (rule issued_location [OF assms(1) b])
  note lo = compile_location_Ok [OF l(2)]
  obtain d where d: "d \<in> set (sp_streams (bp_spec bp))" "st_key d = clo_stream b" "s = compile_stream d"
    using s unfolding issued_stream [OF assms(1)] by blast
  have num: "numeric_field s (clo_latitude_path b) \<and> numeric_field s (clo_longitude_path b)"
    using issued_location_closed [OF assms(1) b] s by simp
  have "st_route d = cst_route s" using d by (simp add: compile_stream_def)
  with assms(2) b s l lo d num show ?thesis
    by (intro exI [of _ l] exI [of _ d] exI [of _ "clo_max_age_ms b"])
      (auto simp: event_location_def nat_le_iff not_less split: option.splits if_splits)
qed

text \<open>A pointer resolution for documents whose members are named by whole pointers.\<close>

definition jget_pointer :: "json \<Rightarrow> string \<Rightarrow> json option" where
  "jget_pointer v path = jget v path"

theorem event_location_as_declared_witness:
  "event_location jget_pointer (ct_document sample_contract) ''events''
     (JObj [(''/lat'', JNum (PosInt 52)), (''/lon'', JNum (PosInt 21))]) 1000 = Some (Fin 52, Fin 21)
   \<and> (\<exists>l. sp_location (bp_spec sample_blueprint) = Some l)"
proof
  show e: "event_location jget_pointer (ct_document sample_contract) ''events''
     (JObj [(''/lat'', JNum (PosInt 52)), (''/lon'', JNum (PosInt 21))]) 1000 = Some (Fin 52, Fin 21)"
    by code_simp
  show "\<exists>l. sp_location (bp_spec sample_blueprint) = Some l"
    using event_location_as_declared [OF sample_issued e] by blast
qed

end
