(* ===== verification/Alerts.thy ===== *)
theory Alerts
  imports Outbox
begin

text \<open>
  Alerts: \<^verbatim>\<open>crates/backend-core/src/alerts.rs\<close> (the transitions an alert admits),
  \<^verbatim>\<open>crates/backend-turso/src/alerts.rs\<close> (the repository, with the receipts of deliveries) and
  \<^verbatim>\<open>application/alerts.rs\<close>. The tables of the rule runtime are shared with \<open>Rule_Runtime\<close>; a
  transaction returns the new tables, or an error that leaves them as they were. The clock is an
  argument.
\<close>

section \<open>Records\<close>

record alert_record =
  al_id :: string
  al_tenant_id :: string
  al_rule_id :: "string option"
  al_device_id :: string
  al_severity :: string
  al_status :: string
  al_message :: string
  al_triggered_value :: "string option"
  al_resolved_at :: "time option"
  al_acknowledged_at :: "time option"
  al_created_at :: time

record alert_list_filter =
  af_status :: "string option"
  af_severity :: "string option"
  af_device_id :: "string option"
  af_rule_id :: "string option"
  af_since :: "time option"
  af_before :: "time option"
  af_limit :: int
  af_offset :: int

datatype alert_transition = Acknowledge | Resolve | Reactivate

datatype alert_transition_outcome =
    TransitionNotFound
  | InvalidStatus string
  | ActiveConflict string
  | Updated alert_record

record new_rule_alert =
  na_id :: string
  na_rule_id :: string
  na_device_id :: string
  na_severity :: string
  na_message :: string
  na_triggered_value :: "string option"

fun requires_active_slot :: "alert_transition \<Rightarrow> bool" where
  "requires_active_slot Reactivate = True"
| "requires_active_slot _ = False"

fun accepts :: "alert_transition \<Rightarrow> string \<Rightarrow> bool" where
  "accepts Acknowledge status = (status = ''active'')"
| "accepts Resolve status = (status \<noteq> ''resolved'')"
| "accepts Reactivate status = (status \<noteq> ''active'')"

section \<open>Tables\<close>

text \<open>
  A receipt is a delivery with its tenant and the alert it was applied to. Its key refers to the
  outbox, of which only the identifiers matter here.
\<close>

record alert_db =
  ad_runtime :: runtime_db
  ad_deliveries :: "(string \<times> string \<times> string) list"
  ad_outbox :: "string list"

abbreviation ad_alerts :: "alert_db \<Rightarrow> alert_row list" where
  "ad_alerts db \<equiv> db_alerts (ad_runtime db)"

definition set_alerts :: "alert_row list \<Rightarrow> alert_db \<Rightarrow> alert_db" where
  "set_alerts rows db = db\<lparr>ad_runtime := (ad_runtime db)\<lparr>db_alerts := rows\<rparr>\<rparr>"

definition set_cooldowns :: "(rule_device_key \<times> int) list \<Rightarrow> alert_db \<Rightarrow> alert_db" where
  "set_cooldowns rows db = db\<lparr>ad_runtime := (ad_runtime db)\<lparr>db_cooldowns := rows\<rparr>\<rparr>"

definition device_exists :: "alert_db \<Rightarrow> string \<Rightarrow> string \<Rightarrow> bool" where
  "device_exists db tenant device \<longleftrightarrow> (tenant, device) \<in> fst ` set (db_device_targets (ad_runtime db))"

definition rule_exists :: "alert_db \<Rightarrow> string \<Rightarrow> string \<Rightarrow> bool" where
  "rule_exists db tenant rule \<longleftrightarrow>
     (\<exists>r \<in> set (db_rules (ad_runtime db)). rr_tenant_id r = tenant \<and> rr_id r = rule)"

definition foreign_key_failure :: persistence_error where
  "foreign_key_failure = legacy_error (Constraint ''FOREIGN KEY constraint failed'')"

definition row_datetime_option :: "micros_api \<Rightarrow> int option \<Rightarrow> (persistence_error, time option) result" where
  "row_datetime_option ch x = (case x of
      None \<Rightarrow> Ok None
    | Some us \<Rightarrow> rbind (row_datetime ch us) (\<lambda>t. Ok (Some t)))"

definition decode_alert :: "micros_api \<Rightarrow> alert_row \<Rightarrow> (persistence_error, alert_record) result" where
  "decode_alert ch r =
     rbind (row_datetime_option ch (ar_resolved_at r)) (\<lambda>resolved_at.
     rbind (row_datetime_option ch (ar_acknowledged_at r)) (\<lambda>acknowledged_at.
     rbind (row_datetime ch (ar_created_at r)) (\<lambda>created_at.
     Ok \<lparr>al_id = ar_id r, al_tenant_id = ar_tenant_id r, al_rule_id = ar_rule_id r,
         al_device_id = ar_device_id r, al_severity = ar_severity r, al_status = ar_status r,
         al_message = ar_message r, al_triggered_value = ar_triggered_value r,
         al_resolved_at = resolved_at, al_acknowledged_at = acknowledged_at,
         al_created_at = created_at\<rparr>)))"

abbreviation alert_at :: "string \<Rightarrow> string \<Rightarrow> alert_row \<Rightarrow> bool" where
  "alert_at tenant alert_id r \<equiv> ar_tenant_id r = tenant \<and> ar_id r = alert_id"

definition get_alert ::
  "micros_api \<Rightarrow> alert_db \<Rightarrow> string \<Rightarrow> string \<Rightarrow> (persistence_error, alert_record option) result" where
  "get_alert ch db tenant alert_id = (case find (alert_at tenant alert_id) (ad_alerts db) of
      None \<Rightarrow> Ok None
    | Some r \<Rightarrow> rbind (decode_alert ch r) (\<lambda>a. Ok (Some a)))"

abbreviation is_open :: "alert_row \<Rightarrow> bool" where
  "is_open r \<equiv> ar_status r \<in> {''active'', ''acknowledged''}"

definition open_for :: "string \<Rightarrow> string \<Rightarrow> string \<Rightarrow> alert_row \<Rightarrow> bool" where
  "open_for tenant rule device r \<longleftrightarrow>
     ar_tenant_id r = tenant \<and> ar_rule_id r = Some rule \<and> ar_device_id r = device \<and> is_open r"

text \<open>\<^verbatim>\<open>ORDER BY created_at DESC, id DESC LIMIT 1\<close>.\<close>

definition latest :: "alert_row list \<Rightarrow> alert_row option" where
  "latest rows = (case rev (sort_key (\<lambda>r. (ar_created_at r, ar_id r)) rows) of [] \<Rightarrow> None | r # _ \<Rightarrow> Some r)"

section \<open>Transitions\<close>

definition transition_row :: "int \<Rightarrow> alert_transition \<Rightarrow> alert_row \<Rightarrow> alert_row" where
  "transition_row now tr r = (case tr of
      Acknowledge \<Rightarrow> r\<lparr>ar_status := ''acknowledged'', ar_acknowledged_at := Some now\<rparr>
    | Resolve \<Rightarrow> r\<lparr>ar_status := ''resolved'', ar_resolved_at := Some now\<rparr>
    | Reactivate \<Rightarrow> r\<lparr>ar_status := ''active'', ar_acknowledged_at := None, ar_resolved_at := None\<rparr>)"

definition transition_cooldown ::
  "int \<Rightarrow> alert_transition \<Rightarrow> rule_device_key \<Rightarrow> (rule_device_key \<times> int) list \<Rightarrow> (rule_device_key \<times> int) list" where
  "transition_cooldown now tr key rows = (case tr of
      Acknowledge \<Rightarrow> rows
    | Resolve \<Rightarrow> upsert_cooldown key now rows
    | Reactivate \<Rightarrow> AList.delete key rows)"

definition apply_transition :: "int \<Rightarrow> string \<Rightarrow> string \<Rightarrow> alert_transition \<Rightarrow> alert_record \<Rightarrow> alert_db \<Rightarrow> alert_db" where
  "apply_transition now tenant alert_id tr current db =
     (let db' = set_alerts (update_where (alert_at tenant alert_id) (transition_row now tr) (ad_alerts db)) db
      in case al_rule_id current of
           None \<Rightarrow> db'
         | Some rule \<Rightarrow> set_cooldowns (transition_cooldown now tr (tenant, rule, al_device_id current)
             (db_cooldowns (ad_runtime db))) db')"

definition slot_conflict :: "alert_db \<Rightarrow> string \<Rightarrow> string \<Rightarrow> alert_transition \<Rightarrow> alert_record \<Rightarrow> alert_row option" where
  "slot_conflict db tenant alert_id tr current =
     (if requires_active_slot tr then
        case al_rule_id current of
          None \<Rightarrow> None
        | Some rule \<Rightarrow>
            latest (filter (\<lambda>r. open_for tenant rule (al_device_id current) r \<and> ar_id r \<noteq> alert_id) (ad_alerts db))
      else None)"

text \<open>
  The statement that locks the device changes nothing, so reading the alert again after it gives
  the same record.
\<close>

definition transition_from ::
  "micros_api \<Rightarrow> int \<Rightarrow> string \<Rightarrow> string \<Rightarrow> alert_transition \<Rightarrow> alert_db
     \<Rightarrow> (persistence_error, alert_transition_outcome \<times> alert_db) result" where
  "transition_from ch now tenant alert_id tr db =
     rbind (get_alert ch db tenant alert_id) (\<lambda>found. case found of
        None \<Rightarrow> Ok (TransitionNotFound, db)
      | Some current \<Rightarrow>
          if \<not> device_exists db tenant (al_device_id current) then Ok (TransitionNotFound, db)
          else if \<not> accepts tr (al_status current) then Ok (InvalidStatus (al_status current), db)
          else case slot_conflict db tenant alert_id tr current of
            Some r \<Rightarrow> Ok (ActiveConflict (ar_id r), db)
          | None \<Rightarrow>
              let db' = apply_transition now tenant alert_id tr current db
              in rbind (get_alert ch db' tenant alert_id) (\<lambda>a. case a of
                   None \<Rightarrow> Err NotFound
                 | Some a \<Rightarrow> Ok (Updated a, db')))"

fun transition_each ::
  "micros_api \<Rightarrow> (string \<Rightarrow> int) \<Rightarrow> string \<Rightarrow> string list \<Rightarrow> alert_transition \<Rightarrow> alert_db
     \<Rightarrow> (persistence_error, alert_record list \<times> alert_db) result" where
  "transition_each ch now tenant [] tr db = Ok ([], db)"
| "transition_each ch now tenant (alert_id # ids) tr db =
     rbind (transition_from ch (now alert_id) tenant alert_id tr db) (\<lambda>(outcome, db').
     rbind (transition_each ch now tenant ids tr db') (\<lambda>(records, db'').
     Ok (case outcome of Updated r \<Rightarrow> r # records | _ \<Rightarrow> records, db'')))"

definition transition_many ::
  "micros_api \<Rightarrow> (string \<Rightarrow> int) \<Rightarrow> string \<Rightarrow> string list \<Rightarrow> alert_transition \<Rightarrow> alert_db
     \<Rightarrow> (persistence_error, alert_record list \<times> alert_db) result" where
  "transition_many ch now tenant ids tr db =
     transition_each ch now tenant (sorted_list_of_set (set ids)) tr db"

section \<open>Deliveries\<close>

definition find_delivery ::
  "micros_api \<Rightarrow> alert_db \<Rightarrow> string \<Rightarrow> string \<Rightarrow> (persistence_error, alert_record option option) result" where
  "find_delivery ch db tenant delivery =
     (case find (\<lambda>(d, t, a). t = tenant \<and> d = delivery) (ad_deliveries db) of
        None \<Rightarrow> Ok None
      | Some (d, t, alert) \<Rightarrow> rbind (get_alert ch db tenant alert) (\<lambda>a. Ok (Some a)))"

definition record_delivery :: "string \<Rightarrow> string \<Rightarrow> string \<Rightarrow> alert_db \<Rightarrow> (persistence_error, alert_db) result" where
  "record_delivery tenant delivery alert db =
     (if delivery \<in> fst ` set (ad_deliveries db) then Err unique_failure
      else if delivery \<notin> set (ad_outbox db) then Err foreign_key_failure
      else Ok (db\<lparr>ad_deliveries := ad_deliveries db @ [(delivery, tenant, alert)]\<rparr>))"

definition new_alert_row :: "int \<Rightarrow> string \<Rightarrow> new_rule_alert \<Rightarrow> alert_row" where
  "new_alert_row now tenant r =
     \<lparr>ar_tenant_id = tenant, ar_device_id = na_device_id r, ar_rule_id = Some (na_rule_id r), ar_id = na_id r,
      ar_severity = na_severity r, ar_status = ''active'', ar_message = na_message r,
      ar_triggered_value = na_triggered_value r, ar_resolved_at = None, ar_acknowledged_at = None,
      ar_created_at = now\<rparr>"

definition insert_alert :: "int \<Rightarrow> string \<Rightarrow> new_rule_alert \<Rightarrow> alert_db \<Rightarrow> (persistence_error, alert_db) result" where
  "insert_alert now tenant r db =
     (if na_id r \<in> ar_id ` set (ad_alerts db) then Err unique_failure
      else if \<not> rule_exists db tenant (na_rule_id r) then Err foreign_key_failure
      else Ok (set_alerts (ad_alerts db @ [new_alert_row now tenant r]) db))"

definition deliver_existing ::
  "string \<Rightarrow> new_rule_alert \<Rightarrow> alert_record \<Rightarrow> alert_db \<Rightarrow> (persistence_error, alert_record option \<times> alert_db) result" where
  "deliver_existing tenant r a db =
     rbind (record_delivery tenant (na_id r) (al_id a) db) (\<lambda>db'. Ok (Some a, db'))"

definition deliver_new ::
  "micros_api \<Rightarrow> int \<Rightarrow> string \<Rightarrow> new_rule_alert \<Rightarrow> alert_db
     \<Rightarrow> (persistence_error, alert_record option \<times> alert_db) result" where
  "deliver_new ch now tenant r db =
     rbind (insert_alert now tenant r db) (\<lambda>db'.
     rbind (get_alert ch db' tenant (na_id r)) (\<lambda>inserted. case inserted of
        None \<Rightarrow> Err NotFound
      | Some a \<Rightarrow> deliver_existing tenant r a db'))"

definition create_or_get_active ::
  "micros_api \<Rightarrow> int \<Rightarrow> string \<Rightarrow> new_rule_alert \<Rightarrow> alert_db
     \<Rightarrow> (persistence_error, alert_record option \<times> alert_db) result" where
  "create_or_get_active ch now tenant r db =
     rbind (find_delivery ch db tenant (na_id r)) (\<lambda>applied. case applied of
        Some a \<Rightarrow> Ok (a, db)
      | None \<Rightarrow>
          if \<not> device_exists db tenant (na_device_id r) then Err NotFound
          else rbind (get_alert ch db tenant (na_id r)) (\<lambda>existing. case existing of
             Some a \<Rightarrow> deliver_existing tenant r a db
           | None \<Rightarrow>
               (case latest (filter (open_for tenant (na_rule_id r) (na_device_id r)) (ad_alerts db)) of
                  Some row \<Rightarrow> rbind (decode_alert ch row) (\<lambda>a. deliver_existing tenant r a db)
                | None \<Rightarrow> deliver_new ch now tenant r db)))"

definition update_triggered_value :: "string \<Rightarrow> string \<Rightarrow> string \<Rightarrow> alert_db \<Rightarrow> bool \<times> alert_db" where
  "update_triggered_value tenant alert_id v db =
     (count_where (alert_at tenant alert_id) (ad_alerts db) = 1,
      set_alerts (update_where (alert_at tenant alert_id) (\<lambda>r. r\<lparr>ar_triggered_value := Some v\<rparr>) (ad_alerts db)) db)"

section \<open>Reading and retention\<close>

definition list_matches :: "micros_api \<Rightarrow> string \<Rightarrow> alert_list_filter \<Rightarrow> alert_row \<Rightarrow> bool" where
  "list_matches ch tenant f r \<longleftrightarrow> ar_tenant_id r = tenant
     \<and> is_none_or (\<lambda>s. ar_status r = s) (af_status f)
     \<and> is_none_or (\<lambda>s. ar_severity r = s) (af_severity f)
     \<and> is_none_or (\<lambda>d. ar_device_id r = d) (af_device_id f)
     \<and> is_none_or (\<lambda>i. ar_rule_id r = Some i) (af_rule_id f)
     \<and> is_none_or (\<lambda>t. timestamp_micros ch t \<le> ar_created_at r) (af_since f)
     \<and> is_none_or (\<lambda>t. ar_created_at r < timestamp_micros ch t) (af_before f)"

fun decode_alerts :: "micros_api \<Rightarrow> alert_row list \<Rightarrow> (persistence_error, alert_record list) result" where
  "decode_alerts ch [] = Ok []"
| "decode_alerts ch (r # rows) =
     rbind (decode_alert ch r) (\<lambda>a. rbind (decode_alerts ch rows) (\<lambda>as. Ok (a # as)))"

definition list_alerts ::
  "micros_api \<Rightarrow> string \<Rightarrow> alert_list_filter \<Rightarrow> alert_db \<Rightarrow> (persistence_error, alert_record list \<times> nat) result" where
  "list_alerts ch tenant f db =
     (let found = filter (list_matches ch tenant f) (ad_alerts db);
          ordered = rev (sort_key (\<lambda>r. (ar_created_at r, ar_id r)) found)
      in rbind (decode_alerts ch (limited (af_limit f) (drop (nat (af_offset f)) ordered))) (\<lambda>out.
         Ok (out, length found)))"

definition alert_summary :: "string \<Rightarrow> alert_db \<Rightarrow> (string \<times> string \<times> nat) list" where
  "alert_summary tenant db =
     (let mine = filter (\<lambda>r. ar_tenant_id r = tenant) (ad_alerts db)
      in map (\<lambda>(status, severity). (status, severity,
           count_where (\<lambda>r. ar_status r = status \<and> ar_severity r = severity) mine))
         (sorted_list_of_set ((\<lambda>r. (ar_status r, ar_severity r)) ` set mine)))"

definition resolved_before :: "int \<Rightarrow> alert_row \<Rightarrow> bool" where
  "resolved_before cutoff r \<longleftrightarrow> ar_status r = ''resolved'' \<and> is_some_and (\<lambda>t. t < cutoff) (ar_resolved_at r)"

definition delete_all_resolved_before :: "micros_api \<Rightarrow> time \<Rightarrow> alert_db \<Rightarrow> nat \<times> alert_db" where
  "delete_all_resolved_before ch cutoff db =
     (let p = resolved_before (timestamp_micros ch cutoff)
      in (count_where p (ad_alerts db), set_alerts (filter (\<lambda>r. \<not> p r) (ad_alerts db)) db))"

definition delete_stale_cooldowns :: "micros_api \<Rightarrow> time \<Rightarrow> alert_db \<Rightarrow> nat \<times> alert_db" where
  "delete_stale_cooldowns ch cutoff db =
     (let p = (\<lambda>(key, fired). fired < timestamp_micros ch cutoff);
          rows = db_cooldowns (ad_runtime db)
      in (count_where p rows, set_cooldowns (filter (\<lambda>r. \<not> p r) rows) db))"

section \<open>The application\<close>

definition quoted :: "string \<Rightarrow> string" where
  "quoted s = CHR 39 # s @ [CHR 39]"

definition alert_list_request ::
  "micros_api \<Rightarrow> tenant_context \<Rightarrow> alert_list_filter \<Rightarrow> alert_db \<Rightarrow> (application_error, alert_record list \<times> nat) result" where
  "alert_list_request ch ctx f db =
     rbind (require_permission ctx ReadAlerts) (\<lambda>_. persistence (list_alerts ch (tc_tenant_id ctx) f db))"

definition alert_missing :: "string \<Rightarrow> application_error" where
  "alert_missing alert_id = AppNotFound (''Alert '' @ quoted alert_id @ '' not found'')"

definition alert_get_request ::
  "micros_api \<Rightarrow> tenant_context \<Rightarrow> string \<Rightarrow> alert_db \<Rightarrow> (application_error, alert_record) result" where
  "alert_get_request ch ctx alert_id db =
     rbind (require_permission ctx ReadAlerts) (\<lambda>_.
     rbind (persistence (get_alert ch db (tc_tenant_id ctx) alert_id)) (\<lambda>found. case found of
        None \<Rightarrow> Err (alert_missing alert_id)
      | Some a \<Rightarrow> Ok a))"

definition transition_refused :: "string \<Rightarrow> alert_transition \<Rightarrow> string \<Rightarrow> string" where
  "transition_refused alert_id tr status = (case tr of
      Acknowledge \<Rightarrow> ''Alert '' @ quoted alert_id @ '' cannot be acknowledged from status '' @ quoted status
    | Resolve \<Rightarrow> ''Alert '' @ quoted alert_id @ '' is already resolved''
    | Reactivate \<Rightarrow> ''Alert '' @ quoted alert_id @ '' is already active'')"

text \<open>The transaction commits before its outcome is translated, so the tables come with the answer.\<close>

definition alert_transition_request ::
  "micros_api \<Rightarrow> int \<Rightarrow> tenant_context \<Rightarrow> string \<Rightarrow> alert_transition \<Rightarrow> alert_db
     \<Rightarrow> (application_error, alert_record) result \<times> alert_db" where
  "alert_transition_request ch now ctx alert_id tr db =
     (case require_permission ctx ManageAlerts of
        Inl e \<Rightarrow> (Err e, db)
      | Inr _ \<Rightarrow>
          (case transition_from ch now (tc_tenant_id ctx) alert_id tr db of
             Inl e \<Rightarrow> (Err (Persistence e), db)
           | Inr (outcome, db') \<Rightarrow>
               (case outcome of
                  TransitionNotFound \<Rightarrow> Err (alert_missing alert_id)
                | InvalidStatus status \<Rightarrow> Err (InvalidInput (transition_refused alert_id tr status))
                | ActiveConflict existing \<Rightarrow> Err (Conflict (''Alert '' @ quoted alert_id
                    @ '' cannot be reactivated while alert '' @ quoted existing
                    @ '' is active or acknowledged for the same rule and device''))
                | Updated alert \<Rightarrow> Ok alert, db')))"

definition alert_transition_many_request ::
  "micros_api \<Rightarrow> (string \<Rightarrow> int) \<Rightarrow> tenant_context \<Rightarrow> string list \<Rightarrow> alert_transition \<Rightarrow> alert_db
     \<Rightarrow> (application_error, alert_record list \<times> alert_db) result" where
  "alert_transition_many_request ch now ctx ids tr db =
     rbind (require_permission ctx ManageAlerts) (\<lambda>_.
     persistence (transition_many ch now (tc_tenant_id ctx) ids tr db))"

definition alert_summary_request ::
  "tenant_context \<Rightarrow> alert_db \<Rightarrow> (application_error, (string \<times> string \<times> nat) list) result" where
  "alert_summary_request ctx db =
     rbind (require_permission ctx ReadAlerts) (\<lambda>_. Ok (alert_summary (tc_tenant_id ctx) db))"

section \<open>The alert worker\<close>

definition update_value_for_action ::
  "string \<Rightarrow> string \<Rightarrow> string \<Rightarrow> alert_db \<Rightarrow> (application_error, unit) result \<times> alert_db" where
  "update_value_for_action tenant alert_id v db =
     (let (found, db') = update_triggered_value tenant alert_id v db
      in (if found then Ok () else Err (alert_missing alert_id), db'))"

definition resolve_for_action ::
  "micros_api \<Rightarrow> int \<Rightarrow> string \<Rightarrow> string \<Rightarrow> alert_db \<Rightarrow> (application_error, unit) result \<times> alert_db" where
  "resolve_for_action ch now tenant alert_id db =
     (case transition_from ch now tenant alert_id Resolve db of
        Inl e \<Rightarrow> (Err (Persistence e), db)
      | Inr (outcome, db') \<Rightarrow>
          (case outcome of
             Updated _ \<Rightarrow> Ok ()
           | TransitionNotFound \<Rightarrow> Err (alert_missing alert_id)
           | ActiveConflict existing \<Rightarrow> Err (Conflict (''Active alert conflict: '' @ existing))
           | InvalidStatus status \<Rightarrow> Err (InvalidOperation (''Alert '' @ quoted alert_id
               @ '' cannot be resolved from status '' @ quoted status)), db'))"

record rule_alert_intent =
  in_rule_id :: string
  in_device_id :: string
  in_severity :: string
  in_message :: string
  in_triggered_value :: "string option"

definition create_for_action ::
  "micros_api \<Rightarrow> int \<Rightarrow> string \<Rightarrow> string \<Rightarrow> rule_alert_intent \<Rightarrow> alert_db
     \<Rightarrow> (application_error, alert_record option \<times> alert_db) result" where
  "create_for_action ch now tenant delivery intent db =
     (if delivery = [] then Err (InvalidInput ''alert creation requires a durable action ID'')
      else persistence (create_or_get_active ch now tenant
        \<lparr>na_id = delivery, na_rule_id = in_rule_id intent, na_device_id = in_device_id intent,
         na_severity = in_severity intent, na_message = in_message intent,
         na_triggered_value = in_triggered_value intent\<rparr> db))"

section \<open>Retention\<close>

text \<open>Of chrono: spans of days and seconds, the span of a day in hours, and subtraction that may overflow.\<close>

record span_api =
  try_days :: "int \<Rightarrow> int option"
  try_seconds :: "int \<Rightarrow> int option"
  hours_span :: "int \<Rightarrow> int"
  checked_sub_signed :: "time \<Rightarrow> int \<Rightarrow> time option"

definition prune ::
  "micros_api \<Rightarrow> span_api \<Rightarrow> nat \<Rightarrow> time \<Rightarrow> alert_db \<Rightarrow> (application_error, (nat \<times> nat) \<times> alert_db) result" where
  "prune ch sp retention_days now db =
     (case (if int retention_days \<le> i64_max then try_days sp (int retention_days) else None) of
        None \<Rightarrow> Err (InvalidInput ''alert retention period is out of range'')
      | Some age \<Rightarrow>
          (case checked_sub_signed sp now age of
             None \<Rightarrow> Err (InvalidInput ''alert retention cutoff is out of range'')
           | Some cutoff \<Rightarrow>
               (case checked_sub_signed sp now (hours_span sp 24) of
                  None \<Rightarrow> Err (InvalidInput ''cooldown retention cutoff is out of range'')
                | Some cooldown_cutoff \<Rightarrow>
                    let (alerts, db') = delete_all_resolved_before ch cutoff db;
                        (cooldowns, db'') = delete_stale_cooldowns ch cooldown_cutoff db'
                    in Ok ((alerts, cooldowns), db''))))"

end
