(* ===== verification/Alert_Protocol.thy ===== *)
theory Alert_Protocol
  imports Alerts Outbox_Protocol
begin

text \<open>
  Histories of the alert tables: at any time a rule has at most one open alert on a device, which
  is the one the next evaluation loads, and a delivery is applied once, even after its alert was
  resolved or pruned.
\<close>

section \<open>Histories\<close>

datatype alert_op =
    CreateActive int string new_rule_alert
  | Transit int string string alert_transition
  | TransitMany "string \<Rightarrow> int" string "string list" alert_transition
  | SetValue string string string
  | Prune nat time
  | Evaluate string string "device_rule_evaluation option"
  | Enqueued "string list"
  | Configure "((string \<times> string) \<times> (int option \<times> string option)) list" "rule_row list"

record alert_env =
  ae_libm :: libm
  ae_clock :: clock_api
  ae_micros :: micros_api
  ae_span :: span_api

fun alert_apply :: "alert_env \<Rightarrow> alert_op \<Rightarrow> alert_db \<Rightarrow> alert_db" where
  "alert_apply E (CreateActive now tenant r) db =
     (case create_or_get_active (ae_micros E) now tenant r db of Inl _ \<Rightarrow> db | Inr (_, db') \<Rightarrow> db')"
| "alert_apply E (Transit now tenant alert_id tr) db =
     (case transition_from (ae_micros E) now tenant alert_id tr db of Inl _ \<Rightarrow> db | Inr (_, db') \<Rightarrow> db')"
| "alert_apply E (TransitMany now tenant ids tr) db =
     (case transition_many (ae_micros E) now tenant ids tr db of Inl _ \<Rightarrow> db | Inr (_, db') \<Rightarrow> db')"
| "alert_apply E (SetValue tenant alert_id v) db = snd (update_triggered_value tenant alert_id v db)"
| "alert_apply E (Prune days now) db =
     (case prune (ae_micros E) (ae_span E) days now db of Inl _ \<Rightarrow> db | Inr (_, db') \<Rightarrow> db')"
| "alert_apply E (Evaluate tenant device plan) db =
     (case evaluate_rules_in_transaction (ae_libm E) (ae_clock E) (ae_micros E) (ad_runtime db) tenant device plan of
        Inl _ \<Rightarrow> db
      | Inr (_, runtime) \<Rightarrow> db\<lparr>ad_runtime := runtime\<rparr>)"
| "alert_apply E (Enqueued ids) db = db\<lparr>ad_outbox := ad_outbox db @ ids\<rparr>"
| "alert_apply E (Configure targets rules) db =
     db\<lparr>ad_runtime := (ad_runtime db)\<lparr>db_device_targets := targets, db_rules := rules\<rparr>\<rparr>"

text \<open>The clock yields times that can be read back.\<close>

fun alert_op_ok :: "alert_env \<Rightarrow> alert_op \<Rightarrow> bool" where
  "alert_op_ok E (CreateActive now _ _) = readable_time (ae_micros E) now"
| "alert_op_ok E (Transit now _ _ _) = readable_time (ae_micros E) now"
| "alert_op_ok E (TransitMany now _ ids _) = list_all (\<lambda>i. readable_time (ae_micros E) (now i)) ids"
| "alert_op_ok E _ = True"

primrec alert_run :: "alert_env \<Rightarrow> alert_op list \<Rightarrow> alert_db \<Rightarrow> alert_db" where
  "alert_run E [] db = db"
| "alert_run E (op # ops) db = alert_run E ops (alert_apply E op db)"

definition no_alerts :: alert_db where
  "no_alerts = \<lparr>ad_runtime = \<lparr>db_device_targets = [], db_rules = [], db_alerts = [], db_cooldowns = [],
     db_zone_entries = []\<rparr>, ad_deliveries = [], ad_outbox = []\<rparr>"

inductive alert_reachable :: "alert_env \<Rightarrow> alert_db \<Rightarrow> bool" for E where
  start: "alert_reachable E no_alerts"
| step: "alert_reachable E db \<Longrightarrow> alert_op_ok E op \<Longrightarrow> alert_reachable E (alert_apply E op db)"

lemma alert_run_reachable:
  "alert_reachable E db \<Longrightarrow> list_all (alert_op_ok E) ops \<Longrightarrow> alert_reachable E (alert_run E ops db)"
  by (induction ops arbitrary: db) (auto intro: alert_reachable.step)

section \<open>The invariant\<close>

definition open_key :: "alert_row \<Rightarrow> rule_device_key option" where
  "open_key r = (if is_open r
     then map_option (\<lambda>rule. (ar_tenant_id r, rule, ar_device_id r)) (ar_rule_id r) else None)"

definition alert_readable :: "micros_api \<Rightarrow> alert_row \<Rightarrow> bool" where
  "alert_readable ch r \<longleftrightarrow> readable_time ch (ar_created_at r)
     \<and> is_none_or (readable_time ch) (ar_resolved_at r) \<and> is_none_or (readable_time ch) (ar_acknowledged_at r)"

definition alerts_ok :: "micros_api \<Rightarrow> alert_row list \<Rightarrow> bool" where
  "alerts_ok ch rows \<longleftrightarrow> distinct (map ar_id rows) \<and> (\<forall>r \<in> set rows. alert_readable ch r)
     \<and> (\<forall>r \<in> set rows. \<forall>s \<in> set rows. \<forall>k. open_key r = Some k \<longrightarrow> open_key s = Some k \<longrightarrow> r = s)"

lemma open_for_open_key: "open_for tenant rule device r \<longleftrightarrow> open_key r = Some (tenant, rule, device)"
  by (auto simp: open_for_def open_key_def)

lemma set_alerts_simps [simp]:
  "ad_alerts (set_alerts rows db) = rows" "ad_alerts (set_cooldowns cs db) = ad_alerts db"
  "ad_deliveries (set_alerts rows db) = ad_deliveries db" "ad_deliveries (set_cooldowns cs db) = ad_deliveries db"
  by (simp_all add: set_alerts_def set_cooldowns_def)

lemma alerts_ok_same_id:
  "alerts_ok ch rows \<Longrightarrow> r \<in> set rows \<Longrightarrow> s \<in> set rows \<Longrightarrow> ar_id r = ar_id s \<Longrightarrow> r = s"
  by (auto simp: alerts_ok_def distinct_map dest: inj_onD)

lemma alerts_ok_unique:
  "alerts_ok ch rows \<Longrightarrow> r \<in> set rows \<Longrightarrow> s \<in> set rows \<Longrightarrow> open_key r = Some k \<Longrightarrow> open_key s = Some k \<Longrightarrow> r = s"
  unfolding alerts_ok_def by blast

lemma alerts_okI:
  assumes "distinct (map ar_id rows)" and "\<And>r. r \<in> set rows \<Longrightarrow> alert_readable ch r"
    and "\<And>r s k. r \<in> set rows \<Longrightarrow> s \<in> set rows \<Longrightarrow> open_key r = Some k \<Longrightarrow> open_key s = Some k \<Longrightarrow> r = s"
  shows "alerts_ok ch rows"
  using assms unfolding alerts_ok_def by blast

lemma alerts_ok_filter: "alerts_ok ch rows \<Longrightarrow> alerts_ok ch (filter p rows)"
  by (auto simp: alerts_ok_def distinct_map_filter)

lemma alerts_ok_append:
  assumes "alerts_ok ch rows" and "alert_readable ch r" and "ar_id r \<notin> ar_id ` set rows"
    and "\<And>s. s \<in> set rows \<Longrightarrow> open_key s = None \<or> open_key s \<noteq> open_key r"
  shows "alerts_ok ch (rows @ [r])"
proof -
  have "a = b" if "a \<in> set (rows @ [r])" "b \<in> set (rows @ [r])" "open_key a = Some k" "open_key b = Some k" for a b k
    using alerts_ok_unique [OF assms(1)] assms(4) [of a] assms(4) [of b] that
    by (cases "a \<in> set rows"; cases "b \<in> set rows") auto
  then show ?thesis using assms(1-3) by (intro alerts_okI) (auto simp: alerts_ok_def)
qed

text \<open>An update of the row with this identifier, whose new slot, if any, is free.\<close>

lemma alerts_ok_update:
  assumes ok: "alerts_ok ch rows"
    and f: "\<And>r. r \<in> set rows \<Longrightarrow> p r \<Longrightarrow> ar_id (f r) = ar_id r \<and> alert_readable ch (f r)"
    and one: "\<And>r s. r \<in> set rows \<Longrightarrow> s \<in> set rows \<Longrightarrow> p r \<Longrightarrow> p s \<Longrightarrow> r = s"
    and free: "\<And>r s k. r \<in> set rows \<Longrightarrow> s \<in> set rows \<Longrightarrow> p r \<Longrightarrow> \<not> p s \<Longrightarrow> open_key (f r) = Some k \<Longrightarrow> open_key s \<noteq> Some k"
  shows "alerts_ok ch (update_where p f rows)"
proof -
  have "map ar_id (update_where p f rows) = map ar_id rows"
    using f by (auto simp: update_where_def)
  moreover have "\<forall>r \<in> set (update_where p f rows). alert_readable ch r"
    using ok f by (auto simp: set_update_where alerts_ok_def)
  moreover have "a = b" if ab: "a \<in> set (update_where p f rows)" "b \<in> set (update_where p f rows)"
      and "open_key a = Some k" "open_key b = Some k" for a b k
  proof -
    obtain r s where r: "r \<in> set rows" "a = (if p r then f r else r)"
      and s: "s \<in> set rows" "b = (if p s then f s else s)"
      using ab by (auto simp: set_update_where)
    show ?thesis
    proof (cases "p r = p s")
      case True
      then have "r = s"
        using one [OF r(1) s(1)] alerts_ok_unique [OF ok r(1) s(1), of k] r(2) s(2) that(3,4) by (cases "p r") auto
      then show ?thesis using r s by simp
    next
      case False
      then show ?thesis
        using free [OF r(1) s(1)] free [OF s(1) r(1)] r(2) s(2) that(3,4) by (cases "p r") auto
    qed
  qed
  ultimately show ?thesis using ok by (intro alerts_okI) (auto simp: alerts_ok_def)
qed

section \<open>Every operation keeps the invariant\<close>

lemma find_alert_Some:
  "find (alert_at tenant alert_id) rows = Some r \<Longrightarrow> r \<in> set rows \<and> alert_at tenant alert_id r"
  by (auto simp: find_Some_iff)

lemma decode_alert_Ok:
  "decode_alert ch r = Ok a \<Longrightarrow> al_id a = ar_id r \<and> al_tenant_id a = ar_tenant_id r \<and> al_rule_id a = ar_rule_id r
     \<and> al_device_id a = ar_device_id r \<and> al_status a = ar_status r"
  by (auto simp: decode_alert_def rbind_Inr_iff)

lemma get_alert_Some:
  assumes "get_alert ch db tenant alert_id = Ok (Some a)"
  obtains r where "r \<in> set (ad_alerts db)" and "alert_at tenant alert_id r" and "decode_alert ch r = Ok a"
proof (cases "find (alert_at tenant alert_id) (ad_alerts db)")
  case (Some r)
  then have "decode_alert ch r = Ok a" using assms by (auto simp: get_alert_def rbind_Inr_iff)
  then show ?thesis using that [of r] find_alert_Some [OF Some] by blast
qed (use assms in \<open>simp add: get_alert_def\<close>)

lemma latest_None: "latest rows = None \<longleftrightarrow> rows = []"
  and latest_Some: "latest rows = Some r \<Longrightarrow> r \<in> set rows"
proof -
  have rows: "set (rev (sort_key (\<lambda>r. (ar_created_at r, ar_id r)) rows)) = set rows" by simp
  show "latest rows = None \<longleftrightarrow> rows = []" and "latest rows = Some r \<Longrightarrow> r \<in> set rows"
    unfolding latest_def using rows
    by (cases "rev (sort_key (\<lambda>r. (ar_created_at r, ar_id r)) rows)"; fastforce simp del: rev_is_Nil_conv)+
qed

lemma latest_Nil [simp]: "latest [] = None"
  by (simp add: latest_None)

lemma transition_updates:
  assumes "transition_from ch now tenant alert_id tr db = Ok (outcome, db')"
  obtains "db' = db"
  | r a where "r \<in> set (ad_alerts db)" and "alert_at tenant alert_id r" and "accepts tr (ar_status r)"
      and "al_rule_id a = ar_rule_id r" and "al_device_id a = ar_device_id r"
      and "slot_conflict db tenant alert_id tr a = None" and "db' = apply_transition now tenant alert_id tr a db"
proof (cases "db' = db")
  case False
  obtain a where a: "get_alert ch db tenant alert_id = Ok (Some a)" "accepts tr (al_status a)"
      "slot_conflict db tenant alert_id tr a = None" "db' = apply_transition now tenant alert_id tr a db"
    using assms False
    by (auto simp: transition_from_def rbind_Inr_iff Let_def split: option.splits if_splits)
  from a(1) obtain r where r: "r \<in> set (ad_alerts db)" "alert_at tenant alert_id r" "decode_alert ch r = Ok a"
    by (rule get_alert_Some)
  show ?thesis using that(2) [OF r(1,2) _ _ _ a(3,4)] a(2) decode_alert_Ok [OF r(3)] by simp
qed (rule that(1))

lemma readable_micros: "readable_time ch now \<Longrightarrow> \<exists>t. row_datetime ch now = Ok t"
  by (auto simp: readable_time_def split: sum.splits)

lemma transition_row_readable:
  "alert_readable ch r \<Longrightarrow> readable_time ch now \<Longrightarrow> alert_readable ch (transition_row now tr r)"
  by (cases tr) (simp_all add: alert_readable_def transition_row_def)

lemma transition_row_key:
  "accepts tr (ar_status r) \<Longrightarrow> open_key (transition_row now tr r) = Some k \<Longrightarrow>
     tr = Reactivate \<and> k = (ar_tenant_id r, the (ar_rule_id r), ar_device_id r) \<and> ar_rule_id r \<noteq> None
     \<or> open_key r = Some k"
  by (cases tr) (auto simp: open_key_def transition_row_def)

lemma ad_alerts_apply_transition [simp]:
  "ad_alerts (apply_transition now tenant alert_id tr a db)
     = update_where (alert_at tenant alert_id) (transition_row now tr) (ad_alerts db)"
  "ad_deliveries (apply_transition now tenant alert_id tr a db) = ad_deliveries db"
  by (simp_all add: apply_transition_def Let_def split: option.split)

lemma transition_ok:
  assumes ok: "alerts_ok ch (ad_alerts db)" and now: "readable_time ch now"
    and tr: "transition_from ch now tenant alert_id tr db = Ok (outcome, db')"
  shows "alerts_ok ch (ad_alerts db')"
  using tr
proof (cases rule: transition_updates)
  case (2 r a)
  have "alerts_ok ch (update_where (alert_at tenant alert_id) (transition_row now tr) (ad_alerts db))"
  proof (rule alerts_ok_update [OF ok])
    fix x y k
    assume x: "x \<in> set (ad_alerts db)" "alert_at tenant alert_id x"
      and y: "y \<in> set (ad_alerts db)" "\<not> alert_at tenant alert_id y"
      and k: "open_key (transition_row now tr x) = Some k"
    have "x = r" using alerts_ok_same_id [OF ok x(1) 2(1)] x(2) 2(2) by simp
    show "open_key y \<noteq> Some k"
    proof
      assume key: "open_key y = Some k"
      from transition_row_key [OF _ k] 2(3) \<open>x = r\<close>
      consider "open_key r = Some k"
        | "tr = Reactivate" "ar_rule_id r \<noteq> None" "k = (ar_tenant_id r, the (ar_rule_id r), ar_device_id r)" by auto
      then show False
      proof cases
        case 1
        then show False using alerts_ok_unique [OF ok y(1) 2(1) key] y(2) 2(2) by simp
      next
        case react: 2
        then obtain rule where rule: "ar_rule_id r = Some rule" by auto
        have "open_for tenant rule (al_device_id a) y"
          using key react rule 2(2,5) by (simp add: open_for_open_key)
        moreover have "ar_tenant_id y = tenant" using key react 2(2) by (auto simp: open_key_def split: if_splits)
        ultimately show False
          using 2(4,6) react(1) rule y by (auto simp: slot_conflict_def latest_None filter_empty_conv)
      qed
    qed
  next
    fix x assume "x \<in> set (ad_alerts db)"
    then have "alert_readable ch x" using ok by (simp add: alerts_ok_def)
    with now show "ar_id (transition_row now tr x) = ar_id x \<and> alert_readable ch (transition_row now tr x)"
      using transition_row_readable by (simp add: transition_row_def split: alert_transition.split)
  qed (use alerts_ok_same_id [OF ok] in auto)
  then show ?thesis by (simp add: 2(7))
qed (simp add: ok)

lemma transition_each_ok:
  assumes "transition_each ch now tenant ids tr db = Ok (records, db')" and "alerts_ok ch (ad_alerts db)"
    and "\<forall>i \<in> set ids. readable_time ch (now i)"
  shows "alerts_ok ch (ad_alerts db') \<and> ad_deliveries db' = ad_deliveries db"
  using assms
proof (induction ids arbitrary: db records)
  case (Cons i ids)
  obtain outcome db1 where step: "transition_from ch (now i) tenant i tr db = Ok (outcome, db1)"
    and rest: "\<exists>records. transition_each ch now tenant ids tr db1 = Ok (records, db')"
    using Cons.prems(1) by (auto simp: rbind_Inr_iff)
  have "alerts_ok ch (ad_alerts db1)" using transition_ok [OF Cons.prems(2) _ step] Cons.prems(3) by simp
  moreover have "ad_deliveries db1 = ad_deliveries db" using step by (cases rule: transition_updates) simp_all
  ultimately show ?case using rest Cons.IH Cons.prems(3) by auto
qed simp

lemma record_delivery_Ok:
  "record_delivery tenant delivery alert db = Ok db' \<Longrightarrow>
     db' = db\<lparr>ad_deliveries := ad_deliveries db @ [(delivery, tenant, alert)]\<rparr>"
  by (auto simp: record_delivery_def split: if_splits)

lemma deliver_existing_Ok:
  "deliver_existing tenant r e db = Ok (a, db') \<Longrightarrow>
     db' = db\<lparr>ad_deliveries := ad_deliveries db @ [(na_id r, tenant, al_id e)]\<rparr>"
  by (auto simp: deliver_existing_def rbind_Inr_iff dest!: record_delivery_Ok)

lemma insert_alert_Ok:
  "insert_alert now tenant r db = Ok db' \<Longrightarrow>
     na_id r \<notin> ar_id ` set (ad_alerts db) \<and> db' = set_alerts (ad_alerts db @ [new_alert_row now tenant r]) db"
  by (simp add: insert_alert_def split: if_splits)

lemma create_cases:
  assumes "create_or_get_active ch now tenant r db = Ok (a, db')"
  obtains (applied) "find_delivery ch db tenant (na_id r) = Ok (Some a)" and "db' = db"
  | (reused) existing where "ad_alerts db' = ad_alerts db"
      and "ad_deliveries db' = ad_deliveries db @ [(na_id r, tenant, existing)]"
  | (inserted) existing where "filter (open_for tenant (na_rule_id r) (na_device_id r)) (ad_alerts db) = []"
      and "na_id r \<notin> ar_id ` set (ad_alerts db)" and "ad_alerts db' = ad_alerts db @ [new_alert_row now tenant r]"
      and "ad_deliveries db' = ad_deliveries db @ [(na_id r, tenant, existing)]"
proof -
  let ?open = "filter (open_for tenant (na_rule_id r) (na_device_id r)) (ad_alerts db)"
  have reuse: thesis if "deliver_existing tenant r e db = Ok (a, db')" for e
    using deliver_existing_Ok [OF that] by (intro reused) simp_all
  have new: thesis if fresh: "deliver_new ch now tenant r db = Ok (a, db')" and "?open = []"
  proof -
    obtain db1 e where "insert_alert now tenant r db = Ok db1" "deliver_existing tenant r e db1 = Ok (a, db')"
      using fresh by (auto simp: deliver_new_def rbind_Inr_iff split: option.splits)
    note ins = insert_alert_Ok [OF this(1)] and db' = deliver_existing_Ok [OF this(2)]
    show thesis using that(2) ins db' by (intro inserted) simp_all
  qed
  obtain found where f: "find_delivery ch db tenant (na_id r) = Ok found"
    using assms by (cases "find_delivery ch db tenant (na_id r)") (simp_all add: create_or_get_active_def)
  show ?thesis
  proof (cases found)
    case (Some x)
    then have "x = a" "db' = db" using assms f by (simp_all add: create_or_get_active_def)
    with f Some show ?thesis by (intro applied) simp_all
  next
    case None
    with assms f obtain existing where g: "get_alert ch db tenant (na_id r) = Ok existing"
      by (cases "get_alert ch db tenant (na_id r)") (auto simp: create_or_get_active_def split: if_splits)
    have cases: "(\<exists>e. deliver_existing tenant r e db = Ok (a, db'))
        \<or> ?open = [] \<and> deliver_new ch now tenant r db = Ok (a, db')"
      using assms f None g
      by (cases existing; cases "latest ?open")
        (auto simp: create_or_get_active_def rbind_Inr_iff latest_None split: if_splits)
    show ?thesis using cases reuse new by blast
  qed
qed

lemma create_ok:
  assumes ok: "alerts_ok ch (ad_alerts db)" and now: "readable_time ch now"
    and create: "create_or_get_active ch now tenant r db = Ok (a, db')"
  shows "alerts_ok ch (ad_alerts db')"
  using create
proof (cases rule: create_cases)
  case (inserted existing)
  let ?new = "new_alert_row now tenant r"
  have key: "open_key ?new = Some (tenant, na_rule_id r, na_device_id r)" by (simp add: open_key_def new_alert_row_def)
  have "alerts_ok ch (ad_alerts db @ [?new])"
  proof (rule alerts_ok_append [OF ok])
    fix s assume "s \<in> set (ad_alerts db)"
    then show "open_key s = None \<or> open_key s \<noteq> open_key ?new"
      using inserted(1) key by (auto simp: filter_empty_conv open_for_open_key)
  qed (use inserted(2) now in \<open>simp_all add: new_alert_row_def alert_readable_def\<close>)
  then show ?thesis using inserted(3) by simp
qed (simp_all add: ok)

lemma open_key_value [simp]: "open_key (r\<lparr>ar_triggered_value := v\<rparr>) = open_key r"
  by (simp add: open_key_def)

lemma value_ok:
  assumes ok: "alerts_ok ch (ad_alerts db)"
  shows "alerts_ok ch (ad_alerts (snd (update_triggered_value tenant alert_id v db)))"
  unfolding update_triggered_value_def snd_conv set_alerts_simps
proof (rule alerts_ok_update [OF ok])
  fix r assume "r \<in> set (ad_alerts db)"
  with ok show "ar_id (r\<lparr>ar_triggered_value := Some v\<rparr>) = ar_id r \<and> alert_readable ch (r\<lparr>ar_triggered_value := Some v\<rparr>)"
    by (simp add: alerts_ok_def alert_readable_def)
next
  fix x y k
  assume "x \<in> set (ad_alerts db)" "y \<in> set (ad_alerts db)" "alert_at tenant alert_id x" "\<not> alert_at tenant alert_id y"
    and "open_key (x\<lparr>ar_triggered_value := Some v\<rparr>) = Some k"
  then show "open_key y \<noteq> Some k"
    using alerts_ok_unique [OF ok, of x y k] by auto
qed (use alerts_ok_same_id [OF ok] in auto)

lemma prune_Ok:
  assumes "prune ch sp days now db = Ok (n, db')"
  obtains p where "ad_alerts db' = filter p (ad_alerts db)" and "ad_deliveries db' = ad_deliveries db"
  using assms
  by (fastforce simp: prune_def delete_all_resolved_before_def delete_stale_cooldowns_def Let_def
      split: option.splits if_splits)

lemma evaluate_alerts:
  "evaluate_rules_in_transaction lm clk ch db tenant device plan = Ok (acts, db') \<Longrightarrow> db_alerts db' = db_alerts db"
  by (auto simp: evaluate_rules_in_transaction_def rbind_Inr_iff Let_def split: option.splits if_splits)

lemma alert_apply_ok:
  assumes "alerts_ok (ae_micros E) (ad_alerts db)" and "alert_op_ok E op"
  shows "alerts_ok (ae_micros E) (ad_alerts (alert_apply E op db))"
proof (cases op)
  case (CreateActive now tenant r)
  then show ?thesis using assms create_ok by (auto split: sum.splits)
next
  case (Transit now tenant alert_id tr)
  then show ?thesis using assms transition_ok by (auto split: sum.splits)
next
  case (TransitMany now tenant ids tr)
  then show ?thesis
    using assms transition_each_ok by (auto simp: transition_many_def list_all_iff split: sum.splits)
next
  case (Prune days now)
  then show ?thesis
    using assms(1) alerts_ok_filter by (auto split: sum.splits elim!: prune_Ok)
next
  case (Evaluate tenant device plan)
  then show ?thesis using assms(1) evaluate_alerts by (auto split: sum.splits)
qed (use assms(1) value_ok in simp_all)

lemma reachable_ok: "alert_reachable E db \<Longrightarrow> alerts_ok (ae_micros E) (ad_alerts db)"
proof (induction rule: alert_reachable.induct)
  case start
  show ?case by (simp add: no_alerts_def alerts_ok_def)
qed (rule alert_apply_ok)

section \<open>The open alert of a rule\<close>

lemma insert_alerts_unique:
  assumes "\<And>r s. r \<in> set rows \<Longrightarrow> s \<in> set rows \<Longrightarrow> ar_rule_id r = Some rule \<Longrightarrow> ar_rule_id s = Some rule \<Longrightarrow> ar_id r = ar_id s"
  shows "insert_alerts tenant device rows m (tenant, rule, device) =
    (case find (\<lambda>r. ar_rule_id r = Some rule) rows of None \<Rightarrow> m (tenant, rule, device) | Some r \<Rightarrow> Some (ar_id r))"
  using assms
proof (induction rows arbitrary: m)
  case (Cons r rows)
  have same: "ar_id s = ar_id r"
    if "find (\<lambda>r. ar_rule_id r = Some rule) rows = Some s" "ar_rule_id r = Some rule" for s
    using Cons.prems [of s r] that by (auto simp: find_Some_iff)
  have IH: "insert_alerts tenant device rows m' (tenant, rule, device) =
      (case find (\<lambda>r. ar_rule_id r = Some rule) rows of None \<Rightarrow> m' (tenant, rule, device) | Some r \<Rightarrow> Some (ar_id r))" for m'
    by (rule Cons.IH) (rule Cons.prems, simp_all)
  show ?case using same by (auto simp: IH split: option.splits)
qed simp

lemma find_unique:
  assumes "\<And>r s. r \<in> set xs \<Longrightarrow> s \<in> set xs \<Longrightarrow> P r \<Longrightarrow> P s \<Longrightarrow> r = s"
  shows "map_option g (find P xs) = Some y \<longleftrightarrow> (\<exists>r \<in> set xs. P r \<and> g r = y)"
proof (cases "find P xs")
  case None
  then have "\<forall>x \<in> set xs. \<not> P x" by (simp add: find_None_iff)
  with None show ?thesis by auto
next
  case (Some s)
  then have "s \<in> set xs" "P s" by (auto simp: find_Some_iff)
  with assms Some show ?thesis by auto
qed

lemma loaded_alert_iff:
  assumes "alerts_ok ch (db_alerts db)"
  shows "select_active_alerts db tenant device (tenant, rule, device) = Some alert_id
    \<longleftrightarrow> (\<exists>r \<in> set (db_alerts db). open_for tenant rule device r \<and> ar_id r = alert_id)"
proof -
  let ?rows = "sort_key (\<lambda>r. (ar_created_at r, ar_id r))
    (filter (\<lambda>r. ar_tenant_id r = tenant \<and> ar_device_id r = device \<and> is_open r) (db_alerts db))"
  have mem: "r \<in> set ?rows \<and> ar_rule_id r = Some rule \<longleftrightarrow> r \<in> set (db_alerts db) \<and> open_for tenant rule device r" for r
    by (auto simp: open_for_def)
  have one: "r = s" if "r \<in> set ?rows" "s \<in> set ?rows" "ar_rule_id r = Some rule" "ar_rule_id s = Some rule" for r s
  proof -
    have "r \<in> set (db_alerts db)" "open_key r = Some (tenant, rule, device)"
      "s \<in> set (db_alerts db)" "open_key s = Some (tenant, rule, device)"
      using that mem [of r] mem [of s] unfolding open_for_open_key by blast+
    then show ?thesis using alerts_ok_unique [OF assms] by blast
  qed
  have sel: "select_active_alerts db tenant device (tenant, rule, device)
      = map_option ar_id (find (\<lambda>r. ar_rule_id r = Some rule) ?rows)"
    unfolding select_active_alerts_def
    by (subst insert_alerts_unique) (use one in \<open>blast, simp split: option.split\<close>)
  have found: "map_option ar_id (find (\<lambda>r. ar_rule_id r = Some rule) ?rows) = Some alert_id
      \<longleftrightarrow> (\<exists>r \<in> set ?rows. ar_rule_id r = Some rule \<and> ar_id r = alert_id)"
    using one by (rule find_unique)
  show ?thesis unfolding sel found by (auto simp: open_for_def)
qed

text \<open>
  C24. A rule has at most one open alert on a device, whatever creations, transitions, bulk
  transitions, evaluations and pruning have happened, and an evaluation of the device loads
  exactly that alert.
\<close>

theorem one_open_alert:
  assumes "alert_reachable E db"
  shows "card {r \<in> set (ad_alerts db). open_for tenant rule device r} \<le> 1
    \<and> (select_active_alerts (ad_runtime db) tenant device (tenant, rule, device) = Some alert_id
       \<longleftrightarrow> (\<exists>r \<in> set (ad_alerts db). open_for tenant rule device r \<and> ar_id r = alert_id))"
proof
  note ok = reachable_ok [OF assms]
  have "r = s" if "r \<in> set (ad_alerts db)" "open_for tenant rule device r"
      "s \<in> set (ad_alerts db)" "open_for tenant rule device s" for r s
    using that alerts_ok_unique [OF ok] by (simp add: open_for_open_key)
  then show "card {r \<in> set (ad_alerts db). open_for tenant rule device r} \<le> 1"
    by (intro card_le_Suc0_iff_eq [THEN iffD2, simplified One_nat_def [symmetric]]) auto
  show "select_active_alerts (ad_runtime db) tenant device (tenant, rule, device) = Some alert_id
       \<longleftrightarrow> (\<exists>r \<in> set (ad_alerts db). open_for tenant rule device r \<and> ar_id r = alert_id)"
    using loaded_alert_iff [OF ok] .
qed

section \<open>Receipts\<close>

abbreviation receipt :: "string \<Rightarrow> string \<Rightarrow> alert_db \<Rightarrow> (string \<times> string \<times> string) option" where
  "receipt tenant delivery db \<equiv> find (\<lambda>(d, t, a). t = tenant \<and> d = delivery) (ad_deliveries db)"

lemma receipt_kept:
  "receipt tenant delivery db = Some x \<Longrightarrow> ad_deliveries db' = ad_deliveries db @ ys \<Longrightarrow>
     receipt tenant delivery db' = Some x"
proof -
  assume "receipt tenant delivery db = Some x" and "ad_deliveries db' = ad_deliveries db @ ys"
  moreover have "find p xs = Some x \<Longrightarrow> find p (xs @ ys) = Some x" for p :: "string \<times> string \<times> string \<Rightarrow> bool" and xs ys x
    by (induction xs) (auto split: if_splits)
  ultimately show ?thesis by simp
qed

lemma alert_apply_deliveries:
  assumes "alerts_ok (ae_micros E) (ad_alerts db)" and "alert_op_ok E op"
  shows "\<exists>ys. ad_deliveries (alert_apply E op db) = ad_deliveries db @ ys"
proof (cases op)
  case (CreateActive now tenant r)
  then show ?thesis by (auto split: sum.splits elim!: create_cases)
next
  case (Transit now tenant alert_id tr)
  then show ?thesis by (auto split: sum.splits elim!: transition_updates)
next
  case (TransitMany now tenant ids tr)
  then show ?thesis
    using assms transition_each_ok by (auto simp: transition_many_def list_all_iff split: sum.splits)
next
  case (Prune days now)
  then show ?thesis by (auto split: sum.splits elim!: prune_Ok)
next
  case (Evaluate tenant device plan)
  then show ?thesis by (auto split: sum.splits)
qed (simp_all add: update_triggered_value_def)

lemma receipt_run:
  assumes "alerts_ok (ae_micros E) (ad_alerts db)" and "list_all (alert_op_ok E) ops"
    and "receipt tenant delivery db = Some x"
  shows "receipt tenant delivery (alert_run E ops db) = Some x"
  using assms
proof (induction ops arbitrary: db)
  case (Cons op ops)
  then have op: "alert_op_ok E op" by simp
  obtain ys where "ad_deliveries (alert_apply E op db) = ad_deliveries db @ ys"
    using alert_apply_deliveries [OF Cons.prems(1) op] by blast
  with receipt_kept Cons.prems(3) have "receipt tenant delivery (alert_apply E op db) = Some x" by blast
  with Cons.IH alert_apply_ok [OF Cons.prems(1) op] Cons.prems(2) show ?case by simp
qed simp

lemma receipt_created:
  assumes "create_or_get_active ch now tenant r db = Ok (a, db')"
  shows "receipt tenant (na_id r) db' \<noteq> None"
  using assms
proof (cases rule: create_cases)
  case applied
  then show ?thesis by (auto simp: find_delivery_def split: option.splits)
qed (auto simp: find_None_iff)

lemma get_alert_readable:
  assumes "alerts_ok ch (ad_alerts db)"
  shows "\<exists>a. get_alert ch db tenant alert_id = Ok a"
proof (cases "find (alert_at tenant alert_id) (ad_alerts db)")
  case (Some r)
  then have "alert_readable ch r" using find_alert_Some [OF Some] assms by (simp add: alerts_ok_def)
  then have "\<exists>a. decode_alert ch r = Ok a"
    by (auto simp: alert_readable_def decode_alert_def row_datetime_option_def dest!: readable_micros split: option.splits)
  with Some show ?thesis by (auto simp: get_alert_def)
qed (simp add: get_alert_def)

lemma create_again:
  assumes "alerts_ok ch (ad_alerts db)" and "receipt tenant (na_id r) db = Some x"
  shows "\<exists>a. create_or_get_active ch now tenant r db = Ok (a, db)"
proof -
  obtain d t alert where x: "x = (d, t, alert)" by (cases x)
  obtain a where "get_alert ch db tenant alert = Ok a" using get_alert_readable [OF assms(1)] by blast
  with assms(2) x have "find_delivery ch db tenant (na_id r) = Ok (Some a)" by (simp add: find_delivery_def)
  then show ?thesis by (simp add: create_or_get_active_def)
qed

text \<open>
  A delivery is applied once: after it has created or reused an alert, delivering it again
  succeeds and changes nothing, whatever happened in between. In particular the alert does not
  come back after it was resolved and pruned.
\<close>

theorem delivery_applied_once:
  assumes "alert_reachable E db" and "readable_time (ae_micros E) now"
    and "create_or_get_active (ae_micros E) now tenant r db = Ok (a, db')"
    and "list_all (alert_op_ok E) ops" and "na_id r' = na_id r"
  shows "\<exists>a'. create_or_get_active (ae_micros E) later tenant r' (alert_run E ops db') = Ok (a', alert_run E ops db')"
proof -
  note ok = create_ok [OF reachable_ok [OF assms(1)] assms(2,3)]
  obtain x where "receipt tenant (na_id r) db' = Some x" using receipt_created [OF assms(3)] by auto
  from receipt_run [OF ok assms(4) this] have "receipt tenant (na_id r') (alert_run E ops db') = Some x"
    using assms(5) by simp
  moreover have "alerts_ok (ae_micros E) (ad_alerts (alert_run E ops db'))"
    using ok assms(4) by (induction ops arbitrary: db') (simp_all add: alert_apply_ok)
  ultimately show ?thesis using create_again by blast
qed

section \<open>A sample history\<close>

definition sample_env :: alert_env where
  "sample_env = \<lparr>ae_libm = zero_libm, ae_clock = sample_clock, ae_micros = sample_micros,
     ae_span = \<lparr>try_days = (\<lambda>d. Some (d * 86400)), try_seconds = Some, hours_span = (\<lambda>h. h * 3600),
       checked_sub_signed = (\<lambda>t d. Some (t - d))\<rparr>\<rparr>"

definition sample_new_alert :: new_rule_alert where
  "sample_new_alert = \<lparr>na_id = ''e'', na_rule_id = ''r'', na_device_id = ''d'', na_severity = ''warning'',
     na_message = ''hot'', na_triggered_value = Some ''85''\<rparr>"

definition sample_setup :: "alert_op list" where
  "sample_setup = [Configure [((''t'', ''d''), (None, None))]
     [\<lparr>rr_tenant_id = ''t'', rr_id = ''r'', rr_enabled = True\<rparr>], Enqueued [''e'', ''f'']]"

definition sample_alert_db :: alert_db where
  "sample_alert_db = alert_run sample_env sample_setup no_alerts"

lemma sample_alert_db_reachable:
  "list_all (alert_op_ok sample_env) ops \<Longrightarrow> alert_reachable sample_env (alert_run sample_env ops sample_alert_db)"
  unfolding sample_alert_db_def
  by (intro alert_run_reachable alert_reachable.start) (simp_all add: sample_setup_def)

lemma sample_env_readable: "readable_time (ae_micros sample_env) now"
  by (simp add: sample_env_def readable_time_def row_datetime_def sample_micros_def)

theorem one_open_alert_witness:
  "let db = alert_run sample_env [CreateActive 1000000 ''t'' sample_new_alert,
       CreateActive 2000000 ''t'' (sample_new_alert\<lparr>na_id := ''f''\<rparr>)] sample_alert_db
   in length (ad_deliveries db) = 2 \<and> card {r \<in> set (ad_alerts db). open_for ''t'' ''r'' ''d'' r} \<le> 1
     \<and> select_active_alerts (ad_runtime db) ''t'' ''d'' (''t'', ''r'', ''d'') = Some ''e''"
proof -
  let ?db = "alert_run sample_env [CreateActive 1000000 ''t'' sample_new_alert,
       CreateActive 2000000 ''t'' (sample_new_alert\<lparr>na_id := ''f''\<rparr>)] sample_alert_db"
  have "alert_reachable sample_env ?db"
    by (rule sample_alert_db_reachable) (simp add: sample_env_readable)
  note one = one_open_alert [OF this]
  have alerts: "ad_alerts ?db = [new_alert_row 1000000 ''t'' sample_new_alert]" by code_simp
  have "length (ad_deliveries ?db) = 2" by code_simp
  then show ?thesis
    unfolding Let_def using one [of "''t''" "''r''" "''d''" "''e''"] alerts
    by (simp add: open_for_def new_alert_row_def sample_new_alert_def)
qed

theorem delivery_applied_once_witness:
  "\<exists>a db'. create_or_get_active sample_micros 1000000 ''t'' sample_new_alert sample_alert_db = Ok (a, db')
     \<and> ad_alerts (alert_run sample_env [Transit 2000000 ''t'' ''e'' Resolve, Prune 1 8640000] db') = []
     \<and> (\<exists>a'. create_or_get_active sample_micros 9000000 ''t'' sample_new_alert
           (alert_run sample_env [Transit 2000000 ''t'' ''e'' Resolve, Prune 1 8640000] db')
         = Ok (a', alert_run sample_env [Transit 2000000 ''t'' ''e'' Resolve, Prune 1 8640000] db'))"
proof -
  let ?ops = "[Transit 2000000 ''t'' ''e'' Resolve, Prune 1 8640000]"
  let ?create = "create_or_get_active sample_micros 1000000 ''t'' sample_new_alert sample_alert_db"
  have run: "case ?create of Inl _ \<Rightarrow> False | Inr p \<Rightarrow> ad_alerts (alert_run sample_env ?ops (snd p)) = []" by code_simp
  obtain p where p: "?create = Ok p" using run by (cases ?create) simp_all
  obtain a db' where created: "?create = Ok (a, db')" using p by (cases p) simp
  have pruned: "ad_alerts (alert_run sample_env ?ops db') = []" using run unfolding created sum.case snd_conv .
  have m: "ae_micros sample_env = sample_micros" by (simp add: sample_env_def)
  show ?thesis
    using delivery_applied_once [of sample_env sample_alert_db 1000000 "''t''" sample_new_alert a db' ?ops sample_new_alert 9000000]
      sample_alert_db_reachable [of "[]"] sample_env_readable created pruned
    by (simp add: m del: alert_run.simps(2))
qed

end
