(* ===== verification/Commands.thy ===== *)
theory Commands
  imports Contract_Document Alert_Protocol
begin

text \<open>
  Commands: \<^verbatim>\<open>crates/backend-core/src/commands.rs\<close>, \<^verbatim>\<open>application/commands.rs\<close> and the repository
  \<^verbatim>\<open>crates/backend-turso/src/commands.rs\<close>, with the lookup of the contract assigned to a device
  (\<^verbatim>\<open>backend-turso/src/devices.rs\<close>). The decoding of documents is a parameter. What the message bus answers is an argument of each call, so that
  two calls with the same message may be answered differently; an operation returns its answer, the
  table it leaves and the messages it handed to the bus.
\<close>

section \<open>Records\<close>

record command_record =
  cm_id :: string
  cm_device_id :: string
  cm_command :: string
  cm_params :: string
  cm_status :: string
  cm_response_payload :: "string option"
  cm_created_at :: time
  cm_updated_at :: time

record new_command_record =
  nc_id :: string
  nc_command :: string
  nc_params :: string

record command_query =
  cq_status :: "string option"
  cq_limit :: int

datatype command_response_status = Delivered | Succeeded | Failed

definition from_device_status :: "string \<Rightarrow> command_response_status" where
  "from_device_status status =
     (if status = ''succeeded'' then Succeeded else if status = ''failed'' then Failed else Delivered)"

fun response_status_str :: "command_response_status \<Rightarrow> string" where
  "response_status_str Delivered = ''delivered''"
| "response_status_str Succeeded = ''succeeded''"
| "response_status_str Failed = ''failed''"

record command_delivery =
  cd_device_id :: string
  cd_command :: string
  cd_params :: json
  cd_correlation_id :: string
  cd_address :: "string option"

section \<open>The tables\<close>

record command_row =
  ch_id :: string
  ch_tenant_id :: string
  ch_device_id :: string
  ch_command :: string
  ch_params :: string
  ch_status :: string
  ch_response_payload :: "string option"
  ch_created_at :: int
  ch_updated_at :: int

record device_contract_row =
  dc_id :: string
  dc_tenant_id :: string
  dc_device_id :: string
  dc_blueprint_revision_id :: string
  dc_document :: string
  dc_contract_hash :: string
  dc_created_at :: int

record contract_assignment_row =
  ca_tenant_id :: string
  ca_device_id :: string
  ca_desired_contract_id :: string
  ca_status :: string
  ca_acknowledged_at :: "int option"
  ca_error :: "string option"

record device_contract_record =
  dr_id :: string
  dr_device_id :: string
  dr_blueprint_revision_id :: string
  dr_document :: json
  dr_contract_hash :: string
  dr_assignment_status :: string
  dr_acknowledged_at :: "time option"
  dr_error :: "string option"
  dr_created_at :: time

record device_tables =
  dt_devices :: "(string \<times> string) list"
  dt_contracts :: "device_contract_row list"
  dt_assignments :: "contract_assignment_row list"

text \<open>The parameters: text and JSON, reading a contract document, and the protocols the bus serves.\<close>

record command_api =
  ca_micros :: micros_api
  ca_text :: text_api
  value_text :: "json \<Rightarrow> string"
  contract_from_value :: "json \<Rightarrow> (string, compiled_contract_document) result"
  bus_supports :: "transport_protocol \<Rightarrow> bool"

text \<open>What the network answered to the one message a call sends.\<close>

type_synonym network_answer = "(string, unit) result"

definition assigned_contract ::
  "command_api \<Rightarrow> device_tables \<Rightarrow> string \<Rightarrow> string \<Rightarrow> (persistence_error, device_contract_record option) result" where
  "assigned_contract A dt tenant device =
     (case find (\<lambda>(a, c). ca_tenant_id a = tenant \<and> ca_device_id a = device
             \<and> dc_tenant_id c = ca_tenant_id a \<and> dc_id c = ca_desired_contract_id a)
           (List.product (dt_assignments dt) (dt_contracts dt)) of
        None \<Rightarrow> Ok None
      | Some (a, c) \<Rightarrow>
          rbind (case from_text (ca_text A) (dc_document c) of Inl e \<Rightarrow> Err (CorruptData e) | Inr v \<Rightarrow> Ok v) (\<lambda>document.
          rbind (row_datetime_option (ca_micros A) (ca_acknowledged_at a)) (\<lambda>acknowledged_at.
          rbind (row_datetime (ca_micros A) (dc_created_at c)) (\<lambda>created_at.
          Ok (Some \<lparr>dr_id = dc_id c, dr_device_id = dc_device_id c,
            dr_blueprint_revision_id = dc_blueprint_revision_id c, dr_document = document,
            dr_contract_hash = dc_contract_hash c, dr_assignment_status = ca_status a,
            dr_acknowledged_at = acknowledged_at, dr_error = ca_error a, dr_created_at = created_at\<rparr>)))))"

section \<open>The repository\<close>

definition canonical_status :: "string \<Rightarrow> string" where
  "canonical_status status =
     (if status = ''pending'' then ''sent'' else if status = ''completed'' then ''succeeded''
      else if status = ''timeout'' then ''timed_out'' else status)"

definition decode_command :: "micros_api \<Rightarrow> command_row \<Rightarrow> (persistence_error, command_record) result" where
  "decode_command ch r =
     rbind (row_datetime ch (ch_created_at r)) (\<lambda>created_at.
     rbind (row_datetime ch (ch_updated_at r)) (\<lambda>updated_at.
     Ok \<lparr>cm_id = ch_id r, cm_device_id = ch_device_id r, cm_command = ch_command r, cm_params = ch_params r,
         cm_status = canonical_status (ch_status r), cm_response_payload = ch_response_payload r,
         cm_created_at = created_at, cm_updated_at = updated_at\<rparr>))"

definition find_command ::
  "micros_api \<Rightarrow> command_row list \<Rightarrow> string \<Rightarrow> string \<Rightarrow> (persistence_error, command_record option) result" where
  "find_command ch rows tenant command_id =
     (case find (\<lambda>r. ch_tenant_id r = tenant \<and> ch_id r = command_id) rows of
        None \<Rightarrow> Ok None
      | Some r \<Rightarrow> rbind (decode_command ch r) (\<lambda>c. Ok (Some c)))"

definition sent_row :: "int \<Rightarrow> string \<Rightarrow> string \<Rightarrow> new_command_record \<Rightarrow> command_row" where
  "sent_row now tenant device n =
     \<lparr>ch_id = nc_id n, ch_tenant_id = tenant, ch_device_id = device, ch_command = nc_command n,
      ch_params = nc_params n, ch_status = ''sent'', ch_response_payload = None,
      ch_created_at = now, ch_updated_at = now\<rparr>"

text \<open>The row stays inserted when it cannot be decoded: the statement has no transaction around it.\<close>

definition create_command ::
  "micros_api \<Rightarrow> int \<Rightarrow> (string \<times> string) list \<Rightarrow> string \<Rightarrow> string \<Rightarrow> new_command_record \<Rightarrow> command_row list
     \<Rightarrow> (persistence_error, command_record option) result \<times> command_row list" where
  "create_command ch now devices tenant device n rows =
     (if (tenant, device) \<notin> set devices then (Ok None, rows)
      else if nc_id n \<in> ch_id ` set rows then (Err unique_failure, rows)
      else (rbind (decode_command ch (sent_row now tenant device n)) (\<lambda>c. Ok (Some c)),
            rows @ [sent_row now tenant device n]))"

fun decode_commands :: "micros_api \<Rightarrow> command_row list \<Rightarrow> (persistence_error, command_record list) result" where
  "decode_commands ch [] = Ok []"
| "decode_commands ch (r # rows) =
     rbind (decode_command ch r) (\<lambda>c. rbind (decode_commands ch rows) (\<lambda>cs. Ok (c # cs)))"

definition list_commands ::
  "micros_api \<Rightarrow> (string \<times> string) list \<Rightarrow> string \<Rightarrow> string \<Rightarrow> command_query \<Rightarrow> command_row list
     \<Rightarrow> (persistence_error, command_record list option) result" where
  "list_commands ch devices tenant device q rows =
     (if (tenant, device) \<notin> set devices then Ok None
      else let found = filter (\<lambda>r. ch_tenant_id r = tenant \<and> ch_device_id r = device
                 \<and> is_none_or (\<lambda>s. canonical_status (ch_status r) = canonical_status s) (cq_status q)) rows;
               ordered = rev (sort_key (\<lambda>r. (ch_created_at r, ch_id r)) found)
           in rbind (decode_commands ch (limited (cq_limit q) ordered)) (\<lambda>cs. Ok (Some cs)))"

abbreviation awaiting :: "command_row \<Rightarrow> bool" where
  "awaiting r \<equiv> ch_status r \<in> {''pending'', ''sent'', ''delivered''}"

definition answers :: "string \<Rightarrow> string \<Rightarrow> string \<Rightarrow> command_row \<Rightarrow> bool" where
  "answers tenant device correlation_id r \<longleftrightarrow>
     ch_tenant_id r = tenant \<and> ch_device_id r = device \<and> ch_id r = correlation_id \<and> awaiting r"

definition apply_response ::
  "micros_api \<Rightarrow> string \<Rightarrow> string \<Rightarrow> string \<Rightarrow> command_response_status \<Rightarrow> string option \<Rightarrow> time \<Rightarrow> command_row list
     \<Rightarrow> string option \<times> command_row list" where
  "apply_response ch tenant device correlation_id status payload updated_at rows =
     (let p = answers tenant device correlation_id
      in (if list_ex p rows then Some (response_status_str status) else None,
          update_where p (\<lambda>r. r\<lparr>ch_status := response_status_str status, ch_response_payload := payload,
            ch_updated_at := timestamp_micros ch updated_at\<rparr>) rows))"

definition stale :: "int \<Rightarrow> command_row \<Rightarrow> bool" where
  "stale cutoff r \<longleftrightarrow> awaiting r \<and> ch_created_at r < cutoff"

definition timeout_stale :: "micros_api \<Rightarrow> time \<Rightarrow> time \<Rightarrow> command_row list \<Rightarrow> nat \<times> command_row list" where
  "timeout_stale ch cutoff now rows =
     (let p = stale (timestamp_micros ch cutoff)
      in (count_where p rows,
          update_where p (\<lambda>r. r\<lparr>ch_status := ''timed_out'', ch_updated_at := timestamp_micros ch now\<rparr>) rows))"

section \<open>The command worker\<close>

definition handle_response ::
  "micros_api \<Rightarrow> time \<Rightarrow> string \<Rightarrow> string \<Rightarrow> string \<Rightarrow> string \<Rightarrow> string option \<Rightarrow> command_row list
     \<Rightarrow> string option \<times> command_row list" where
  "handle_response ch now tenant device correlation_id device_status payload rows =
     (if correlation_id = [] then (None, rows)
      else apply_response ch tenant device correlation_id (from_device_status device_status) payload now rows)"

definition timeout_stale_request ::
  "micros_api \<Rightarrow> span_api \<Rightarrow> time \<Rightarrow> nat \<Rightarrow> command_row list \<Rightarrow> (application_error, nat \<times> command_row list) result" where
  "timeout_stale_request ch sp now timeout_secs rows =
     (case Option.bind (if int timeout_secs \<le> i64_max then try_seconds sp (int timeout_secs) else None)
             (checked_sub_signed sp now) of
        None \<Rightarrow> Err (InvalidInput ''Command timeout is outside the supported range'')
      | Some cutoff \<Rightarrow> Ok (timeout_stale ch cutoff now rows))"

section \<open>Sending\<close>

definition device_missing :: "string \<Rightarrow> application_error" where
  "device_missing device = AppNotFound (''Device '' @ quoted device @ '' not found'')"

definition command_list_request ::
  "micros_api \<Rightarrow> tenant_context \<Rightarrow> (string \<times> string) list \<Rightarrow> string \<Rightarrow> command_query \<Rightarrow> command_row list
     \<Rightarrow> (application_error, command_record list) result" where
  "command_list_request ch ctx devices device q rows =
     rbind (require_permission ctx ReadCommands) (\<lambda>_.
     rbind (persistence (list_commands ch devices (tc_tenant_id ctx) device q rows)) (\<lambda>found. case found of
        None \<Rightarrow> Err (device_missing device)
      | Some cs \<Rightarrow> Ok cs))"

fun show_contract_error :: "contract_error \<Rightarrow> string" where
  "show_contract_error (InvalidBlueprint n _) = ''blueprint is invalid ('' @ show_nat n @ '' issue(s))''"
| "show_contract_error (InvalidInstance n _) = ''instance does not satisfy schema ('' @ show_nat n @ '' issue(s))''"
| "show_contract_error (Serialization e) = ''failed to serialize canonical contract: '' @ e"
| "show_contract_error (MissingTransportBinding t) = ''transport binding '' @ quoted t @ '' was not provided''"
| "show_contract_error (InvalidContext e) = ''invalid compile context: '' @ e"

fun debug_protocol :: "transport_protocol \<Rightarrow> string" where
  "debug_protocol Zenoh = ''Zenoh''"
| "debug_protocol Mqtt = ''Mqtt''"
| "debug_protocol Http = ''Http''"

definition validate_contract_command ::
  "command_api \<Rightarrow> compiled_contract_document \<Rightarrow> string \<Rightarrow> json \<Rightarrow> (application_error, string) result" where
  "validate_contract_command A doc command params =
     (case bt_get (doc_commands doc) command of
        None \<Rightarrow> Err (InvalidOperation (''Command '' @ quoted command @ '' is not declared by the device contract''))
      | Some d \<Rightarrow>
     (case validate_instance (ccm_input_schema d) params of
        Inl e \<Rightarrow> Err (InvalidOperation (''Command '' @ quoted command @ '' input failed contract validation: ''
          @ show_contract_error e))
      | Inr _ \<Rightarrow>
     (case bt_get (doc_routes doc) (ccm_request_route d) of
        None \<Rightarrow> Err (AppInternal ''command request route is missing'')
      | Some route \<Rightarrow>
     (case bt_get (doc_transports doc) (cro_transport route) of
        None \<Rightarrow> Err (AppInternal ''command transport is missing'')
      | Some transport \<Rightarrow>
          if bus_supports A (ctr_protocol transport) then Ok (cro_address route)
          else Err (InvalidOperation (''Command '' @ quoted command @ '' requires an unavailable ''
            @ debug_protocol (ctr_protocol transport) @ '' transport adapter''))))))"

definition validate_command ::
  "command_api \<Rightarrow> device_tables \<Rightarrow> string \<Rightarrow> string \<Rightarrow> string \<Rightarrow> json \<Rightarrow> (application_error, string option) result" where
  "validate_command A dt tenant device command params =
     (if \<not> is_object params then Err (InvalidInput ''Command params must be a JSON object'')
      else rbind (persistence (assigned_contract A dt tenant device)) (\<lambda>assigned. case assigned of
         None \<Rightarrow> Ok None
       | Some assigned \<Rightarrow>
           (case contract_from_value A (dr_document assigned) of
              Inl e \<Rightarrow> Err (AppInternal (''stored device contract is invalid: '' @ e))
            | Inr doc \<Rightarrow> rbind (validate_contract_command A doc command params) (\<lambda>a. Ok (Some a)))))"

definition publish_command ::
  "network_answer \<Rightarrow> command_record \<Rightarrow> (application_error, command_record) result" where
  "publish_command net c = (case net of Inl e \<Rightarrow> Err (DeviceCommunication e) | Inr _ \<Rightarrow> Ok c)"

definition send_command ::
  "command_api \<Rightarrow> network_answer \<Rightarrow> int \<Rightarrow> string \<Rightarrow> device_tables \<Rightarrow> tenant_context \<Rightarrow> string \<Rightarrow> string \<Rightarrow> json \<Rightarrow> command_row list
     \<Rightarrow> (application_error, command_record) result \<times> command_row list \<times> command_delivery list" where
  "send_command A net now correlation_id dt ctx device command params rows =
     (if trim_is_empty command then (Err (InvalidInput ''Command must not be empty''), rows, [])
      else case rbind (require_permission ctx SendCommands) (\<lambda>_.
                  validate_command A dt (tc_tenant_id ctx) device command params) of
        Inl e \<Rightarrow> (Err e, rows, [])
      | Inr address \<Rightarrow>
          (case create_command (ca_micros A) now (dt_devices dt) (tc_tenant_id ctx) device
                  \<lparr>nc_id = correlation_id, nc_command = command, nc_params = value_text A params\<rparr> rows of
             (Inl e, rows') \<Rightarrow> (Err (Persistence e), rows', [])
           | (Inr None, rows') \<Rightarrow> (Err (device_missing device), rows', [])
           | (Inr (Some c), rows') \<Rightarrow>
               let d = \<lparr>cd_device_id = device, cd_command = command, cd_params = params,
                  cd_correlation_id = correlation_id, cd_address = address\<rparr>
               in (publish_command net c, rows', [d])))"

section \<open>Delivering the commands of rules\<close>

definition object_params :: "json \<Rightarrow> jmap" where
  "object_params params = (case as_object params of Some m \<Rightarrow> m | None \<Rightarrow> [])"

definition stored_params :: "command_api \<Rightarrow> json \<Rightarrow> json" where
  "stored_params A params =
     JObj (map (\<lambda>(key, v). (key, JStr (case as_str v of Some s \<Rightarrow> s | None \<Rightarrow> value_text A v))) (object_params params))"

definition validate_existing ::
  "command_api \<Rightarrow> command_record \<Rightarrow> string \<Rightarrow> string \<Rightarrow> json \<Rightarrow> (application_error, unit) result" where
  "validate_existing A c device command params =
     (if cm_device_id c \<noteq> device \<or> cm_command c \<noteq> command
         \<or> (case from_text (ca_text A) (cm_params c) of Inl _ \<Rightarrow> True | Inr v \<Rightarrow> \<not> json_eq v params)
      then Err (Conflict ''Command delivery ID already belongs to a different command'') else Ok ())"

text \<open>
  Between looking the delivery up and creating its row another worker may run: \<open>seen\<close> is the table
  of the lookup, \<open>rows\<close> the one at the creation.
\<close>

definition obtain_command ::
  "command_api \<Rightarrow> int \<Rightarrow> device_tables \<Rightarrow> string \<Rightarrow> string \<Rightarrow> string \<Rightarrow> string \<Rightarrow> json \<Rightarrow> command_record option
     \<Rightarrow> command_row list \<Rightarrow> (application_error, command_record) result \<times> command_row list" where
  "obtain_command A now dt tenant device delivery command stored existing rows =
     (case existing of
        Some c \<Rightarrow> (Ok c, rows)
      | None \<Rightarrow>
          (case create_command (ca_micros A) now (dt_devices dt) tenant device
                  \<lparr>nc_id = delivery, nc_command = command, nc_params = value_text A stored\<rparr> rows of
             (Inr (Some c), rows') \<Rightarrow> (Ok c, rows')
           | (Inr None, rows') \<Rightarrow> (Err (device_missing device), rows')
           | (Inl e, rows') \<Rightarrow>
               (rbind (persistence (find_command (ca_micros A) rows' tenant delivery)) (\<lambda>found. case found of
                   None \<Rightarrow> Err (Persistence e)
                 | Some c \<Rightarrow> rbind (validate_existing A c device command stored) (\<lambda>_. Ok c)), rows')))"

definition existing_command ::
  "command_api \<Rightarrow> string \<Rightarrow> string \<Rightarrow> string \<Rightarrow> string \<Rightarrow> json \<Rightarrow> command_row list
     \<Rightarrow> (application_error, command_record option) result" where
  "existing_command A tenant device delivery command stored seen =
     rbind (persistence (find_command (ca_micros A) seen tenant delivery)) (\<lambda>found. case found of
        None \<Rightarrow> Ok None
      | Some c \<Rightarrow> rbind (validate_existing A c device command stored) (\<lambda>_. Ok (Some c)))"

definition deliver_action ::
  "command_api \<Rightarrow> network_answer \<Rightarrow> int \<Rightarrow> device_tables \<Rightarrow> string \<Rightarrow> string \<Rightarrow> string \<Rightarrow> string \<Rightarrow> json
     \<Rightarrow> command_row list \<Rightarrow> command_row list
     \<Rightarrow> (application_error, command_record) result \<times> command_row list \<times> command_delivery list" where
  "deliver_action A net now dt tenant device delivery command params seen rows =
     (if delivery = [] \<or> trim_is_empty command then
        (Err (InvalidInput ''Command delivery ID and command must not be empty''), rows, [])
      else
        let params = JObj (object_params params); stored = stored_params A params
        in case existing_command A tenant device delivery command stored seen of
             Inl e \<Rightarrow> (Err e, rows, [])
           | Inr existing \<Rightarrow>
               if is_some_and (\<lambda>c. cm_status c \<noteq> ''sent'') existing then (Ok (the existing), rows, [])
               else case validate_command A dt tenant device command params of
                 Inl e \<Rightarrow> (Err e, rows, [])
               | Inr address \<Rightarrow>
                   (case obtain_command A now dt tenant device delivery command stored existing rows of
                      (Inl e, rows') \<Rightarrow> (Err e, rows', [])
                    | (Inr c, rows') \<Rightarrow>
                        if cm_status c = ''sent'' then
                          let d = \<lparr>cd_device_id = device, cd_command = command, cd_params = params,
                            cd_correlation_id = delivery, cd_address = address\<rparr>
                          in (publish_command net c, rows', [d])
                        else (Ok c, rows', [])))"

end
