(* ===== verification/Command_Protocol.thy ===== *)
theory Command_Protocol
  imports Commands
begin

text \<open>
  Histories of commands: requests of users, deliveries of rules, answers of devices and the
  timeout run in any order, and the network answers each message as it likes. The outcome of a command is final, and what reaches the bus follows
  the contract assigned to the device.
\<close>

section \<open>Histories\<close>

datatype command_op =
    Send network_answer int string tenant_context string string json
  | Deliver network_answer int string string string string json "command_row list"
  | Response time string string string string "string option"
  | Timeout time nat

fun command_exec ::
  "command_api \<Rightarrow> span_api \<Rightarrow> device_tables \<Rightarrow> command_op \<Rightarrow> command_row list \<Rightarrow> command_row list \<times> command_delivery list" where
  "command_exec A sp dt (Send net now correlation_id ctx device command params) rows =
     snd (send_command A net now correlation_id dt ctx device command params rows)"
| "command_exec A sp dt (Deliver net now tenant device delivery command params seen) rows =
     snd (deliver_action A net now dt tenant device delivery command params seen rows)"
| "command_exec A sp dt (Response now tenant device correlation_id status payload) rows =
     (snd (handle_response (ca_micros A) now tenant device correlation_id status payload rows), [])"
| "command_exec A sp dt (Timeout now secs) rows =
     (case timeout_stale_request (ca_micros A) sp now secs rows of Inl _ \<Rightarrow> (rows, []) | Inr (_, rows') \<Rightarrow> (rows', []))"

primrec command_run ::
  "command_api \<Rightarrow> span_api \<Rightarrow> device_tables \<Rightarrow> command_op list \<Rightarrow> command_row list \<Rightarrow> command_row list" where
  "command_run A sp dt [] rows = rows"
| "command_run A sp dt (op # ops) rows = command_run A sp dt ops (fst (command_exec A sp dt op rows))"

section \<open>What one step does to the table\<close>

definition settled :: "command_row \<Rightarrow> bool" where
  "settled r \<longleftrightarrow> \<not> awaiting r"

definition revises :: "command_row \<Rightarrow> command_row \<Rightarrow> bool" where
  "revises r s \<longleftrightarrow> ch_id s = ch_id r \<and> ch_tenant_id s = ch_tenant_id r \<and> ch_device_id s = ch_device_id r
     \<and> ch_command s = ch_command r \<and> ch_params s = ch_params r \<and> ch_created_at s = ch_created_at r
     \<and> (s = r \<or> awaiting r)"

inductive command_evolves :: "command_row list \<Rightarrow> command_row list \<Rightarrow> bool" where
  revise: "list_all2 revises rows rows' \<Longrightarrow> command_evolves rows rows'"
| create: "ch_id r \<notin> ch_id ` set rows \<Longrightarrow> ch_status r = ''sent'' \<Longrightarrow> command_evolves rows (rows @ [r])"

lemma revises_refl [simp]: "revises r r"
  by (simp add: revises_def)

lemma command_evolves_refl [simp]: "command_evolves rows rows"
  by (rule revise) (simp add: list.rel_refl)

lemma update_where_evolves:
  assumes "\<And>r. P r \<Longrightarrow> awaiting r"
  shows "command_evolves rows (update_where P (\<lambda>r. r\<lparr>ch_status := x, ch_response_payload := p r, ch_updated_at := t\<rparr>) rows)"
proof (rule revise)
  show "list_all2 revises rows (update_where P (\<lambda>r. r\<lparr>ch_status := x, ch_response_payload := p r, ch_updated_at := t\<rparr>) rows)"
    unfolding update_where_def list_all2_map2
    using assms by (auto simp: revises_def intro!: list.rel_refl_strong)
qed

lemma handle_response_evolves:
  "command_evolves rows (snd (handle_response ch now tenant device correlation_id status payload rows))"
  using update_where_evolves [of "answers tenant device correlation_id" rows _ "\<lambda>_. payload"]
  by (simp add: handle_response_def apply_response_def Let_def answers_def)

lemma timeout_stale_evolves: "command_evolves rows (snd (timeout_stale ch cutoff now rows))"
proof -
  have "(\<lambda>r. r\<lparr>ch_status := ''timed_out'', ch_updated_at := timestamp_micros ch now\<rparr>)
      = (\<lambda>r. r\<lparr>ch_status := ''timed_out'', ch_response_payload := ch_response_payload r,
          ch_updated_at := timestamp_micros ch now\<rparr>)"
    by (rule ext) simp
  then show ?thesis
    using update_where_evolves [of "stale (timestamp_micros ch cutoff)" rows _ ch_response_payload]
    by (simp add: timeout_stale_def Let_def stale_def)
qed

lemma create_command_evolves: "command_evolves rows (snd (create_command ch now devices tenant device n rows))"
  by (auto simp: create_command_def sent_row_def intro!: create)

lemma create_command_snd:
  "create_command ch now devices tenant device n rows = (res, rows') \<Longrightarrow> command_evolves rows rows'"
  using create_command_evolves [of rows ch now devices tenant device n] by simp

lemma send_command_evolves:
  "command_evolves rows (fst (snd (send_command A net now correlation_id dt ctx device command params rows)))"
  by (auto simp: send_command_def Let_def split: sum.split prod.split option.split dest: create_command_snd)

lemma obtain_command_evolves:
  "obtain_command A now dt tenant device delivery command stored existing rows = (res, rows') \<Longrightarrow> command_evolves rows rows'"
  by (auto simp: obtain_command_def split: option.splits prod.splits sum.splits dest: create_command_snd)

lemma deliver_action_evolves:
  "command_evolves rows (fst (snd (deliver_action A net now dt tenant device delivery command params seen rows)))"
  by (auto simp: deliver_action_def Let_def split: sum.split prod.split dest: obtain_command_evolves)

lemma command_exec_evolves: "command_evolves rows (fst (command_exec A sp dt op rows))"
proof (cases op)
  case (Timeout now secs)
  then show ?thesis
    by (auto simp: timeout_stale_request_def split: sum.split option.split)
      (metis snd_conv timeout_stale_evolves)
qed (simp_all add: send_command_evolves deliver_action_evolves handle_response_evolves)

section \<open>Outcomes are final\<close>

lemma revises_ids: "list_all2 revises rows rows' \<Longrightarrow> map ch_id rows' = map ch_id rows"
  by (induction rule: list_all2_induct) (auto simp: revises_def)

lemma command_evolves_keeps:
  assumes "command_evolves rows rows'"
  shows "distinct (map ch_id rows) \<Longrightarrow> distinct (map ch_id rows')"
    and "r \<in> set rows \<Longrightarrow> settled r \<Longrightarrow> r \<in> set rows'"
  using assms
proof (induction rule: command_evolves.induct)
  case (revise rows rows')
  { case 1 with revises_ids [OF revise] show ?case by simp }
  { case 2
    with revise obtain s where "s \<in> set rows'" "revises r s"
      by (metis list_all2_iff in_set_conv_nth in_set_zip list_all2_conv_all_nth nth_mem)
    with 2 show ?case by (auto simp: revises_def settled_def) }
next
  case (create r rows)
  { case 1 with create show ?case by simp }
  { case 2 then show ?case by simp }
qed

lemma command_run_keeps:
  "distinct (map ch_id rows) \<Longrightarrow> distinct (map ch_id (command_run A sp dt ops rows))"
  "r \<in> set rows \<Longrightarrow> settled r \<Longrightarrow> r \<in> set (command_run A sp dt ops rows)"
  by (induction ops arbitrary: rows) (auto intro: command_evolves_keeps [OF command_exec_evolves])

lemma distinct_ids_unique:
  "distinct (map ch_id rows) \<Longrightarrow> r \<in> set rows \<Longrightarrow> s \<in> set rows \<Longrightarrow> ch_id s = ch_id r \<Longrightarrow> s = r"
  by (auto simp: distinct_map inj_on_def)

text \<open>
  C22. The outcome of a command is final: in any history that starts from the empty table, once a
  command has succeeded, failed or timed out, its row stays as it is for ever and remains the
  only row with its identifier; late answers, timeouts and redeliveries do not touch it.
\<close>

theorem command_outcome_is_final:
  assumes "r \<in> set (command_run A sp dt before [])" and "settled r"
  shows "r \<in> set (command_run A sp dt after (command_run A sp dt before []))
    \<and> {s \<in> set (command_run A sp dt after (command_run A sp dt before [])). ch_id s = ch_id r} = {r}"
proof -
  have d: "distinct (map ch_id (command_run A sp dt after (command_run A sp dt before [])))"
    by (intro command_run_keeps) simp
  have r: "r \<in> set (command_run A sp dt after (command_run A sp dt before []))"
    using assms by (rule command_run_keeps)
  with distinct_ids_unique [OF d r] show ?thesis by auto
qed

section \<open>What reaches the bus\<close>

lemma send_command_published:
  assumes "d \<in> set (snd (snd (send_command A net now correlation_id dt ctx device command params rows)))"
  shows "validate_command A dt (tc_tenant_id ctx) (cd_device_id d) (cd_command d) (cd_params d) = Ok (cd_address d)
    \<and> require_permission ctx SendCommands = Ok ()"
  using assms
  by (auto simp: send_command_def Let_def rbind_Inr_iff split: if_splits sum.splits prod.splits option.splits)

lemma deliver_action_published:
  assumes "d \<in> set (snd (snd (deliver_action A net now dt tenant device delivery command params seen rows)))"
  shows "validate_command A dt tenant (cd_device_id d) (cd_command d) (cd_params d) = Ok (cd_address d)"
  using assms
  by (auto simp: deliver_action_def Let_def split: if_splits sum.splits prod.splits)

fun op_tenant :: "command_op \<Rightarrow> string" where
  "op_tenant (Send _ _ _ ctx _ _ _) = tc_tenant_id ctx"
| "op_tenant (Deliver _ _ tenant _ _ _ _ _) = tenant"
| "op_tenant (Response _ tenant _ _ _ _) = tenant"
| "op_tenant (Timeout _ _) = []"

lemma command_exec_published:
  assumes "d \<in> set (snd (command_exec A sp dt op rows))"
  shows "validate_command A dt (op_tenant op) (cd_device_id d) (cd_command d) (cd_params d) = Ok (cd_address d)"
  using assms
  by (cases op) (auto dest: send_command_published deliver_action_published split: sum.splits)

lemma validate_contract_command_Ok:
  assumes "issued bp S cx c" and "validate_contract_command A (ct_document c) command params = Ok address"
  shows "\<exists>dn route t. bt_get (doc_commands (ct_document c)) command = Some dn
    \<and> validate_instance (ccm_input_schema dn) params = Ok ()
    \<and> bt_get (doc_routes (ct_document c)) (ccm_request_route dn) = Some route \<and> cro_direction route = CloudToDevice
    \<and> bt_get (doc_transports (ct_document c)) (cro_transport route) = Some t \<and> bus_supports A (ctr_protocol t)
    \<and> address = cro_address route
    \<and> (ctr_protocol t = Zenoh \<longrightarrow> contract_device_id address = Some (cx_device_id cx))"
proof -
  obtain dn route t where d: "bt_get (doc_commands (ct_document c)) command = Some dn"
      "validate_instance (ccm_input_schema dn) params = Ok ()"
      "bt_get (doc_routes (ct_document c)) (ccm_request_route dn) = Some route"
      "bt_get (doc_transports (ct_document c)) (cro_transport route) = Some t"
      "bus_supports A (ctr_protocol t)" "address = cro_address route"
    using assms(2) by (auto simp: validate_contract_command_def split: option.splits sum.splits if_splits)
  moreover have "cro_direction route = CloudToDevice"
    using issued_command_closed(1) [OF assms(1) d(1)] d(3) by (simp add: routed_def is_some_and_iff)
  moreover have "ctr_protocol t = Zenoh \<longrightarrow> contract_device_id address = Some (cx_device_id cx)"
    using assms(1) d(6) route_confined [OF _ _ d(3,4)] by (auto simp: issued_def)
  ultimately show ?thesis by blast
qed

lemma validate_contract_command_internal:
  assumes "issued bp S cx c"
  shows "validate_contract_command A (ct_document c) command params \<noteq> Err (AppInternal m)"
proof (cases "bt_get (doc_commands (ct_document c)) command")
  case (Some dn)
  then obtain route where r: "bt_get (doc_routes (ct_document c)) (ccm_request_route dn) = Some route"
    using issued_command_closed(1) [OF assms] by (auto simp: routed_def is_some_and_iff)
  then obtain t where "bt_get (doc_transports (ct_document c)) (cro_transport route) = Some t"
    using issued_route_closed(1) [OF assms r] by (auto simp: bt_contains_key_def)
  with Some r show ?thesis by (simp add: validate_contract_command_def split: sum.split)
qed (simp add: validate_contract_command_def)

lemma validate_command_assigned:
  assumes "assigned_contract A dt tenant device = Ok (Some dr)"
    and "contract_from_value A (dr_document dr) = Ok doc"
  shows "validate_command A dt tenant device command params =
    (if is_object params then rbind (validate_contract_command A doc command params) (\<lambda>a. Ok (Some a))
     else Err (InvalidInput ''Command params must be a JSON object''))"
  using assms by (simp add: validate_command_def persistence_def)

text \<open>
  C21. Whatever reaches the bus for a device with an issued contract follows that contract: the
  command is declared, its parameters satisfy the declared schema, the address is the one of the
  declared request route towards the device, over a transport the bus serves, and over Zenoh it
  lies under the topics of the contract's own device. The internal errors of the validation, a
  missing route or transport, never occur.
\<close>

theorem commands_follow_contract:
  assumes "issued bp S cx c"
    and "assigned_contract A dt (op_tenant op) (cd_device_id d) = Ok (Some dr)"
    and "contract_from_value A (dr_document dr) = Ok (ct_document c)"
    and "d \<in> set (snd (command_exec A sp dt op rows))"
  shows "(\<exists>dn route t. bt_get (doc_commands (ct_document c)) (cd_command d) = Some dn
    \<and> validate_instance (ccm_input_schema dn) (cd_params d) = Ok ()
    \<and> bt_get (doc_routes (ct_document c)) (ccm_request_route dn) = Some route \<and> cro_direction route = CloudToDevice
    \<and> bt_get (doc_transports (ct_document c)) (cro_transport route) = Some t \<and> bus_supports A (ctr_protocol t)
    \<and> cd_address d = Some (cro_address route)
    \<and> (ctr_protocol t = Zenoh \<longrightarrow> contract_device_id (cro_address route) = Some (cx_device_id cx)))
    \<and> validate_command A dt (op_tenant op) (cd_device_id d) command params \<noteq> Err (AppInternal m)"
proof
  obtain address where a: "validate_contract_command A (ct_document c) (cd_command d) (cd_params d) = Ok address"
      "cd_address d = Some address"
    using command_exec_published [OF assms(4)] unfolding validate_command_assigned [OF assms(2,3)]
    by (auto simp: rbind_Inr_iff split: if_splits)
  from validate_contract_command_Ok [OF assms(1) a(1)] a(2)
  show "\<exists>dn route t. bt_get (doc_commands (ct_document c)) (cd_command d) = Some dn
    \<and> validate_instance (ccm_input_schema dn) (cd_params d) = Ok ()
    \<and> bt_get (doc_routes (ct_document c)) (ccm_request_route dn) = Some route \<and> cro_direction route = CloudToDevice
    \<and> bt_get (doc_transports (ct_document c)) (cro_transport route) = Some t \<and> bus_supports A (ctr_protocol t)
    \<and> cd_address d = Some (cro_address route)
    \<and> (ctr_protocol t = Zenoh \<longrightarrow> contract_device_id (cro_address route) = Some (cx_device_id cx))"
    by auto
  show "validate_command A dt (op_tenant op) (cd_device_id d) command params \<noteq> Err (AppInternal m)"
    unfolding validate_command_assigned [OF assms(2,3)]
    using validate_contract_command_internal [OF assms(1)]
    by (cases "validate_contract_command A (ct_document c) command params") (auto simp: rbind_def)
qed

section \<open>A sample history\<close>

definition sample_command_api :: command_api where
  "sample_command_api = \<lparr>ca_micros = sample_micros, ca_text = sample_text, value_text = (\<lambda>_. ''{}''),
     contract_from_value = (\<lambda>_. Ok (ct_document sample_contract)), bus_supports = (\<lambda>p. p = Zenoh)\<rparr>"

definition sample_device_tables :: device_tables where
  "sample_device_tables = \<lparr>dt_devices = [(''t'', ''dev-7'')],
     dt_contracts = [\<lparr>dc_id = ''c'', dc_tenant_id = ''t'', dc_device_id = ''dev-7'', dc_blueprint_revision_id = ''b'',
       dc_document = ''{}'', dc_contract_hash = [], dc_created_at = 0\<rparr>],
     dt_assignments = [\<lparr>ca_tenant_id = ''t'', ca_device_id = ''dev-7'', ca_desired_contract_id = ''c'',
       ca_status = ''pending'', ca_acknowledged_at = None, ca_error = None\<rparr>]\<rparr>"

definition sample_span :: span_api where
  "sample_span = ae_span sample_env"

definition sample_deliver :: command_op where
  "sample_deliver = Deliver (Ok ()) 5 ''t'' ''dev-7'' ''e'' ''reboot'' (JObj []) []"

definition sample_delivery :: command_delivery where
  "sample_delivery = \<lparr>cd_device_id = ''dev-7'', cd_command = ''reboot'', cd_params = JObj [], cd_correlation_id = ''e'',
     cd_address = Some ''extrittio/devices/dev-7/commands''\<rparr>"

definition sample_answered :: "command_op list" where
  "sample_answered = [sample_deliver, Response 6 ''t'' ''dev-7'' ''e'' ''failed'' (Some ''busy'')]"

definition sample_failed_row :: command_row where
  "sample_failed_row = \<lparr>ch_id = ''e'', ch_tenant_id = ''t'', ch_device_id = ''dev-7'', ch_command = ''reboot'',
     ch_params = ''{}'', ch_status = ''failed'', ch_response_payload = Some ''busy'', ch_created_at = 5,
     ch_updated_at = 6000000\<rparr>"

theorem command_outcome_is_final_witness:
  "command_run sample_command_api sample_span sample_device_tables
     [Response 7 ''t'' ''dev-7'' ''e'' ''succeeded'' None, Timeout 100 1, sample_deliver]
     (command_run sample_command_api sample_span sample_device_tables sample_answered []) = [sample_failed_row]
   \<and> sample_failed_row \<in> set (command_run sample_command_api sample_span sample_device_tables
     [Response 7 ''t'' ''dev-7'' ''e'' ''succeeded'' None, Timeout 100 1, sample_deliver]
     (command_run sample_command_api sample_span sample_device_tables sample_answered []))"
proof
  have r: "sample_failed_row \<in> set (command_run sample_command_api sample_span sample_device_tables sample_answered [])"
    and s: "settled sample_failed_row"
    by code_simp+
  show "command_run sample_command_api sample_span sample_device_tables
     [Response 7 ''t'' ''dev-7'' ''e'' ''succeeded'' None, Timeout 100 1, sample_deliver]
     (command_run sample_command_api sample_span sample_device_tables sample_answered []) = [sample_failed_row]"
    by code_simp
  show "sample_failed_row \<in> set (command_run sample_command_api sample_span sample_device_tables
     [Response 7 ''t'' ''dev-7'' ''e'' ''succeeded'' None, Timeout 100 1, sample_deliver]
     (command_run sample_command_api sample_span sample_device_tables sample_answered []))"
    using command_outcome_is_final [OF r s] by blast
qed

theorem commands_follow_contract_witness:
  "sample_delivery \<in> set (snd (command_exec sample_command_api sample_span sample_device_tables sample_deliver []))
   \<and> (\<exists>dn. bt_get (doc_commands (ct_document sample_contract)) ''reboot'' = Some dn
        \<and> validate_instance (ccm_input_schema dn) (JObj []) = Ok ())
   \<and> contract_device_id ''extrittio/devices/dev-7/commands'' = Some ''dev-7''"
proof -
  have d: "sample_delivery \<in> set (snd (command_exec sample_command_api sample_span sample_device_tables sample_deliver []))"
    and e: "contract_device_id ''extrittio/devices/dev-7/commands'' = Some ''dev-7''"
    by code_simp+
  obtain dr where a: "assigned_contract sample_command_api sample_device_tables (op_tenant sample_deliver)
      (cd_device_id sample_delivery) = Ok (Some dr)"
    by (simp add: assigned_contract_def sample_command_api_def sample_device_tables_def sample_deliver_def
        sample_delivery_def sample_text_def sample_micros_def row_datetime_def row_datetime_option_def)
  have v: "contract_from_value sample_command_api (dr_document dr) = Ok (ct_document sample_contract)"
    by (simp add: sample_command_api_def)
  have "cd_command sample_delivery = ''reboot''" "cd_params sample_delivery = JObj []"
    by (simp_all add: sample_delivery_def)
  with commands_follow_contract [OF sample_issued a v d, THEN conjunct1] d e show ?thesis by auto
qed

end
