(* ===== verification/Rule_Delivery.thy ===== *)
theory Rule_Delivery
  imports Command_Protocol
begin

text \<open>
  The delivery of rule actions, \<^verbatim>\<open>crates/backend-core/src/application/rule_delivery.rs\<close>: the worker
  decodes an outbox event, executes its action through alerts, commands or a webhook, and settles
  the event. The tables of the components it drives are one state here; messages to the bus and
  to webhooks are collected as effects, and what the network answers to the one message of a call
  is an argument of that call.
\<close>

section \<open>State and effects\<close>

record system_db =
  sy_outbox :: "outbox_row list"
  sy_alerts :: alert_db
  sy_commands :: "command_row list"
  sy_devices :: device_tables

text \<open>
  Devices and outbox rows are kept once: the alert tables refer to the outbox by its identifiers,
  commands to the devices the rule runtime knows.
\<close>

definition alert_tables :: "system_db \<Rightarrow> alert_db" where
  "alert_tables s = (sy_alerts s)\<lparr>ad_outbox := map ob_id (sy_outbox s)\<rparr>"

definition device_view :: "system_db \<Rightarrow> device_tables" where
  "device_view s = (sy_devices s)\<lparr>dt_devices := map fst (db_device_targets (ad_runtime (sy_alerts s)))\<rparr>"

datatype effect =
    Published command_delivery
  | Webhook string "(string \<times> string) list" json string

record delivery_api =
  dv_serde :: serde_api
  dv_command :: command_api

abbreviation dv_micros :: "delivery_api \<Rightarrow> micros_api" where
  "dv_micros D \<equiv> ca_micros (dv_command D)"

section \<open>Execution\<close>

definition unit_result :: "(application_error, 'a) result \<Rightarrow> (string, unit) result" where
  "unit_result r = (case r of Inl e \<Rightarrow> Err (show_application_error e) | Inr _ \<Rightarrow> Ok ())"

definition with_tenant ::
  "string \<Rightarrow> system_db \<Rightarrow> (string \<Rightarrow> (string, unit) result \<times> system_db \<times> effect list)
     \<Rightarrow> (string, unit) result \<times> system_db \<times> effect list" where
  "with_tenant tenant_id s k = (case tenant_id_new tenant_id of
      Inl e \<Rightarrow> (Err (show_tenant_id_error e), s, [])
    | Inr tenant \<Rightarrow> k tenant)"

fun execute ::
  "delivery_api \<Rightarrow> network_answer \<Rightarrow> int \<Rightarrow> command_row list \<Rightarrow> pending_action \<Rightarrow> string \<Rightarrow> system_db
     \<Rightarrow> (string, unit) result \<times> system_db \<times> effect list" where
  "execute D net now seen (CreateAlert tenant_id rule_id device_id severity message triggered) delivery s =
     with_tenant tenant_id s (\<lambda>tenant.
       case create_for_action (dv_micros D) now tenant delivery
              \<lparr>in_rule_id = rule_id, in_device_id = device_id, in_severity = severity, in_message = message,
               in_triggered_value = triggered\<rparr> (alert_tables s) of
         Inl e \<Rightarrow> (Err (show_application_error e), s, [])
       | Inr (_, db) \<Rightarrow> (Ok (), s\<lparr>sy_alerts := db\<rparr>, []))"
| "execute D net now seen (UpdateAlertValue tenant_id alert_id v) delivery s =
     with_tenant tenant_id s (\<lambda>tenant.
       let (r, db) = update_value_for_action tenant alert_id v (alert_tables s)
       in (unit_result r, s\<lparr>sy_alerts := db\<rparr>, []))"
| "execute D net now seen (ResolveAlert tenant_id alert_id) delivery s =
     with_tenant tenant_id s (\<lambda>tenant.
       let (r, db) = resolve_for_action (dv_micros D) now tenant alert_id (alert_tables s)
       in (unit_result r, s\<lparr>sy_alerts := db\<rparr>, []))"
| "execute D net now seen (SendWebhook tenant_id url headers payload) delivery s =
     (net, s, [Webhook url headers payload delivery])"
| "execute D net now seen (SendCommand tenant_id device_id command params) delivery s =
     with_tenant tenant_id s (\<lambda>tenant.
       let (r, rows, published) = deliver_action (dv_command D) net now (device_view s) tenant device_id delivery
             command params seen (sy_commands s)
       in (unit_result r, s\<lparr>sy_commands := rows\<rparr>, map Published published))"
| "execute D net now seen (UpdateCooldown _ _ _ _) delivery s =
     (Err ''runtime state must be committed during ingestion, not delivered'', s, [])"
| "execute D net now seen (UpdateZoneEntry _ _ _ _) delivery s =
     (Err ''runtime state must be committed during ingestion, not delivered'', s, [])"

definition settle_delivery ::
  "int \<Rightarrow> outbox_event_record \<Rightarrow> (string, unit) result \<Rightarrow> failure_class \<Rightarrow> system_db
     \<Rightarrow> (application_error, bool) result \<times> system_db" where
  "settle_delivery now ev result failure s =
     (let (r, rows) = (case result of
            Inr _ \<Rightarrow> worker_succeeded now ev (sy_outbox s)
          | Inl error \<Rightarrow> worker_failed now ev failure error (sy_outbox s))
      in (r, s\<lparr>sy_outbox := rows\<rparr>))"

definition deliver ::
  "delivery_api \<Rightarrow> network_answer \<Rightarrow> int \<Rightarrow> int \<Rightarrow> command_row list \<Rightarrow> outbox_event_record \<Rightarrow> system_db
     \<Rightarrow> (application_error, bool) result \<times> system_db \<times> effect list" where
  "deliver D net now settled_at seen ev s =
     (case decode_event (dv_serde D) (oe_tenant_id ev) (oe_event_type ev) (oe_payload ev) of
        Inl e \<Rightarrow>
          let (r, s') = settle_delivery settled_at ev (Err (''failed to deserialize pending action: '' @ e)) Permanent s
          in (r, s', [])
      | Inr action \<Rightarrow>
          let (result, s', effects) = execute D net now seen action (oe_id ev) s;
              (r, s'') = settle_delivery settled_at ev result Retryable s'
          in (r, s'', effects))"

section \<open>Isolation of tenants\<close>

text \<open>Everything of the state that belongs to a tenant.\<close>

definition tenant_view ::
  "string \<Rightarrow> system_db \<Rightarrow> alert_row list \<times> (rule_device_key \<times> int) list \<times> (string \<times> string \<times> string) list \<times> command_row list" where
  "tenant_view t s =
     (filter (\<lambda>r. ar_tenant_id r = t) (ad_alerts (sy_alerts s)),
      filter (\<lambda>(k, _). fst k = t) (db_cooldowns (ad_runtime (sy_alerts s))),
      filter (\<lambda>(_, u, _). u = t) (ad_deliveries (sy_alerts s)),
      filter (\<lambda>r. ch_tenant_id r = t) (sy_commands s))"

definition alert_view ::
  "string \<Rightarrow> alert_db \<Rightarrow> alert_row list \<times> (rule_device_key \<times> int) list \<times> (string \<times> string \<times> string) list" where
  "alert_view t db =
     (filter (\<lambda>r. ar_tenant_id r = t) (ad_alerts db), filter (\<lambda>(k, _). fst k = t) (db_cooldowns (ad_runtime db)),
      filter (\<lambda>(_, u, _). u = t) (ad_deliveries db))"

lemma filter_update_where:
  assumes "\<And>r. p r \<Longrightarrow> \<not> q r" and "\<And>r. p r \<Longrightarrow> \<not> q (f r)"
  shows "filter q (update_where p f rows) = filter q rows"
  using assms by (induction rows) (auto simp: update_where_def)

lemma alert_view_simps [simp]:
  "alert_view t (set_alerts rows db) = (filter (\<lambda>r. ar_tenant_id r = t) rows, snd (alert_view t db))"
  "alert_view t (set_cooldowns cs db) = (fst (alert_view t db), filter (\<lambda>(k, _). fst k = t) cs, snd (snd (alert_view t db)))"
  "alert_view t (db\<lparr>ad_deliveries := ds\<rparr>) = (fst (alert_view t db), fst (snd (alert_view t db)), filter (\<lambda>(_, u, _). u = t) ds)"
  "alert_view t (alert_tables s) = alert_view t (sy_alerts s)"
  by (simp_all add: alert_view_def set_alerts_def set_cooldowns_def alert_tables_def)

lemma db_cooldowns_simps [simp]:
  "db_cooldowns (ad_runtime (set_alerts rows db)) = db_cooldowns (ad_runtime db)"
  "db_cooldowns (ad_runtime (set_cooldowns cs db)) = cs"
  by (simp_all add: set_alerts_def set_cooldowns_def)

lemma cooldown_view:
  "tenant \<noteq> t \<Longrightarrow> filter (\<lambda>(k, _). fst k = t) (transition_cooldown now tr (tenant, rule, device) cs)
     = filter (\<lambda>(k, _). fst k = t) cs"
proof -
  assume "tenant \<noteq> t"
  then have "filter (\<lambda>(k, _). fst k = t) (AList.update (tenant, rule, device) v cs) = filter (\<lambda>(k, _). fst k = t) cs" for v
    by (induction cs) auto
  moreover from \<open>tenant \<noteq> t\<close>
  have "filter (\<lambda>(k, _). fst k = t) (AList.delete (tenant, rule, device) cs) = filter (\<lambda>(k, _). fst k = t) cs"
    by (induction cs) auto
  ultimately show ?thesis by (simp add: transition_cooldown_def upsert_cooldown_def split: alert_transition.split)
qed

lemma transition_row_tenant [simp]: "ar_tenant_id (transition_row now tr r) = ar_tenant_id r"
  by (simp add: transition_row_def split: alert_transition.split)

lemma transition_view:
  assumes "transition_from ch now tenant alert_id tr db = Ok (outcome, db')" and "tenant \<noteq> t"
  shows "alert_view t db' = alert_view t db"
  using assms(1)
proof (cases rule: transition_updates)
  case (2 r a)
  have rows: "filter (\<lambda>r. ar_tenant_id r = t) (update_where (alert_at tenant alert_id) (transition_row now tr) (ad_alerts db))
      = filter (\<lambda>r. ar_tenant_id r = t) (ad_alerts db)"
    using assms(2) by (intro filter_update_where) auto
  show ?thesis unfolding 2(7) apply_transition_def Let_def
    using cooldown_view [OF assms(2)] rows by (simp add: alert_view_def split: option.split)
qed simp

lemma deliver_existing_view:
  "deliver_existing tenant r e db = Ok (a, db') \<Longrightarrow> tenant \<noteq> t \<Longrightarrow> alert_view t db' = alert_view t db"
  using deliver_existing_Ok [of tenant r e db a db'] by (simp add: alert_view_def)

lemma create_view:
  assumes "create_or_get_active ch now tenant r db = Ok (a, db')" and "tenant \<noteq> t"
  shows "alert_view t db' = alert_view t db"
proof -
  have new: "alert_view t db1 = alert_view t db" if fresh: "deliver_new ch now tenant r db = Ok (a, db1)" for db1
  proof -
    obtain db0 e where d: "insert_alert now tenant r db = Ok db0" "deliver_existing tenant r e db0 = Ok (a, db1)"
      using fresh by (auto simp: deliver_new_def rbind_Inr_iff split: option.splits)
    show ?thesis using insert_alert_Ok [OF d(1)] deliver_existing_view [OF d(2) assms(2)] assms(2)
      by (simp add: alert_view_def new_alert_row_def)
  qed
  show ?thesis
    using assms(1) new deliver_existing_view [OF _ assms(2)]
    by (auto simp: create_or_get_active_def rbind_Inr_iff split: option.splits if_splits)
qed

lemma value_view:
  "tenant \<noteq> t \<Longrightarrow> alert_view t (snd (update_triggered_value tenant alert_id v db)) = alert_view t db"
  by (auto simp: update_triggered_value_def alert_view_def intro!: filter_update_where)

lemma create_command_view:
  assumes "create_command ch now devices tenant device n rows = (res, rows')" and "tenant \<noteq> t"
  shows "filter (\<lambda>r. ch_tenant_id r = t) rows' = filter (\<lambda>r. ch_tenant_id r = t) rows"
  using assms by (auto simp: create_command_def sent_row_def split: if_splits)

lemma obtain_command_view:
  assumes "obtain_command A now dt tenant device delivery command stored existing rows = (res, rows')" and "tenant \<noteq> t"
  shows "filter (\<lambda>r. ch_tenant_id r = t) rows' = filter (\<lambda>r. ch_tenant_id r = t) rows"
  using assms
  by (auto simp: obtain_command_def split: option.splits prod.splits sum.splits dest: create_command_view [OF _ assms(2)])

lemma deliver_action_view:
  "tenant \<noteq> t \<Longrightarrow> filter (\<lambda>r. ch_tenant_id r = t)
      (fst (snd (deliver_action A net now dt tenant device delivery command params seen rows)))
    = filter (\<lambda>r. ch_tenant_id r = t) rows"
  by (auto simp: deliver_action_def Let_def split: sum.split prod.split dest: obtain_command_view)

lemma tenant_view_alt: "tenant_view t s = (case alert_view t (sy_alerts s) of (as, cs, ds) \<Rightarrow>
    (as, cs, ds, filter (\<lambda>r. ch_tenant_id r = t) (sy_commands s)))"
  by (simp add: tenant_view_def alert_view_def)

lemma tenant_id_new_Ok: "tenant_id_new x = Ok tenant \<Longrightarrow> tenant = x"
  by (auto simp: tenant_id_new_def split: if_splits)

lemma execute_view:
  assumes "tenant_id_for_action action \<noteq> t"
  shows "tenant_view t (fst (snd (execute D net now seen action delivery s))) = tenant_view t s"
proof -
  have resolve: "alert_view t (snd (resolve_for_action ch now tenant alert_id db)) = alert_view t db"
    if "tenant \<noteq> t" for ch now tenant alert_id db
    using transition_view [OF _ that] by (auto simp: resolve_for_action_def split: sum.split)
  have update: "alert_view t (snd (update_value_for_action tenant alert_id v db)) = alert_view t db"
    if "tenant \<noteq> t" for tenant alert_id v db
    using value_view [OF that] by (simp add: update_value_for_action_def split_beta Let_def)
  have create: "alert_view t db' = alert_view t db"
    if "create_for_action ch now tenant delivery intent db = Ok (a, db')" "tenant \<noteq> t" for ch now tenant intent a db db'
    using that create_view by (auto simp: create_for_action_def persistence_def split: if_splits sum.splits)
  show ?thesis
    using assms
    by (cases action)
      (auto simp: with_tenant_def tenant_view_alt tenant_id_for_action_def Let_def split_beta resolve update
        deliver_action_view dest!: tenant_id_new_Ok create split: sum.split)
qed

lemma execute_published:
  assumes "Published d \<in> set (snd (snd (execute D net now seen action delivery s)))"
  shows "validate_command (dv_command D) (device_view s) (tenant_id_for_action action) (cd_device_id d) (cd_command d)
      (cd_params d) = Ok (cd_address d)"
  using assms
  by (cases action)
    (auto simp: with_tenant_def tenant_id_for_action_def Let_def split_beta split: sum.splits
      dest!: tenant_id_new_Ok deliver_action_published)

lemma settle_delivery_keeps:
  "tenant_view t (snd (settle_delivery now ev result failure s)) = tenant_view t s"
  "filter (\<lambda>r. ob_id r \<noteq> oe_id ev) (sy_outbox (snd (settle_delivery now ev result failure s)))
     = filter (\<lambda>r. ob_id r \<noteq> oe_id ev) (sy_outbox s)"
  by (auto simp: settle_delivery_def tenant_view_def Let_def split_beta worker_succeeded_def worker_failed_def
      mark_succeeded_def mark_failed_def holds_lease_def split: sum.split option.split intro!: filter_update_where)

lemma execute_outbox [simp]: "sy_outbox (fst (snd (execute D net now seen action delivery s))) = sy_outbox s"
  by (cases action) (auto simp: with_tenant_def Let_def split_beta split: sum.split)

lemma decode_event_tenant:
  "decode_event S tenant type payload = Ok action \<Longrightarrow> tenant_id_for_action action = tenant"
  by (auto simp: decode_event_def split: if_splits option.splits sum.splits)

text \<open>
  C19. Delivering an event stays inside the event's tenant: the alerts, cooldowns, receipts and
  commands of every other tenant and all other outbox events are untouched, and every command
  that reaches the bus was validated against the contract of a device of the event's tenant.
\<close>

theorem delivery_stays_in_tenant:
  assumes "deliver D net now settled_at seen ev s = (r, s', effects)"
  shows "(t \<noteq> oe_tenant_id ev \<longrightarrow> tenant_view t s' = tenant_view t s)
    \<and> filter (\<lambda>r. ob_id r \<noteq> oe_id ev) (sy_outbox s') = filter (\<lambda>r. ob_id r \<noteq> oe_id ev) (sy_outbox s)
    \<and> (Published d \<in> set effects \<longrightarrow>
         validate_command (dv_command D) (device_view s) (oe_tenant_id ev) (cd_device_id d) (cd_command d) (cd_params d)
           = Ok (cd_address d))"
proof (cases "decode_event (dv_serde D) (oe_tenant_id ev) (oe_event_type ev) (oe_payload ev)")
  case (Inl e)
  with assms show ?thesis
    using settle_delivery_keeps by (auto simp: deliver_def Let_def split_beta)
next
  case (Inr action)
  then have tenant: "tenant_id_for_action action = oe_tenant_id ev" by (rule decode_event_tenant)
  obtain result s1 fx where x: "execute D net now seen action (oe_id ev) s = (result, s1, fx)" by (cases "execute D net now seen action (oe_id ev) s")
  have s': "s' = snd (settle_delivery settled_at ev result Retryable s1)" and fx: "effects = fx"
    using assms Inr x by (auto simp: deliver_def split_beta)
  show ?thesis
    using execute_view [of action t D net now seen "oe_id ev" s] execute_published [of d D net now seen action "oe_id ev" s]
      execute_outbox [of D net now seen action "oe_id ev" s] tenant
    unfolding x s' fx by (auto simp: settle_delivery_keeps)
qed

section \<open>Redelivered resolutions\<close>

lemma alert_tables_again:
  "ad_outbox db = ad_outbox (alert_tables s) \<Longrightarrow> alert_tables (s\<lparr>sy_alerts := db\<rparr>) = db"
  by (simp add: alert_tables_def)

lemma alert_tables_alerts [simp]: "ad_alerts (alert_tables s) = ad_alerts (sy_alerts s)"
  by (simp add: alert_tables_def)

lemma resolve_again:
  assumes ok: "alerts_ok ch (ad_alerts db)" and r: "resolve_for_action ch now tenant alert_id db = (Ok (), db')"
  shows "resolve_for_action ch later tenant alert_id db'
    = (Err (InvalidOperation (''Alert '' @ quoted alert_id @ '' cannot be resolved from status '' @ quoted ''resolved'')), db')"
proof -
  obtain cur a where c: "get_alert ch db tenant alert_id = Ok (Some cur)" "device_exists db tenant (al_device_id cur)"
      "db' = apply_transition now tenant alert_id Resolve cur db" "get_alert ch db' tenant alert_id = Ok (Some a)"
    using r by (auto simp: resolve_for_action_def transition_from_def rbind_def Let_def
        split: sum.splits option.splits if_splits alert_transition_outcome.splits)
  obtain q where q: "q \<in> set (ad_alerts db)" "alert_at tenant alert_id q" "decode_alert ch q = Ok cur"
    using c(1) by (rule get_alert_Some)
  obtain q' where q': "q' \<in> set (ad_alerts db')" "alert_at tenant alert_id q'" "decode_alert ch q' = Ok a"
    using c(4) by (rule get_alert_Some)
  obtain p where p: "p \<in> set (ad_alerts db)" "q' = transition_row now Resolve p" "alert_at tenant alert_id p"
    using q'(1,2) unfolding c(3) by (auto simp: update_where_def transition_row_def split: if_splits)
  have "p = q" using alerts_ok_same_id [OF ok p(1) q(1)] p(3) q(2) by simp
  then have "al_device_id a = al_device_id cur" "al_status a = ''resolved''"
    using decode_alert_Ok [OF q(3)] decode_alert_Ok [OF q'(3)] p(2) by (simp_all add: transition_row_def)
  moreover have "device_exists db' tenant = device_exists db tenant"
    by (rule ext) (simp add: c(3) apply_transition_def device_exists_def set_alerts_def set_cooldowns_def Let_def split: option.split)
  ultimately show ?thesis using c by (simp add: resolve_for_action_def transition_from_def)
qed

lemma resolve_outbox: "ad_outbox (snd (resolve_for_action ch now tenant alert_id db)) = ad_outbox db"
proof -
  have "ad_outbox db' = ad_outbox db" if "transition_from ch now tenant alert_id Resolve db = Ok (outcome, db')" for outcome db'
    using that
    by (cases rule: transition_updates)
      (simp_all add: apply_transition_def set_alerts_def set_cooldowns_def Let_def split: option.split)
  then show ?thesis by (auto simp: resolve_for_action_def split: sum.split)
qed

text \<open>
  C23. A redelivered resolution cannot succeed: once the action has resolved its alert, delivering
  the event again changes no table but its own outbox row, which is settled as failed, so the
  event is retried until its attempts are exhausted although its effect has taken place.
\<close>

theorem redelivered_resolution_fails:
  assumes "execute D net now seen (ResolveAlert t alert_id) (oe_id ev) s = (Ok (), s', effects)"
    and "alerts_ok (dv_micros D) (ad_alerts (sy_alerts s))"
    and "decode_event (dv_serde D) (oe_tenant_id ev) (oe_event_type ev) (oe_payload ev) = Ok (ResolveAlert t alert_id)"
    and "oe_claim_token ev = Some token"
  shows "fst (snd (deliver D net' later settled_at seen' ev s')) =
    s'\<lparr>sy_outbox := snd (mark_failed settled_at (oe_id ev) token (oe_attempts ev) (oe_max_attempts ev) Retryable
      (''Alert '' @ quoted alert_id @ '' cannot be resolved from status '' @ quoted ''resolved'') (sy_outbox s'))\<rparr>"
proof -
  obtain tenant db where x: "tenant_id_new t = Ok tenant"
      "resolve_for_action (dv_micros D) now tenant alert_id (alert_tables s) = (Ok (), db)" "s' = s\<lparr>sy_alerts := db\<rparr>"
    using assms(1) by (auto simp: with_tenant_def unit_result_def split: sum.splits prod.splits)
  have "ad_outbox db = ad_outbox (alert_tables s)"
    using resolve_outbox [of "dv_micros D" now tenant alert_id "alert_tables s"] x(2) by simp
  then have "alert_tables s' = db" by (simp add: x(3) alert_tables_again)
  moreover note resolve_again [OF _ x(2), of later]
  ultimately have "execute D net' later seen' (ResolveAlert t alert_id) (oe_id ev) s' =
      (Err (''Alert '' @ quoted alert_id @ '' cannot be resolved from status '' @ quoted ''resolved''), s', [])"
    using assms(2) x by (simp add: with_tenant_def unit_result_def)
  with assms(3,4) show ?thesis
    by (simp add: deliver_def settle_delivery_def worker_failed_def split_beta Let_def)
qed

section \<open>A sample delivery\<close>

definition sample_delivery_api :: "pending_action \<Rightarrow> delivery_api" where
  "sample_delivery_api action = \<lparr>dv_serde = sample_serde\<lparr>action_from_value := (\<lambda>_. Ok action)\<rparr>,
     dv_command = sample_command_api\<rparr>"

definition sample_leased_row :: outbox_row where
  "sample_leased_row = \<lparr>ob_id = ''e'', ob_tenant_id = ''t'', ob_event_type = ''rule.create_alert'',
     ob_aggregate_type = ''alert'', ob_aggregate_id = ''r:d'', ob_idempotency_key = None, ob_payload = ''null'',
     ob_status = ''processing'', ob_attempts = 1, ob_max_attempts = 10, ob_available_at = 0,
     ob_locked_at = Some 0, ob_locked_by = Some ''w:u'', ob_last_error = None, ob_created_at = 0, ob_updated_at = 0\<rparr>"

definition sample_system :: system_db where
  "sample_system = \<lparr>sy_outbox = [sample_leased_row], sy_alerts = sample_alert_db, sy_commands = [],
     sy_devices = sample_device_tables\<rparr>"

definition sample_claimed :: "pending_action \<Rightarrow> outbox_event_record" where
  "sample_claimed action = sample_event\<lparr>oe_event_type := event_type_for_action action,
     oe_payload := JObj [(''action'', JNull), (''version'', JNum (PosInt 1))]\<rparr>"

definition sample_intent :: rule_alert_intent where
  "sample_intent = \<lparr>in_rule_id = pa_rule_id sample_alert, in_device_id = pa_device_id sample_alert,
     in_severity = pa_severity sample_alert, in_message = pa_message sample_alert,
     in_triggered_value = pa_triggered sample_alert\<rparr>"

definition sample_alerted :: system_db where
  "sample_alerted = sample_system\<lparr>sy_alerts :=
     (case create_for_action sample_micros 1000000 ''t'' ''e'' sample_intent (alert_tables sample_system) of
        Inl _ \<Rightarrow> sample_alert_db | Inr (_, db) \<Rightarrow> db)\<rparr>"

definition sample_resolution :: pending_action where
  "sample_resolution = ResolveAlert ''t'' ''e''"

definition sample_resolved :: system_db where
  "sample_resolved = sample_alerted\<lparr>sy_alerts :=
     snd (resolve_for_action sample_micros 2000000 ''t'' ''e'' (alert_tables sample_alerted))\<rparr>"

lemma sample_states:
  "ad_alerts (sy_alerts sample_system) = []"
  "map (\<lambda>r. (ar_id r, ar_resolved_at r, ar_acknowledged_at r)) (ad_alerts (sy_alerts sample_alerted)) = [(''e'', None, None)]"
  "map ar_status (ad_alerts (sy_alerts sample_resolved)) = [''resolved'']"
  "map ob_id (sy_outbox sample_alerted) = [''e'']"
  by code_simp+

lemma sample_alerts_ok:
  "alerts_ok sample_micros (ad_alerts (sy_alerts sample_system))"
  "alerts_ok sample_micros (ad_alerts (sy_alerts sample_alerted))"
proof -
  show "alerts_ok sample_micros (ad_alerts (sy_alerts sample_system))" by (simp add: sample_states alerts_ok_def)
  obtain r where "ad_alerts (sy_alerts sample_alerted) = [r]" "ar_resolved_at r = None" "ar_acknowledged_at r = None"
    using sample_states(2) by auto
  then show "alerts_ok sample_micros (ad_alerts (sy_alerts sample_alerted))"
    by (simp add: alerts_ok_def alert_readable_def readable_time_def row_datetime_def sample_micros_def)
qed

lemma sample_dv_micros: "dv_micros (sample_delivery_api action) = sample_micros"
  by (simp add: sample_delivery_api_def sample_command_api_def)

lemma sample_tenant: "tenant_id_new ''t'' = Ok ''t''"
  by code_simp

lemma sample_alert_executed:
  "execute (sample_delivery_api a) net 1000000 seen sample_alert ''e'' sample_system = (Ok (), sample_alerted, [])"
proof -
  have "\<not> isl (create_for_action sample_micros 1000000 ''t'' ''e'' sample_intent (alert_tables sample_system))" by code_simp
  then obtain p where "create_for_action sample_micros 1000000 ''t'' ''e'' sample_intent (alert_tables sample_system) = Ok p"
    by (cases "create_for_action sample_micros 1000000 ''t'' ''e'' sample_intent (alert_tables sample_system)") simp_all
  then show ?thesis
    by (cases p) (simp add: sample_alert_def sample_alerted_def with_tenant_def sample_tenant sample_dv_micros sample_intent_def)
qed

lemma sample_resolution_executed:
  "execute (sample_delivery_api a) net 2000000 seen sample_resolution ''e'' sample_alerted = (Ok (), sample_resolved, [])"
proof -
  have "fst (resolve_for_action sample_micros 2000000 ''t'' ''e'' (alert_tables sample_alerted)) = Ok ()" by code_simp
  then show ?thesis
    by (simp add: sample_resolution_def sample_resolved_def with_tenant_def sample_tenant sample_dv_micros unit_result_def split_beta)
qed

lemma sample_decoded:
  "tenant_id_for_action a = ''t'' \<Longrightarrow> \<not> is_runtime_state a \<Longrightarrow>
     decode_event (dv_serde (sample_delivery_api a)) (oe_tenant_id (sample_claimed a)) (oe_event_type (sample_claimed a))
       (oe_payload (sample_claimed a)) = Ok a"
  by (simp add: decode_event_def sample_delivery_api_def sample_claimed_def sample_event_def jget_def bt_get_def)

theorem delivery_stays_in_tenant_witness:
  "\<exists>r s' effects. deliver (sample_delivery_api sample_alert) (Ok ()) 1000000 2000000 [] (sample_claimed sample_alert) sample_system
      = (r, s', effects)
    \<and> map ar_id (ad_alerts (sy_alerts s')) = [''e''] \<and> tenant_view ''u'' s' = tenant_view ''u'' sample_system"
proof -
  let ?D = "sample_delivery_api sample_alert" and ?ev = "sample_claimed sample_alert"
  obtain r s' effects where d: "deliver ?D (Ok ()) 1000000 2000000 [] ?ev sample_system = (r, s', effects)"
    by (metis surj_pair)
  have e: "oe_id ?ev = ''e''" "oe_tenant_id ?ev = ''t''" by (simp_all add: sample_claimed_def sample_event_def)
  have "tenant_id_for_action sample_alert = ''t''" "\<not> is_runtime_state sample_alert"
    by (simp_all add: sample_alert_def tenant_id_for_action_def)
  then have "sy_alerts s' = sy_alerts sample_alerted"
    using d sample_decoded [of sample_alert] sample_alert_executed
    by (auto simp: deliver_def e settle_delivery_def split_beta Let_def)
  then have "map ar_id (ad_alerts (sy_alerts s')) = [''e'']" using sample_states(2) by auto
  moreover have "tenant_view ''u'' s' = tenant_view ''u'' sample_system"
    using delivery_stays_in_tenant [OF d, of "''u''"] e by simp
  ultimately show ?thesis using d by (intro exI conjI)
qed

theorem redelivered_resolution_fails_witness:
  "map ar_status (ad_alerts (sy_alerts sample_resolved)) = [''resolved'']
   \<and> fst (snd (deliver (sample_delivery_api sample_resolution) (Ok ()) 3000000 4000000 [] (sample_claimed sample_resolution) sample_resolved)) =
    sample_resolved\<lparr>sy_outbox := snd (mark_failed 4000000 ''e'' ''w:u'' 1 10 Retryable
      (''Alert '' @ quoted ''e'' @ '' cannot be resolved from status '' @ quoted ''resolved'') (sy_outbox sample_resolved))\<rparr>"
proof
  let ?ev = "sample_claimed sample_resolution" and ?D = "sample_delivery_api sample_resolution"
  show "map ar_status (ad_alerts (sy_alerts sample_resolved)) = [''resolved'']" by (rule sample_states)
  have i: "oe_id ?ev = ''e''" and t: "oe_claim_token ?ev = Some ''w:u''"
    by (simp_all add: sample_claimed_def sample_event_def)
  have x: "execute ?D (Ok ()) 2000000 [] (ResolveAlert ''t'' ''e'') (oe_id ?ev) sample_alerted = (Ok (), sample_resolved, [])"
    unfolding i using sample_resolution_executed [of sample_resolution "Ok ()" "[]"]
    by (simp only: sample_resolution_def)
  have e: "decode_event (dv_serde ?D) (oe_tenant_id ?ev) (oe_event_type ?ev) (oe_payload ?ev) = Ok (ResolveAlert ''t'' ''e'')"
    using sample_decoded [of sample_resolution] by (simp add: sample_resolution_def tenant_id_for_action_def)
  have ok: "alerts_ok (dv_micros ?D) (ad_alerts (sy_alerts sample_alerted))"
    by (simp add: sample_dv_micros sample_alerts_ok)
  show "fst (snd (deliver ?D (Ok ()) 3000000 4000000 [] ?ev sample_resolved)) =
    sample_resolved\<lparr>sy_outbox := snd (mark_failed 4000000 ''e'' ''w:u'' 1 10 Retryable
      (''Alert '' @ quoted ''e'' @ '' cannot be resolved from status '' @ quoted ''resolved'') (sy_outbox sample_resolved))\<rparr>"
    using redelivered_resolution_fails [OF x ok e t, of "Ok ()" 3000000 4000000 "[]"]
    by (simp add: sample_claimed_def sample_event_def)
qed

end
