(* ===== verification/Redelivery.thy ===== *)
theory Redelivery
  imports Rule_Delivery
begin

text \<open>
  Histories of the whole delivery system: evaluations and requests on alerts, commands and their
  answers, the outbox, changes of the assigned contracts and deliveries run in any order, and the
  network answers every message as it likes. A worker may stop after executing an action and
  before settling its event, so that the event is delivered again, at any later time: the second
  execution creates no second alert and no second command.
\<close>

section \<open>Histories\<close>

record system_env =
  sv_libm :: libm
  sv_clock :: clock_api
  sv_span :: span_api
  sv_delivery :: delivery_api

definition alert_env_of :: "system_env \<Rightarrow> alert_env" where
  "alert_env_of V = \<lparr>ae_libm = sv_libm V, ae_clock = sv_clock V, ae_micros = dv_micros (sv_delivery V), ae_span = sv_span V\<rparr>"

datatype system_op =
    AlertWork alert_op
  | CommandWork command_op
  | OutboxWork outbox_op
  | AssignContracts device_tables
  | DeliverEvent network_answer int int "command_row list" outbox_event_record

fun system_apply :: "system_env \<Rightarrow> system_op \<Rightarrow> system_db \<Rightarrow> system_db" where
  "system_apply V (AlertWork op) s = s\<lparr>sy_alerts := alert_apply (alert_env_of V) op (alert_tables s)\<rparr>"
| "system_apply V (CommandWork op) s =
     s\<lparr>sy_commands := fst (command_exec (dv_command (sv_delivery V)) (sv_span V) (device_view s) op (sy_commands s))\<rparr>"
| "system_apply V (OutboxWork op) s =
     s\<lparr>sy_outbox := outbox_apply (dv_serde (sv_delivery V)) (dv_micros (sv_delivery V)) (ca_text (dv_command (sv_delivery V))) op (sy_outbox s)\<rparr>"
| "system_apply V (AssignContracts dt) s = s\<lparr>sy_devices := dt\<rparr>"
| "system_apply V (DeliverEvent net now settled_at seen ev) s = fst (snd (deliver (sv_delivery V) net now settled_at seen ev s))"

text \<open>The clock yields times that can be read back.\<close>

fun system_op_ok :: "system_env \<Rightarrow> system_op \<Rightarrow> bool" where
  "system_op_ok V (AlertWork op) = alert_op_ok (alert_env_of V) op"
| "system_op_ok V (DeliverEvent _ now _ _ _) = readable_time (dv_micros (sv_delivery V)) now"
| "system_op_ok V _ = True"

primrec system_run :: "system_env \<Rightarrow> system_op list \<Rightarrow> system_db \<Rightarrow> system_db" where
  "system_run V [] s = s"
| "system_run V (op # ops) s = system_run V ops (system_apply V op s)"

definition no_system :: system_db where
  "no_system = \<lparr>sy_outbox = [], sy_alerts = no_alerts, sy_commands = [],
     sy_devices = \<lparr>dt_devices = [], dt_contracts = [], dt_assignments = []\<rparr>\<rparr>"

section \<open>What one step keeps\<close>

definition system_ok :: "system_env \<Rightarrow> system_db \<Rightarrow> bool" where
  "system_ok V s \<longleftrightarrow> alerts_ok (dv_micros (sv_delivery V)) (ad_alerts (sy_alerts s)) \<and> distinct (map ch_id (sy_commands s))"

abbreviation command_ids :: "system_db \<Rightarrow> string set" where
  "command_ids s \<equiv> ch_id ` set (sy_commands s)"

text \<open>Receipts and command identifiers are never lost.\<close>

definition progresses :: "system_env \<Rightarrow> system_db \<Rightarrow> system_db \<Rightarrow> bool" where
  "progresses V s s' \<longleftrightarrow> (system_ok V s \<longrightarrow> system_ok V s'
     \<and> (\<forall>tenant delivery x. receipt tenant delivery (sy_alerts s) = Some x \<longrightarrow> receipt tenant delivery (sy_alerts s') = Some x)
     \<and> command_ids s \<subseteq> command_ids s')"

lemma progressesD:
  assumes "progresses V s s'" and "system_ok V s"
  shows "system_ok V s'" and "command_ids s \<subseteq> command_ids s'"
    and "receipt tenant delivery (sy_alerts s) = Some x \<Longrightarrow> receipt tenant delivery (sy_alerts s') = Some x"
  using assms unfolding progresses_def by (simp, simp, blast)

lemma progresses_refl: "progresses V s s"
  by (simp add: progresses_def)

lemma progresses_trans: "progresses V s s' \<Longrightarrow> progresses V s' s'' \<Longrightarrow> progresses V s s''"
  unfolding progresses_def by (meson subset_trans)

lemma evolves_ids: "command_evolves rows rows' \<Longrightarrow> ch_id ` set rows \<subseteq> ch_id ` set rows'"
proof (induction rule: command_evolves.induct)
  case (revise rows rows')
  then show ?case using revises_ids [OF revise] by (metis list.set_map order_refl)
qed auto

lemma progresses_alerts:
  assumes "alert_op_ok (alert_env_of V) op"
    and "ad_alerts (sy_alerts s') = ad_alerts (alert_apply (alert_env_of V) op (alert_tables s))"
    and "ad_deliveries (sy_alerts s') = ad_deliveries (alert_apply (alert_env_of V) op (alert_tables s))"
    and "sy_commands s' = sy_commands s"
  shows "progresses V s s'"
  unfolding progresses_def
proof (intro impI conjI allI)
  assume ok: "system_ok V s"
  then have a: "alerts_ok (ae_micros (alert_env_of V)) (ad_alerts (alert_tables s))"
    by (simp add: system_ok_def alert_env_of_def)
  from alert_apply_ok [OF a assms(1)] ok show "system_ok V s'"
    by (simp add: system_ok_def assms(2,4) alert_env_of_def)
  fix tenant delivery x
  assume "receipt tenant delivery (sy_alerts s) = Some x"
  then have "receipt tenant delivery (alert_tables s) = Some x" by (simp add: alert_tables_def)
  with alert_apply_deliveries [OF a assms(1)] receipt_kept show "receipt tenant delivery (sy_alerts s') = Some x"
    unfolding assms(3) by metis
qed (simp add: assms(4))

lemma progresses_commands:
  assumes "command_evolves (sy_commands s) (sy_commands s')" and "sy_alerts s' = sy_alerts s"
  shows "progresses V s s'"
  using command_evolves_keeps(1) [OF assms(1)] evolves_ids [OF assms(1)]
  by (simp add: progresses_def system_ok_def assms(2))

lemma progresses_outside: "sy_alerts s' = sy_alerts s \<Longrightarrow> sy_commands s' = sy_commands s \<Longrightarrow> progresses V s s'"
  by (simp add: progresses_commands)

text \<open>Executing an action is one of the steps on the alerts or the commands, or none.\<close>

lemma execute_progresses:
  assumes "readable_time (dv_micros (sv_delivery V)) now"
  shows "progresses V s (fst (snd (execute (sv_delivery V) net now seen action delivery s)))"
proof (cases action)
  case (CreateAlert t rule d sev m v)
  show ?thesis
  proof (cases "fst (execute (sv_delivery V) net now seen action delivery s)")
    case (Inr u)
    let ?i = "\<lparr>in_rule_id = rule, in_device_id = d, in_severity = sev, in_message = m, in_triggered_value = v\<rparr>"
    obtain tenant a db where x: "create_for_action (dv_micros (sv_delivery V)) now tenant delivery ?i (alert_tables s) = Ok (a, db)"
        "fst (snd (execute (sv_delivery V) net now seen action delivery s)) = s\<lparr>sy_alerts := db\<rparr>"
      using Inr CreateAlert by (auto simp: with_tenant_def split: sum.splits)
    let ?r = "\<lparr>na_id = delivery, na_rule_id = rule, na_device_id = d, na_severity = sev, na_message = m, na_triggered_value = v\<rparr>"
    have "alert_apply (alert_env_of V) (CreateActive now tenant ?r) (alert_tables s) = db"
      using x(1) by (auto simp: alert_env_of_def create_for_action_def persistence_def split: if_splits sum.splits)
    then show ?thesis unfolding x(2)
      using assms by (intro progresses_alerts [where op = "CreateActive now tenant ?r"]) (simp_all add: alert_env_of_def)
  qed (auto simp: CreateAlert with_tenant_def progresses_refl split: sum.splits)
next
  case (UpdateAlertValue t alert_id v)
  show ?thesis
  proof (cases "tenant_id_new t")
    case (Inr tenant)
    then show ?thesis
      by (intro progresses_alerts [where op = "SetValue tenant alert_id v"])
        (simp_all add: UpdateAlertValue with_tenant_def update_value_for_action_def Let_def split_beta)
  qed (simp add: UpdateAlertValue with_tenant_def progresses_refl)
next
  case (ResolveAlert t alert_id)
  show ?thesis
  proof (cases "tenant_id_new t")
    case (Inr tenant)
    have "snd (resolve_for_action (dv_micros (sv_delivery V)) now tenant alert_id (alert_tables s))
        = alert_apply (alert_env_of V) (Transit now tenant alert_id Resolve) (alert_tables s)"
      by (auto simp: resolve_for_action_def alert_env_of_def split: sum.split)
    then show ?thesis
      using assms Inr
      by (intro progresses_alerts [where op = "Transit now tenant alert_id Resolve"])
        (simp_all add: ResolveAlert with_tenant_def Let_def split_beta alert_env_of_def)
  qed (simp add: ResolveAlert with_tenant_def progresses_refl)
next
  case (SendCommand t d command p)
  then show ?thesis
    by (intro progresses_commands) (auto simp: with_tenant_def Let_def split_beta deliver_action_evolves split: sum.split)
qed (simp_all add: progresses_refl)

lemma deliver_progresses:
  assumes "readable_time (dv_micros (sv_delivery V)) now"
  shows "progresses V s (fst (snd (deliver (sv_delivery V) net now settled_at seen ev s)))"
proof -
  have settle: "progresses V x (snd (settle_delivery settled_at ev result failure x))" for x result failure
    by (rule progresses_outside) (simp_all add: settle_delivery_def split_beta Let_def)
  show ?thesis
  proof (cases "decode_event (dv_serde (sv_delivery V)) (oe_tenant_id ev) (oe_event_type ev) (oe_payload ev)")
    case (Inr action)
    then show ?thesis
      using progresses_trans [OF execute_progresses [OF assms] settle] by (simp add: deliver_def Let_def split_beta)
  qed (simp add: deliver_def Let_def split_beta settle)
qed

lemma system_apply_progresses: "system_op_ok V op \<Longrightarrow> progresses V s (system_apply V op s)"
proof (cases op)
  case (CommandWork op')
  then show ?thesis by (simp add: progresses_commands command_exec_evolves)
qed (auto intro: progresses_alerts progresses_outside deliver_progresses)

lemma system_run_progresses: "list_all (system_op_ok V) ops \<Longrightarrow> progresses V s (system_run V ops s)"
proof (induction ops arbitrary: s)
  case (Cons op ops)
  then show ?case by (auto intro: progresses_trans [OF system_apply_progresses])
qed (simp add: progresses_refl)

lemma no_system_ok: "system_ok V no_system"
  by (simp add: system_ok_def no_system_def no_alerts_def alerts_ok_def)

section \<open>The first execution leaves its mark\<close>

lemma find_command_ids: "find_command ch rows tenant delivery = Ok (Some c) \<Longrightarrow> delivery \<in> ch_id ` set rows"
  by (auto simp: find_command_def find_Some_iff split: option.splits)

lemma existing_command_ids: "existing_command A tenant device delivery command stored seen = Ok (Some c) \<Longrightarrow> delivery \<in> ch_id ` set seen"
  by (auto simp: existing_command_def persistence_def rbind_Inr_iff split: option.splits sum.splits dest: find_command_ids)

lemma obtain_command_ids:
  assumes "obtain_command A now dt tenant device delivery command stored None rows = (Ok c, rows')"
  shows "delivery \<in> ch_id ` set rows'"
  using assms
  by (auto simp: obtain_command_def create_command_def sent_row_def persistence_def rbind_Inr_iff
      split: if_splits sum.splits option.splits prod.splits dest: find_command_ids)

lemma deliver_action_records:
  assumes "deliver_action A net now dt tenant device delivery command params seen rows = (res, rows', ps)"
    and "ch_id ` set seen \<subseteq> ch_id ` set rows" and "\<not> isl res \<or> ps \<noteq> []"
  shows "delivery \<in> ch_id ` set rows'"
proof -
  let ?st = "stored_params A (JObj (object_params params))"
  obtain existing where e: "existing_command A tenant device delivery command ?st seen = Ok existing"
    using assms(1,3) by (auto simp: deliver_action_def Let_def split: if_splits sum.splits)
  show ?thesis
  proof (cases existing)
    case (Some c)
    then have "rows' = rows" using assms(1) e
      by (auto simp: deliver_action_def obtain_command_def Let_def split: if_splits sum.splits)
    with existing_command_ids [OF e [unfolded Some]] assms(2) show ?thesis by blast
  next
    case None
    then obtain c where "obtain_command A now dt tenant device delivery command ?st None rows = (Ok c, rows')"
      using assms(1,3) e
      by (auto simp: deliver_action_def Let_def is_some_and_def split: if_splits sum.splits prod.splits)
    then show ?thesis by (rule obtain_command_ids)
  qed
qed

section \<open>The second execution adds nothing\<close>

lemma obtain_command_recorded:
  "delivery \<in> ch_id ` set rows \<Longrightarrow> snd (obtain_command A now dt tenant device delivery command stored existing rows) = rows"
  by (auto simp: obtain_command_def create_command_def split: option.split sum.split)

lemma deliver_action_recorded:
  assumes "deliver_action A net now dt tenant device delivery command params seen rows = (res, rows', ps)"
    and "delivery \<in> ch_id ` set rows"
  shows "rows' = rows"
    and "ps = [] \<or> (\<exists>d. ps = [d] \<and> cd_correlation_id d = delivery \<and> cd_device_id d = device \<and> cd_command d = command
      \<and> cd_params d = JObj (object_params params) \<and> (isl res \<longleftrightarrow> isl net))"
proof -
  have o: "obtain_command A now dt tenant device delivery command stored existing rows = (c, rows'') \<Longrightarrow> rows'' = rows" for stored existing c rows''
    using obtain_command_recorded [OF assms(2), of A now dt tenant device command stored existing] by simp
  show "rows' = rows"
    using assms(1) by (auto simp: deliver_action_def Let_def split: if_splits sum.splits prod.splits dest: o)
  show "ps = [] \<or> (\<exists>d. ps = [d] \<and> cd_correlation_id d = delivery \<and> cd_device_id d = device \<and> cd_command d = command
      \<and> cd_params d = JObj (object_params params) \<and> (isl res \<longleftrightarrow> isl net))"
    using assms(1) by (auto simp: deliver_action_def publish_command_def Let_def split: if_splits sum.splits prod.splits)
qed

text \<open>A command the device has answered, or that has timed out, is not sent again.\<close>

lemma deliver_action_answered:
  assumes "deliver_action A net now dt tenant device delivery command params rows rows = (res, rows', ps)"
    and "distinct (map ch_id rows)" and "row \<in> set rows" and "ch_id row = delivery" and "ch_status row \<notin> {''pending'', ''sent''}"
  shows "ps = []"
proof -
  have status: "canonical_status (ch_status row) \<noteq> ''sent''" using assms(5) by (simp add: canonical_status_def)
  have found: "find_command (ca_micros A) rows tenant delivery = Ok (Some c) \<Longrightarrow> cm_status c \<noteq> ''sent''" for c
  proof -
    assume f: "find_command (ca_micros A) rows tenant delivery = Ok (Some c)"
    then obtain q where q: "find (\<lambda>r. ch_tenant_id r = tenant \<and> ch_id r = delivery) rows = Some q" "decode_command (ca_micros A) q = Ok c"
      by (auto simp: find_command_def rbind_Inr_iff split: option.splits)
    then have "q \<in> set rows" "ch_id q = delivery" by (auto simp: find_Some_iff)
    then have "q = row" using distinct_ids_unique [OF assms(2,3)] assms(4) by simp
    with q(2) status show ?thesis by (auto simp: decode_command_def rbind_Inr_iff)
  qed
  have recorded: "create_command (ca_micros A) now devices tenant device n rows = (x, rows'') \<Longrightarrow> nc_id n = delivery
      \<Longrightarrow> rows'' = rows \<and> (\<forall>c. x \<noteq> Ok (Some c))" for n devices x rows''
    using imageI [OF assms(3), of ch_id] assms(4) by (auto simp: create_command_def split: if_splits)
  show ?thesis
    using assms(1) found
    by (auto simp: deliver_action_def existing_command_def obtain_command_def persistence_def rbind_Inr_iff is_some_and_def Let_def
        split: if_splits sum.splits prod.splits option.splits dest!: recorded)
qed

lemma execute_CreateAlert_receipt:
  assumes "execute D net now seen (CreateAlert t rule d sev m v) delivery s = (Ok (), s', fx)"
  obtains tenant x where "tenant_id_new t = Ok tenant" and "delivery \<noteq> []" and "receipt tenant delivery (sy_alerts s') = Some x"
proof -
  let ?r = "\<lparr>na_id = delivery, na_rule_id = rule, na_device_id = d, na_severity = sev, na_message = m, na_triggered_value = v\<rparr>"
  obtain tenant a db where x: "tenant_id_new t = Ok tenant" "delivery \<noteq> []"
      "create_or_get_active (dv_micros D) now tenant ?r (alert_tables s) = Ok (a, db)" "s' = s\<lparr>sy_alerts := db\<rparr>"
    using assms by (auto simp: with_tenant_def create_for_action_def persistence_def split: sum.splits if_splits)
  have "receipt tenant delivery (sy_alerts s') \<noteq> None" using receipt_created [OF x(3)] x(4) by simp
  with x(1,2) that show thesis by blast
qed

lemma execute_CreateAlert_again:
  assumes "alerts_ok (dv_micros D) (ad_alerts (sy_alerts s))" and "tenant_id_new t = Ok tenant" and "delivery \<noteq> []"
    and "receipt tenant delivery (sy_alerts s) = Some x"
  shows "execute D net now seen (CreateAlert t rule d sev m v) delivery s = (Ok (), s\<lparr>sy_alerts := alert_tables s\<rparr>, [])"
proof -
  let ?r = "\<lparr>na_id = delivery, na_rule_id = rule, na_device_id = d, na_severity = sev, na_message = m, na_triggered_value = v\<rparr>"
  have "receipt tenant (na_id ?r) (alert_tables s) = Some x" using assms(4) by (simp add: alert_tables_def)
  then obtain a where "create_or_get_active (dv_micros D) now tenant ?r (alert_tables s) = Ok (a, alert_tables s)"
    using create_again [of "dv_micros D" "alert_tables s" tenant ?r x now] assms(1) by auto
  with assms(2,3) show ?thesis by (simp add: with_tenant_def create_for_action_def persistence_def)
qed

lemma execute_SendCommand_deliver:
  assumes "execute D net now seen (SendCommand t d command p) delivery s = (r, s', fx)"
  shows "(isl r \<and> fx = [] \<and> s' = s) \<or> (\<exists>tenant res ps. deliver_action (dv_command D) net now (device_view s) tenant d delivery command p seen (sy_commands s)
        = (res, sy_commands s', ps) \<and> s' = s\<lparr>sy_commands := sy_commands s'\<rparr> \<and> fx = map Published ps \<and> (isl r \<longleftrightarrow> isl res))"
proof (cases "tenant_id_new t")
  case (Inr tenant)
  obtain res rows ps where d: "deliver_action (dv_command D) net now (device_view s) tenant d delivery command p seen (sy_commands s)
      = (res, rows, ps)" by (rule prod_cases3)
  with Inr assms have "r = unit_result res" "s' = s\<lparr>sy_commands := rows\<rparr>" "fx = map Published ps" by (auto simp: with_tenant_def)
  with d show ?thesis
    by (intro disjI2 exI [of _ tenant] exI [of _ res] exI [of _ ps]) (simp add: unit_result_def split: sum.split)
qed (use assms in \<open>auto simp: with_tenant_def\<close>)


section \<open>A sample history\<close>

definition sample_system_env :: system_env where
  "sample_system_env = \<lparr>sv_libm = zero_libm, sv_clock = sample_clock, sv_span = sample_span, sv_delivery = sample_delivery_api sample_alert\<rparr>"

definition sample_start :: "system_op list" where
  "sample_start = [AlertWork (Configure [((''t'', ''dev-7''), (None, None))] []), AssignContracts sample_device_tables]"

definition sample_started :: system_db where
  "sample_started = system_run sample_system_env sample_start no_system"

definition sample_reboot :: pending_action where
  "sample_reboot = SendCommand ''t'' ''dev-7'' ''reboot'' (JObj [])"

definition sample_tried :: "network_answer \<times> system_db \<times> effect list" where
  "sample_tried = execute (sv_delivery sample_system_env) (Err ''timeout'') 5 (sy_commands sample_started) sample_reboot ''e'' sample_started"

definition sample_acknowledged :: system_db where
  "sample_acknowledged = system_run sample_system_env [CommandWork (Response 6 ''t'' ''dev-7'' ''e'' ''delivered'' None)] (fst (snd sample_tried))"


end
