(* ===== verification/Compatibility.thy ===== *)
theory Compatibility
  imports Contract_Document
begin

text \<open>
  \<^verbatim>\<open>crates/device-contract/src/compatibility.rs\<close>: the comparison of two validated revisions of a
  blueprint. A function that pushes changes becomes one that returns them. Derived equality of
  declarations is equality, with \<open>json_eq\<close> at the members that hold JSON values. The comparison is
  shown to decide a declarative relation, and a revision it calls non-breaking to keep what the
  contracts of the previous one offered.
\<close>

section \<open>Changes\<close>

datatype compatibility_change_kind = ChangeAdded | ChangeRemoved | ChangeChanged

record compatibility_change =
  ch_path :: string
  ch_kind :: compatibility_change_kind
  ch_breaking :: bool
  ch_message :: string

record compatibility =
  co_breaking :: bool
  co_changes :: "compatibility_change list"

definition changed :: "string \<Rightarrow> bool \<Rightarrow> string \<Rightarrow> compatibility_change list" where
  "changed path breaking message =
     [\<lparr>ch_path = path, ch_kind = ChangeChanged, ch_breaking = breaking, ch_message = message\<rparr>]"

section \<open>Equality of declarations\<close>

definition schema_definition_eq :: "schema_definition \<Rightarrow> schema_definition \<Rightarrow> bool" where
  "schema_definition_eq a b \<longleftrightarrow>
     sd_key a = sd_key b \<and> sd_format a = sd_format b \<and> json_eq (sd_schema a) (sd_schema b)"

definition command_definition_eq :: "command_definition \<Rightarrow> command_definition \<Rightarrow> bool" where
  "command_definition_eq a b \<longleftrightarrow>
     a\<lparr>cm_input_schema := JNull, cm_result_schema := JNull\<rparr> = b\<lparr>cm_input_schema := JNull, cm_result_schema := JNull\<rparr>
     \<and> json_eq (cm_input_schema a) (cm_input_schema b) \<and> json_eq (cm_result_schema a) (cm_result_schema b)"

fun option_eq :: "('a \<Rightarrow> 'a \<Rightarrow> bool) \<Rightarrow> 'a option \<Rightarrow> 'a option \<Rightarrow> bool" where
  "option_eq eq None None = True"
| "option_eq eq (Some a) (Some b) = eq a b"
| "option_eq eq _ _ = False"

definition reported_state_eq :: "reported_state_definition \<Rightarrow> reported_state_definition \<Rightarrow> bool" where
  "reported_state_eq a b \<longleftrightarrow> json_eq (rs_schema a) (rs_schema b)"

section \<open>The comparison\<close>

definition compare_serialized :: "('a \<Rightarrow> 'a \<Rightarrow> bool) \<Rightarrow> 'a \<Rightarrow> 'a \<Rightarrow> string \<Rightarrow> bool \<Rightarrow> compatibility_change list" where
  "compare_serialized eq previous next_v path breaking =
     (if \<not> eq previous next_v then changed path breaking ''declaration changed'' else [])"

definition compare_keyed ::
  "('a \<Rightarrow> string) \<Rightarrow> 'a list \<Rightarrow> 'a list \<Rightarrow> string \<Rightarrow> bool
     \<Rightarrow> ('a \<Rightarrow> 'a \<Rightarrow> string \<Rightarrow> compatibility_change list) \<Rightarrow> compatibility_change list" where
  "compare_keyed key previous next_items path removal_breaking cmp =
     (let prev = bt_collect (map (\<lambda>item. (key item, item)) previous);
          nxt = bt_collect (map (\<lambda>item. (key item, item)) next_items)
      in concat (map (\<lambda>(item_key, previous_item).
           case bt_get nxt item_key of
             Some next_item \<Rightarrow> cmp previous_item next_item (path @ ''/'' @ item_key)
           | None \<Rightarrow> [\<lparr>ch_path = path @ ''/'' @ item_key, ch_kind = ChangeRemoved,
                      ch_breaking = removal_breaking, ch_message = ''declaration was removed''\<rparr>]) prev)
         @ concat (map (\<lambda>(item_key, _).
             if \<not> bt_contains_key prev item_key
             then [\<lparr>ch_path = path @ ''/'' @ item_key, ch_kind = ChangeAdded, ch_breaking = False,
                   ch_message = ''declaration was added''\<rparr>] else []) nxt))"

definition compare_transport ::
  "transport_definition \<Rightarrow> transport_definition \<Rightarrow> string \<Rightarrow> compatibility_change list" where
  "compare_transport p n path =
     (if tr_protocol p \<noteq> tr_protocol n \<or> tr_binding p \<noteq> tr_binding n
      then changed path True ''transport protocol or deployment binding changed''
      else if p \<noteq> n then changed path False ''transport delivery policy changed'' else [])"

definition compare_schema :: "schema_definition \<Rightarrow> schema_definition \<Rightarrow> string \<Rightarrow> compatibility_change list" where
  "compare_schema p n path =
     (if \<not> schema_definition_eq p n
      then changed path True ''schema changed; schema changes are conservatively classified as breaking'' else [])"

definition compare_route :: "route_definition \<Rightarrow> route_definition \<Rightarrow> string \<Rightarrow> compatibility_change list" where
  "compare_route p n path = (if p \<noteq> n then changed path True ''route contract changed'' else [])"

definition compare_field :: "field_definition \<Rightarrow> field_definition \<Rightarrow> string \<Rightarrow> compatibility_change list" where
  "compare_field p n path =
     (if fd_value_type p \<noteq> fd_value_type n \<or> fd_unit p \<noteq> fd_unit n \<or> fd_semantic p \<noteq> fd_semantic n
      then changed path True ''field type, unit, or semantic changed''
      else if p \<noteq> n then changed path False ''field metadata changed'' else [])"

definition compare_stream :: "stream_definition \<Rightarrow> stream_definition \<Rightarrow> string \<Rightarrow> compatibility_change list" where
  "compare_stream p n path =
     (if st_route p \<noteq> st_route n \<or> st_timestamp p \<noteq> st_timestamp n
      then changed path True ''stream route or timestamp source changed'' else [])
     @ compare_keyed fd_path (st_fields p) (st_fields n) (path @ ''/fields'') True compare_field"

definition compare_command :: "command_definition \<Rightarrow> command_definition \<Rightarrow> string \<Rightarrow> compatibility_change list" where
  "compare_command p n path =
     (if \<not> json_eq (cm_input_schema p) (cm_input_schema n) \<or> \<not> json_eq (cm_result_schema p) (cm_result_schema n)
      then changed path True ''command input or result schema changed''
      else if \<not> command_definition_eq p n
      then changed path False ''command metadata or policy changed'' else [])"

definition compare_runtime :: "runtime_definition \<Rightarrow> runtime_definition \<Rightarrow> compatibility_change list" where
  "compare_runtime p n =
     (if rd_minimum_contract_api p < rd_minimum_contract_api n
      then changed ''/spec/runtime/minimumContractApi'' True ''minimum contract API increased'' else [])
     @ (if rl_max_message_bytes (rd_limits n) < rl_max_message_bytes (rd_limits p)
          \<or> rl_max_messages_per_minute (rd_limits n) < rl_max_messages_per_minute (rd_limits p)
          \<or> rl_max_metric_cardinality (rd_limits n) < rl_max_metric_cardinality (rd_limits p)
        then changed ''/spec/runtime/limits'' True ''one or more runtime limits were reduced'' else [])"

definition blueprint_changes :: "device_blueprint \<Rightarrow> device_blueprint \<Rightarrow> compatibility_change list" where
  "blueprint_changes previous next_bp =
     (let p = bp_spec previous; n = bp_spec next_bp
      in compare_runtime (sp_runtime p) (sp_runtime n)
         @ compare_keyed tr_key (sp_transports p) (sp_transports n) ''/spec/transports'' True compare_transport
         @ compare_keyed sd_key (sp_schemas p) (sp_schemas n) ''/spec/schemas'' True compare_schema
         @ compare_keyed ro_key (sp_routes p) (sp_routes n) ''/spec/routes'' True compare_route
         @ compare_keyed st_key (sp_streams p) (sp_streams n) ''/spec/streams'' True compare_stream
         @ compare_keyed cm_key (sp_commands p) (sp_commands n) ''/spec/commands'' True compare_command
         @ compare_serialized (=) (bp_metadata previous) (bp_metadata next_bp) ''/metadata'' False
         @ compare_serialized (option_eq json_eq) (map_option cf_schema (sp_configuration p))
             (map_option cf_schema (sp_configuration n)) ''/spec/configuration/schema'' True
         @ compare_serialized (option_eq reported_state_eq) (sp_reported_state p) (sp_reported_state n)
             ''/spec/reportedState'' True
         @ compare_serialized (=) (sp_location p) (sp_location n) ''/spec/location'' (sp_location p \<noteq> None)
         @ compare_serialized (=) (sp_presentation p) (sp_presentation n) ''/spec/presentation'' False)"

definition compare_blueprints :: "validated_blueprint \<Rightarrow> validated_blueprint \<Rightarrow> compatibility" where
  "compare_blueprints previous next_bp =
     (let changes = blueprint_changes (blueprint previous) (blueprint next_bp)
      in \<lparr>co_breaking = (\<exists>change \<in> set changes. ch_breaking change), co_changes = changes\<rparr>)"

section \<open>Specification\<close>

text \<open>Every declaration of one list is kept in the other, up to a relation.\<close>

definition kept :: "('a \<Rightarrow> string) \<Rightarrow> ('a \<Rightarrow> 'a \<Rightarrow> bool) \<Rightarrow> 'a list \<Rightarrow> 'a list \<Rightarrow> bool" where
  "kept key rel xs ys \<longleftrightarrow> (\<forall>x \<in> set xs. \<exists>y \<in> set ys. key y = key x \<and> rel x y)"

definition field_kept :: "field_definition \<Rightarrow> field_definition \<Rightarrow> bool" where
  "field_kept p n \<longleftrightarrow> fd_value_type n = fd_value_type p \<and> fd_unit n = fd_unit p \<and> fd_semantic n = fd_semantic p"

definition stream_kept :: "stream_definition \<Rightarrow> stream_definition \<Rightarrow> bool" where
  "stream_kept p n \<longleftrightarrow> st_route n = st_route p \<and> st_timestamp n = st_timestamp p
     \<and> kept fd_path field_kept (st_fields p) (st_fields n)"

definition runtime_kept :: "runtime_definition \<Rightarrow> runtime_definition \<Rightarrow> bool" where
  "runtime_kept p n \<longleftrightarrow> rd_minimum_contract_api n \<le> rd_minimum_contract_api p
     \<and> rl_max_message_bytes (rd_limits p) \<le> rl_max_message_bytes (rd_limits n)
     \<and> rl_max_messages_per_minute (rd_limits p) \<le> rl_max_messages_per_minute (rd_limits n)
     \<and> rl_max_metric_cardinality (rd_limits p) \<le> rl_max_metric_cardinality (rd_limits n)"

definition substitutable :: "blueprint_spec \<Rightarrow> blueprint_spec \<Rightarrow> bool" where
  "substitutable p n \<longleftrightarrow> runtime_kept (sp_runtime p) (sp_runtime n)
     \<and> kept tr_key (\<lambda>a b. tr_protocol b = tr_protocol a \<and> tr_binding b = tr_binding a) (sp_transports p) (sp_transports n)
     \<and> kept sd_key schema_definition_eq (sp_schemas p) (sp_schemas n)
     \<and> kept ro_key (=) (sp_routes p) (sp_routes n)
     \<and> kept st_key stream_kept (sp_streams p) (sp_streams n)
     \<and> kept cm_key (\<lambda>a b. json_eq (cm_input_schema a) (cm_input_schema b)
          \<and> json_eq (cm_result_schema a) (cm_result_schema b)) (sp_commands p) (sp_commands n)
     \<and> option_eq json_eq (map_option cf_schema (sp_configuration p)) (map_option cf_schema (sp_configuration n))
     \<and> option_eq reported_state_eq (sp_reported_state p) (sp_reported_state n)
     \<and> (sp_location p = None \<or> sp_location n = sp_location p)"

section \<open>The comparison decides the specification\<close>

definition breaks :: "compatibility_change list \<Rightarrow> bool" where
  "breaks changes \<longleftrightarrow> (\<exists>change \<in> set changes. ch_breaking change)"

lemma breaks_simps [simp]:
  "breaks [] = False" "breaks (xs @ ys) \<longleftrightarrow> breaks xs \<or> breaks ys"
  "breaks (changed path b message) = b"
  "breaks (concat (map f zs)) \<longleftrightarrow> (\<exists>z \<in> set zs. breaks (f z))"
  by (auto simp: breaks_def changed_def)

lemma breaks_serialized [simp]: "breaks (compare_serialized eq p n path b) \<longleftrightarrow> b \<and> \<not> eq p n"
  by (simp add: compare_serialized_def)

lemma keyed_entries:
  assumes "distinct (map key xs)"
  shows "(k, x) \<in> set (bt_collect (map (\<lambda>item. (key item, item)) xs)) \<longleftrightarrow> x \<in> set xs \<and> k = key x"
proof -
  have "(k, x) \<in> set (bt_collect (map (\<lambda>item. (key item, item)) xs))
      \<longleftrightarrow> bt_get (bt_collect (map (\<lambda>item. (key item, item)) xs)) k = Some x"
    by (rule bt.entries_get) simp
  also have "\<dots> \<longleftrightarrow> (\<exists>y \<in> set xs. key y = k \<and> x = y)"
    by (rule collect_lookup [OF assms, where f = "\<lambda>x. x"])
  finally show ?thesis by auto
qed

lemma bex_keyed_entries:
  assumes "distinct (map key xs)"
  shows "(\<exists>z \<in> set (bt_collect (map (\<lambda>item. (key item, item)) xs)). P z) \<longleftrightarrow> (\<exists>x \<in> set xs. P (key x, x))"
  using keyed_entries [OF assms] by force

lemma breaks_keyed:
  assumes "distinct (map key xs)" and "distinct (map key ys)"
    and "\<And>x y path. x \<in> set xs \<Longrightarrow> y \<in> set ys \<Longrightarrow> breaks (cmp x y path) \<longleftrightarrow> \<not> rel x y"
  shows "breaks (compare_keyed key xs ys path True cmp) \<longleftrightarrow> \<not> kept key rel xs ys"
proof -
  let ?next = "bt_collect (map (\<lambda>item. (key item, item)) ys)"
  have "breaks (case bt_get ?next (key x) of
        Some y \<Rightarrow> cmp x y (path @ ''/'' @ key x)
      | None \<Rightarrow> [\<lparr>ch_path = path @ ''/'' @ key x, ch_kind = ChangeRemoved, ch_breaking = True,
                 ch_message = ''declaration was removed''\<rparr>])
      \<longleftrightarrow> \<not> (\<exists>y \<in> set ys. key y = key x \<and> rel x y)" if "x \<in> set xs" for x
  proof (cases "bt_get ?next (key x)")
    case None
    then have "\<not> (\<exists>y \<in> set ys. key y = key x)"
      using collect_lookup [OF assms(2), where f = "\<lambda>x. x" and k = "key x"] by auto
    with None show ?thesis by (auto simp: breaks_def)
  next
    case (Some y)
    then have y: "y \<in> set ys" "key y = key x"
      using collect_lookup [OF assms(2), where f = "\<lambda>x. x" and k = "key x" and y = y] by auto
    then have "z = y" if "z \<in> set ys" "key z = key x" for z
      using that assms(2) by (auto simp: distinct_map inj_on_def)
    with y have "(\<exists>z \<in> set ys. key z = key x \<and> rel x z) \<longleftrightarrow> rel x y" by blast
    with assms(3) [OF \<open>x \<in> set xs\<close> y(1)] show ?thesis unfolding Some option.case by simp
  qed
  then have 1: "(\<exists>x \<in> set xs. breaks (case bt_get ?next (key x) of
        Some y \<Rightarrow> cmp x y (path @ ''/'' @ key x)
      | None \<Rightarrow> [\<lparr>ch_path = path @ ''/'' @ key x, ch_kind = ChangeRemoved, ch_breaking = True,
                 ch_message = ''declaration was removed''\<rparr>])) \<longleftrightarrow> \<not> kept key rel xs ys"
    unfolding kept_def by blast
  have 2: "\<not> breaks (if b then [\<lparr>ch_path = q, ch_kind = ChangeAdded, ch_breaking = False, ch_message = m\<rparr>] else [])" for b q m
    by (simp add: breaks_def)
  show ?thesis
    unfolding compare_keyed_def Let_def breaks_simps bex_keyed_entries [OF assms(1)] prod.case 1
    by (simp add: 2 case_prod_beta)
qed

lemma breaks_runtime: "breaks (compare_runtime p n) \<longleftrightarrow> \<not> runtime_kept p n"
  by (auto simp: compare_runtime_def runtime_kept_def)

lemma breaks_stream:
  assumes "stream_ok spec p" and "stream_ok spec' n"
  shows "breaks (compare_stream p n path) \<longleftrightarrow> \<not> stream_kept p n"
proof -
  have "breaks (compare_keyed fd_path (st_fields p) (st_fields n) (path @ ''/fields'') True compare_field)
      \<longleftrightarrow> \<not> kept fd_path field_kept (st_fields p) (st_fields n)"
    using assms by (intro breaks_keyed) (auto simp: stream_ok_def compare_field_def field_kept_def)
  then show ?thesis by (auto simp: compare_stream_def stream_kept_def)
qed

lemma breaks_blueprint:
  assumes "spec_ok (bp_spec p)" and "spec_ok (bp_spec n)"
  shows "breaks (blueprint_changes p n) \<longleftrightarrow> \<not> substitutable (bp_spec p) (bp_spec n)"
proof -
  let ?p = "bp_spec p" and ?n = "bp_spec n"
  have "breaks (compare_keyed tr_key (sp_transports ?p) (sp_transports ?n) path True compare_transport) \<longleftrightarrow>
      \<not> kept tr_key (\<lambda>a b. tr_protocol b = tr_protocol a \<and> tr_binding b = tr_binding a) (sp_transports ?p) (sp_transports ?n)" for path
    using assms by (intro breaks_keyed) (auto simp: spec_ok_def compare_transport_def)
  moreover have "breaks (compare_keyed sd_key (sp_schemas ?p) (sp_schemas ?n) path True compare_schema) \<longleftrightarrow>
      \<not> kept sd_key schema_definition_eq (sp_schemas ?p) (sp_schemas ?n)" for path
    using assms by (intro breaks_keyed) (auto simp: spec_ok_def compare_schema_def)
  moreover have "breaks (compare_keyed ro_key (sp_routes ?p) (sp_routes ?n) path True compare_route) \<longleftrightarrow>
      \<not> kept ro_key (=) (sp_routes ?p) (sp_routes ?n)" for path
    using assms by (intro breaks_keyed) (auto simp: spec_ok_def compare_route_def)
  moreover have "breaks (compare_keyed st_key (sp_streams ?p) (sp_streams ?n) path True compare_stream) \<longleftrightarrow>
      \<not> kept st_key stream_kept (sp_streams ?p) (sp_streams ?n)" for path
    using assms by (intro breaks_keyed) (auto simp: spec_ok_def intro!: breaks_stream [of ?p _ ?n])
  moreover have "breaks (compare_keyed cm_key (sp_commands ?p) (sp_commands ?n) path True compare_command) \<longleftrightarrow>
      \<not> kept cm_key (\<lambda>a b. json_eq (cm_input_schema a) (cm_input_schema b)
          \<and> json_eq (cm_result_schema a) (cm_result_schema b)) (sp_commands ?p) (sp_commands ?n)" for path
    using assms by (intro breaks_keyed) (auto simp: spec_ok_def compare_command_def)
  ultimately show ?thesis
    unfolding blueprint_changes_def substitutable_def Let_def breaks_simps breaks_serialized breaks_runtime
    by auto
qed

lemma validated_spec:
  "validate_blueprint bp = Ok vb \<Longrightarrow> spec_ok (bp_spec bp) \<and> vb = ValidatedBlueprint bp"
  using blueprint_issues_Nil [of bp]
  by (auto simp: validate_blueprint_def Let_def blueprint_valid_def split: if_splits)

lemma breaking_iff:
  assumes "validate_blueprint p = Ok vp" and "validate_blueprint n = Ok vn"
  shows "co_breaking (compare_blueprints vp vn) \<longleftrightarrow> \<not> substitutable (bp_spec p) (bp_spec n)"
  using validated_spec [OF assms(1)] validated_spec [OF assms(2)] breaks_blueprint [of p n]
  by (simp add: compare_blueprints_def Let_def breaks_def)

text \<open>
  C30. The comparison of two validated revisions is exact for its rule of substitution: it reports a
  breaking change precisely when the contract API is raised, a limit is reduced, a transport,
  schema, route, stream, field or command is removed or changes its protocol, binding, type, unit,
  meaning or schema, or the configuration schema, the reported state or a declared location changes.
\<close>

theorem compatibility_decides_substitution:
  assumes "validate_blueprint p = Ok vp" and "validate_blueprint n = Ok vn"
  shows "co_breaking (compare_blueprints vp vn) \<longleftrightarrow> \<not> substitutable (bp_spec p) (bp_spec n)"
  using assms by (rule breaking_iff)

definition sample_revision :: device_blueprint where
  "sample_revision = sample_blueprint\<lparr>bp_spec := sample_spec\<lparr>sp_routes := sp_routes sample_spec
     @ [sample_route ''control'' CloudToDevice],
     sp_commands := map (\<lambda>c. c\<lparr>cm_request_route := ''control''\<rparr>) (sp_commands sample_spec)\<rparr>\<rparr>"

lemma sample_revision_validates: "validate_blueprint sample_revision = Ok (ValidatedBlueprint sample_revision)"
  by code_simp

theorem compatibility_decides_substitution_witness:
  "substitutable (bp_spec sample_blueprint) (bp_spec sample_revision)
   \<and> \<not> substitutable (bp_spec sample_revision) (bp_spec sample_blueprint)"
proof -
  have "\<not> co_breaking (compare_blueprints (ValidatedBlueprint sample_blueprint) (ValidatedBlueprint sample_revision))"
    and "co_breaking (compare_blueprints (ValidatedBlueprint sample_revision) (ValidatedBlueprint sample_blueprint))"
    by code_simp+
  then show ?thesis
    using compatibility_decides_substitution [OF sample_validates sample_revision_validates]
      compatibility_decides_substitution [OF sample_revision_validates sample_validates] by simp
qed

section \<open>Chains of revisions\<close>

lemma kept_trans:
  assumes "transp rel" and "kept key rel xs ys" and "kept key rel ys zs"
  shows "kept key rel xs zs"
  unfolding kept_def
proof
  fix x assume "x \<in> set xs"
  then obtain y where y: "y \<in> set ys" "key y = key x" "rel x y" using assms(2) by (auto simp: kept_def)
  obtain z where z: "z \<in> set zs" "key z = key y" "rel y z" using assms(3) y(1) by (auto simp: kept_def)
  with y assms(1) show "\<exists>z \<in> set zs. key z = key x \<and> rel x z" by (auto dest: transpD)
qed

lemma option_eq_trans: "transp eq \<Longrightarrow> option_eq eq a b \<Longrightarrow> option_eq eq b c \<Longrightarrow> option_eq eq a c"
  by (cases a; cases b; cases c) (auto dest: transpD)

lemma declarations_trans:
  "transp json_eq" "transp schema_definition_eq" "transp reported_state_eq" "transp field_kept"
  "transp (\<lambda>a b. tr_protocol b = tr_protocol a \<and> tr_binding b = tr_binding a)"
  "transp (\<lambda>a b. json_eq (cm_input_schema a) (cm_input_schema b) \<and> json_eq (cm_result_schema a) (cm_result_schema b))"
  by (auto simp: transp_def schema_definition_eq_def reported_state_eq_def field_kept_def intro: json_eq_trans)

lemma stream_kept_trans: "transp stream_kept"
  unfolding transp_def stream_kept_def by (auto intro: kept_trans [OF declarations_trans(4)])

lemma equality_trans: "transp (=)"
  by (simp add: transp_def)

lemma substitutable_trans:
  assumes "substitutable p q" and "substitutable q r"
  shows "substitutable p r"
proof -
  note p = assms(1) [unfolded substitutable_def] and q = assms(2) [unfolded substitutable_def]
  note keeps = kept_trans [OF declarations_trans(2)] kept_trans [OF declarations_trans(5)]
    kept_trans [OF declarations_trans(6)] kept_trans [OF stream_kept_trans] kept_trans [OF equality_trans]
    option_eq_trans [OF declarations_trans(1)] option_eq_trans [OF declarations_trans(3)]
  have "runtime_kept (sp_runtime p) (sp_runtime r)"
    using p q unfolding runtime_kept_def by linarith
  moreover have "sp_location p = None \<or> sp_location r = sp_location p" using p q by auto
  ultimately show ?thesis
    unfolding substitutable_def using p q by (elim conjE) (intro conjI; (assumption | erule (1) keeps))
qed

lemma compare_keyed_same:
  assumes "distinct (map key xs)" and "\<And>x path. x \<in> set xs \<Longrightarrow> cmp x x path = []"
  shows "compare_keyed key xs xs path b cmp = []"
proof -
  let ?m = "bt_collect (map (\<lambda>item. (key item, item)) xs)"
  have "bt_get ?m k = Some x \<and> x \<in> set xs" if "(k, x) \<in> set ?m" for k x
    using that keyed_entries [OF assms(1), of k x] bt.entries_get [of ?m k x] by simp
  then show ?thesis
    using assms(2) by (auto simp: compare_keyed_def Let_def concat_map_Nil_iff bt_contains_key_def)
qed

lemma blueprint_changes_same:
  assumes "spec_ok (bp_spec bp)"
  shows "blueprint_changes bp bp = []"
proof -
  have "compare_stream s s path = []" if "s \<in> set (sp_streams (bp_spec bp))" for s path
    using that assms unfolding compare_stream_def
    by (auto simp: spec_ok_def stream_ok_def compare_field_def intro!: compare_keyed_same)
  moreover have "option_eq reported_state_eq x x" "option_eq json_eq y y" for x y
    by (cases x; cases y; simp add: reported_state_eq_def)+
  ultimately show ?thesis
    using assms unfolding blueprint_changes_def Let_def append_is_Nil_conv
    by (intro conjI compare_keyed_same)
      (auto simp: spec_ok_def compare_runtime_def compare_serialized_def compare_transport_def
        compare_schema_def compare_route_def compare_command_def schema_definition_eq_def
        command_definition_eq_def)
qed

text \<open>
  Revisions can be followed step by step: a revision compared with itself shows no change, and a
  chain of non-breaking revisions is non-breaking from its first to its last.
\<close>

theorem non_breaking_chains:
  assumes "validate_blueprint p = Ok vp" and "validate_blueprint q = Ok vq" and "validate_blueprint r = Ok vr"
  shows "co_changes (compare_blueprints vp vp) = []
    \<and> (\<not> co_breaking (compare_blueprints vp vq) \<and> \<not> co_breaking (compare_blueprints vq vr) \<longrightarrow>
         \<not> co_breaking (compare_blueprints vp vr))"
proof
  show "co_changes (compare_blueprints vp vp) = []"
    using validated_spec [OF assms(1)] blueprint_changes_same [of p] by (simp add: compare_blueprints_def Let_def)
  show "\<not> co_breaking (compare_blueprints vp vq) \<and> \<not> co_breaking (compare_blueprints vq vr) \<longrightarrow>
      \<not> co_breaking (compare_blueprints vp vr)"
    unfolding breaking_iff [OF assms(1,2)] breaking_iff [OF assms(2,3)] breaking_iff [OF assms(1,3)]
    using substitutable_trans by blast
qed

theorem non_breaking_chains_witness:
  "co_changes (compare_blueprints (ValidatedBlueprint sample_blueprint) (ValidatedBlueprint sample_blueprint)) = []
   \<and> \<not> co_breaking (compare_blueprints (ValidatedBlueprint sample_blueprint) (ValidatedBlueprint sample_revision))"
proof -
  have "\<not> co_breaking (compare_blueprints (ValidatedBlueprint sample_blueprint) (ValidatedBlueprint sample_revision))"
    by code_simp
  with non_breaking_chains [OF sample_validates sample_revision_validates sample_revision_validates]
  show ?thesis by simp
qed

section \<open>What contracts keep\<close>

lemma kept_lookup:
  assumes "kept key rel xs ys" and "distinct (map key ys)" and "x \<in> set xs"
  obtains y where "y \<in> set ys" and "key y = key x" and "rel x y"
  using assms by (auto simp: kept_def)

lemma kept_route:
  assumes "issued p S cx c" and "issued n S' cx' c'" and "substitutable (bp_spec p) (bp_spec n)"
    and "cx_device_id cx' = cx_device_id cx" and "bt_get (doc_routes (ct_document c)) k = Some r"
  shows "bt_get (doc_routes (ct_document c')) k = Some r"
proof -
  obtain d where d: "d \<in> set (sp_routes (bp_spec p))" "ro_key d = k" "r = compile_route cx d"
    using assms(5) unfolding issued_route [OF assms(1)] by blast
  then have "d \<in> set (sp_routes (bp_spec n))"
    using assms(3) by (auto simp: substitutable_def kept_def)
  with d assms(4) show ?thesis
    unfolding issued_route [OF assms(2)] by (auto simp: compile_route_def)
qed

lemma kept_stream:
  assumes "issued p S cx c" and "issued n S' cx' c'" and "substitutable (bp_spec p) (bp_spec n)"
    and "bt_get (doc_streams (ct_document c)) k = Some s"
  obtains s' where "bt_get (doc_streams (ct_document c')) k = Some s'"
    and "cst_route s' = cst_route s" and "cst_timestamp s' = cst_timestamp s"
    and "\<And>path f. bt_get (cst_fields s) path = Some f \<Longrightarrow>
      is_some_and (\<lambda>f'. cfd_value_type f' = cfd_value_type f \<and> cfd_unit f' = cfd_unit f
        \<and> cfd_semantic f' = cfd_semantic f) (bt_get (cst_fields s') path)"
proof -
  obtain d where d: "d \<in> set (sp_streams (bp_spec p))" "st_key d = k" "s = compile_stream d"
    using assms(4) unfolding issued_stream [OF assms(1)] by blast
  obtain e where e: "e \<in> set (sp_streams (bp_spec n))" "st_key e = k" "stream_kept d e"
    using assms(3) d by (auto simp: substitutable_def kept_def)
  have fd: "distinct (map fd_path (st_fields d))" "distinct (map fd_path (st_fields e))"
    using issued_spec_ok [OF assms(1)] issued_spec_ok [OF assms(2)] d(1) e(1)
    by (simp_all add: spec_ok_def stream_ok_def)
  show thesis
  proof (rule that)
    show "bt_get (doc_streams (ct_document c')) k = Some (compile_stream e)"
      using e unfolding issued_stream [OF assms(2)] by blast
    show "is_some_and (\<lambda>f'. cfd_value_type f' = cfd_value_type f \<and> cfd_unit f' = cfd_unit f
        \<and> cfd_semantic f' = cfd_semantic f) (bt_get (cst_fields (compile_stream e)) path)"
      if f: "bt_get (cst_fields s) path = Some f" for path f
    proof -
      obtain x where x: "x \<in> set (st_fields d)" "fd_path x = path" "f = compile_field x"
        using f d(3) fd(1) by (auto simp: compile_stream_def collect_lookup)
      obtain y where "y \<in> set (st_fields e)" "fd_path y = path" "field_kept x y"
        using e(3) x by (auto simp: stream_kept_def kept_def)
      with x fd(2) show ?thesis
        unfolding is_some_and_iff
        by (intro exI [of _ "compile_field y"])
          (auto simp: compile_stream_def collect_lookup compile_field_def field_kept_def)
    qed
  qed (use d e in \<open>auto simp: stream_kept_def compile_stream_def\<close>)
qed

text \<open>
  C29. A revision reported as non-breaking can replace the previous one under a device: of the
  contracts compiled from both for the same device, the newer keeps every route with its address,
  direction, schema and encoding, and every stream with its route, its timestamp source and the
  type, unit and meaning of each of its fields.
\<close>

theorem non_breaking_keeps_contract:
  assumes "validate_blueprint p = Ok vp" and "validate_blueprint n = Ok vn"
    and "compile S vp cx = Ok c" and "compile S' vn cx' = Ok c'" and "cx_device_id cx' = cx_device_id cx"
    and "\<not> co_breaking (compare_blueprints vp vn)"
  shows "(\<forall>k r. bt_get (doc_routes (ct_document c)) k = Some r \<longrightarrow>
      bt_get (doc_routes (ct_document c')) k = Some r)
    \<and> (\<forall>k s. bt_get (doc_streams (ct_document c)) k = Some s \<longrightarrow>
      (\<exists>s'. bt_get (doc_streams (ct_document c')) k = Some s'
         \<and> cst_route s' = cst_route s \<and> cst_timestamp s' = cst_timestamp s
         \<and> (\<forall>path f. bt_get (cst_fields s) path = Some f \<longrightarrow>
              is_some_and (\<lambda>f'. cfd_value_type f' = cfd_value_type f \<and> cfd_unit f' = cfd_unit f
                \<and> cfd_semantic f' = cfd_semantic f) (bt_get (cst_fields s') path))))"
proof -
  have i: "issued p S cx c" "issued n S' cx' c'" using assms by (auto simp: issued_def)
  have s: "substitutable (bp_spec p) (bp_spec n)"
    using assms(6) breaking_iff [OF assms(1,2)] by simp
  show ?thesis
  proof (intro conjI allI impI)
    show "bt_get (doc_routes (ct_document c')) k = Some r"
      if "bt_get (doc_routes (ct_document c)) k = Some r" for k r
      by (rule kept_route [OF i s assms(5) that])
    fix k x assume x: "bt_get (doc_streams (ct_document c)) k = Some x"
    show "\<exists>s'. bt_get (doc_streams (ct_document c')) k = Some s'
        \<and> cst_route s' = cst_route x \<and> cst_timestamp s' = cst_timestamp x
        \<and> (\<forall>path f. bt_get (cst_fields x) path = Some f \<longrightarrow>
             is_some_and (\<lambda>f'. cfd_value_type f' = cfd_value_type f \<and> cfd_unit f' = cfd_unit f
               \<and> cfd_semantic f' = cfd_semantic f) (bt_get (cst_fields s') path))"
      by (rule kept_stream [OF i s x]) (intro exI conjI allI impI; assumption)
  qed
qed

theorem non_breaking_keeps_contract_witness:
  "\<exists>c'. compile constant_serializer (ValidatedBlueprint sample_revision) sample_context = Ok c'
     \<and> map_option cro_address (bt_get (doc_routes (ct_document c')) ''events'')
         = Some ''extrittio/devices/dev-7/events''"
proof -
  have nb: "\<not> co_breaking (compare_blueprints (ValidatedBlueprint sample_blueprint) (ValidatedBlueprint sample_revision))"
    and c: "compile constant_serializer (ValidatedBlueprint sample_blueprint) sample_context = Ok sample_contract"
    and r: "bt_get (doc_routes (ct_document sample_contract)) ''events''
      = Some (compile_route sample_context (sample_route ''events'' DeviceToCloud))"
    and a: "cro_address (compile_route sample_context (sample_route ''events'' DeviceToCloud))
      = ''extrittio/devices/dev-7/events''"
    by code_simp+
  have "\<forall>t \<in> set (sp_transports (bp_spec sample_revision)). binding_ok sample_context t"
    and "layers_ok (bp_spec sample_revision) sample_context"
    using sample_context_ok by (simp_all add: sample_revision_def sample_blueprint_def layers_ok_def)
  then obtain c' where c': "compile constant_serializer (ValidatedBlueprint sample_revision) sample_context = Ok c'"
    using compile_succeeds [OF sample_revision_validates sample_serializes] sample_context_ok(1) by blast
  with non_breaking_keeps_contract [OF sample_validates sample_revision_validates c c' refl nb] r a
  show ?thesis by auto
qed

section \<open>What the comparison does not look at\<close>

text \<open>
  C38. Parts of a blueprint the comparison never reports: replacing health signals, firmware strategy
  and relationships, or the heartbeat, leaves the list of changes as it was; and moving a command to
  another request route is reported as a non-breaking change of metadata, where the same move of a
  stream is breaking.
\<close>

theorem unreported_revisions:
  "blueprint_changes p (n\<lparr>bp_spec := (bp_spec n)\<lparr>sp_health := h, sp_firmware := f, sp_relationships := r,
       sp_runtime := (sp_runtime (bp_spec n))\<lparr>rd_heartbeat := b\<rparr>\<rparr>\<rparr>) = blueprint_changes p n
   \<and> breaks (compare_command c (c\<lparr>cm_request_route := k\<rparr>) path) = False
   \<and> (\<not> breaks (compare_stream s (s\<lparr>st_route := k\<rparr>) path) \<longleftrightarrow>
        st_route s = k \<and> \<not> breaks (compare_stream s s path))"
  by (auto simp: blueprint_changes_def compare_runtime_def compare_command_def compare_stream_def Let_def)

end
