(* ===== verification/Net.thy ===== *)
theory Net
  imports Rust_Str "HOL-Library.Word"
begin

text \<open>
  Internet addresses as the standard library reads and prints them, the networks of trusted
  proxies (\<^verbatim>\<open>TrustedProxy\<close> and the CIDR tests of \<^verbatim>\<open>crates/backend/src/rate_limit.rs\<close>), and the string
  functions they use. An address is the machine word that \<^verbatim>\<open>u32::from\<close> and \<^verbatim>\<open>u128::from\<close> give.
\<close>

unbundle bit_operations_syntax

section \<open>Trimming and splitting\<close>

fun trim_start :: "string \<Rightarrow> string" where
  "trim_start [] = []"
| "trim_start (a # s) =
     (if is_ws1 a then trim_start s
      else case s of
        [] \<Rightarrow> [a]
      | b # t \<Rightarrow>
          if is_ws2 a b then trim_start t
          else (case t of [] \<Rightarrow> a # s | c # u \<Rightarrow> if is_ws3 a b c then trim_start u else a # s))"

text \<open>The same from the right, on the reversed bytes.\<close>

fun trim_reversed :: "string \<Rightarrow> string" where
  "trim_reversed [] = []"
| "trim_reversed (a # s) =
     (if is_ws1 a then trim_reversed s
      else case s of
        [] \<Rightarrow> [a]
      | b # t \<Rightarrow>
          if is_ws2 b a then trim_reversed t
          else (case t of [] \<Rightarrow> a # s | c # u \<Rightarrow> if is_ws3 c b a then trim_reversed u else a # s))"

definition trim :: "string \<Rightarrow> string" where
  "trim s = rev (trim_reversed (rev (trim_start s)))"

fun split_char :: "char \<Rightarrow> string \<Rightarrow> string list" where
  "split_char c [] = [[]]"
| "split_char c (x # s) =
     (if x = c then [] # split_char c s
      else case split_char c s of [] \<Rightarrow> [[x]] | w # ws \<Rightarrow> (x # w) # ws)"

section \<open>Reading addresses\<close>

datatype ip_addr = V4 "32 word" | V6 "128 word"

definition hex_digit :: "char \<Rightarrow> nat option" where
  "hex_digit c =
     (if is_ascii_digit c then Some (byte c - 48)
      else if 97 \<le> byte c \<and> byte c \<le> 102 then Some (byte c - 87)
      else if 65 \<le> byte c \<and> byte c \<le> 70 then Some (byte c - 55) else None)"

definition radix_digit :: "nat \<Rightarrow> char \<Rightarrow> nat option" where
  "radix_digit radix c = (case hex_digit c of Some d \<Rightarrow> if d < radix then Some d else None | None \<Rightarrow> None)"

fun span_digits :: "nat \<Rightarrow> string \<Rightarrow> nat list \<times> string" where
  "span_digits radix [] = ([], [])"
| "span_digits radix (c # s) =
     (case radix_digit radix c of
        None \<Rightarrow> ([], c # s)
      | Some d \<Rightarrow> let (ds, rest) = span_digits radix s in (d # ds, rest))"

definition read_number :: "nat \<Rightarrow> nat \<Rightarrow> bool \<Rightarrow> nat \<Rightarrow> string \<Rightarrow> (nat \<times> string) option" where
  "read_number radix max_digits zero_prefix bound s =
     (let (ds, rest) = span_digits radix s; v = foldl (\<lambda>n d. n * radix + d) 0 ds
      in if ds = [] \<or> max_digits < length ds \<or> (\<not> zero_prefix \<and> hd ds = 0 \<and> 1 < length ds) \<or> bound \<le> v
         then None else Some (v, rest))"

definition with_separator :: "char \<Rightarrow> nat \<Rightarrow> (string \<Rightarrow> ('a \<times> string) option) \<Rightarrow> string \<Rightarrow> ('a \<times> string) option" where
  "with_separator c i p s =
     (if i = 0 then p s else case s of [] \<Rightarrow> None | x # t \<Rightarrow> if x = c then p t else None)"

fun read_octets :: "nat \<Rightarrow> nat \<Rightarrow> string \<Rightarrow> (nat list \<times> string) option" where
  "read_octets 0 i s = Some ([], s)"
| "read_octets (Suc n) i s =
     (case with_separator (CHR ''.'') i (read_number 10 3 False 256) s of
        None \<Rightarrow> None
      | Some (v, t) \<Rightarrow> map_option (\<lambda>(vs, u). (v # vs, u)) (read_octets n (Suc i) t))"

definition read_ipv4 :: "string \<Rightarrow> (nat list \<times> string) option" where
  "read_ipv4 s = read_octets 4 0 s"

text \<open>Groups of an IPv6 address, at most \<open>n\<close> more from index \<open>i\<close>; the last two may be an IPv4 address.\<close>

fun read_groups :: "nat \<Rightarrow> nat \<Rightarrow> string \<Rightarrow> nat list \<times> bool \<times> string" where
  "read_groups 0 i s = ([], False, s)"
| "read_groups (Suc n) i s =
     (case (if n = 0 then None else with_separator (CHR '':'') i read_ipv4 s) of
        Some (os, t) \<Rightarrow> ([os ! 0 * 256 + os ! 1, os ! 2 * 256 + os ! 3], True, t)
      | None \<Rightarrow>
          (case with_separator (CHR '':'') i (read_number 16 4 True 65536) s of
             None \<Rightarrow> ([], False, s)
           | Some (g, t) \<Rightarrow> let (gs, v4, u) = read_groups n (Suc i) t in (g # gs, v4, u)))"

definition read_ipv6 :: "string \<Rightarrow> (nat list \<times> string) option" where
  "read_ipv6 s =
     (let (head, v4, rest) = read_groups 8 0 s
      in if length head = 8 then Some (head, rest)
         else if v4 then None
         else case rest of
           x # y # t \<Rightarrow>
             if x = CHR '':'' \<and> y = CHR '':'' then
               let (tail, _, u) = read_groups (7 - length head) 0 t
               in Some (head @ replicate (8 - length head - length tail) 0 @ tail, u)
             else None
         | _ \<Rightarrow> None)"

definition parse_ip :: "string \<Rightarrow> ip_addr option" where
  "parse_ip s =
     (case read_ipv4 s of
        Some (os, rest) \<Rightarrow> if rest = [] then Some (V4 (foldl (\<lambda>w d. w * 256 + of_nat d) 0 os)) else None
      | None \<Rightarrow>
          (case read_ipv6 s of
             Some (gs, rest) \<Rightarrow> if rest = [] then Some (V6 (foldl (\<lambda>w g. w * 65536 + of_nat g) 0 gs)) else None
           | None \<Rightarrow> None))"

section \<open>Printing addresses\<close>

definition show_ipv4 :: "nat \<Rightarrow> string" where
  "show_ipv4 n = join ''.'' (map (\<lambda>i. show_nat (n div 256 ^ i mod 256)) [3, 2, 1, 0])"

fun show_hex :: "nat \<Rightarrow> string" where
  "show_hex n = (if n < 16 then [] else show_hex (n div 16)) @ [''0123456789abcdef'' ! (n mod 16)]"

definition segments :: "nat \<Rightarrow> nat list" where
  "segments n = map (\<lambda>i. n div 65536 ^ i mod 65536) [7, 6, 5, 4, 3, 2, 1, 0]"

text \<open>The first longest run of zero segments, as its start and length.\<close>

fun longest_zeros :: "nat \<Rightarrow> nat \<times> nat \<Rightarrow> nat \<times> nat \<Rightarrow> nat list \<Rightarrow> nat \<times> nat" where
  "longest_zeros i longest cur [] = longest"
| "longest_zeros i longest cur (g # gs) =
     (if g = 0 then
        let cur' = (if snd cur = 0 then (i, 1) else (fst cur, Suc (snd cur)))
        in longest_zeros (Suc i) (if snd longest < snd cur' then cur' else longest) cur' gs
      else longest_zeros (Suc i) longest (0, 0) gs)"

definition show_ipv6 :: "nat \<Rightarrow> string" where
  "show_ipv6 n =
     (let gs = segments n; (start, len) = longest_zeros 0 (0, 0) (0, 0) gs
      in if take 6 gs = [0, 0, 0, 0, 0, 65535] then ''::ffff:'' @ show_ipv4 (n mod 2 ^ 32)
         else if 1 < len then
           join '':'' (map show_hex (take start gs)) @ ''::'' @ join '':'' (map show_hex (drop (start + len) gs))
         else join '':'' (map show_hex gs))"

fun show_ip :: "ip_addr \<Rightarrow> string" where
  "show_ip (V4 w) = show_ipv4 (unat w)"
| "show_ip (V6 w) = show_ipv6 (unat w)"

section \<open>Trusted proxies\<close>

record trusted_proxy =
  tp_network :: ip_addr
  tp_prefix_len :: nat

definition cidr_contains_v4 :: "32 word \<Rightarrow> 32 word \<Rightarrow> nat \<Rightarrow> bool" where
  "cidr_contains_v4 network ip prefix_len =
     (let mask = (if prefix_len = 0 then 0 else push_bit (32 - prefix_len) (- 1 :: 32 word))
      in network AND mask = ip AND mask)"

definition cidr_contains_v6 :: "128 word \<Rightarrow> 128 word \<Rightarrow> nat \<Rightarrow> bool" where
  "cidr_contains_v6 network ip prefix_len =
     (let mask = (if prefix_len = 0 then 0 else push_bit (128 - prefix_len) (- 1 :: 128 word))
      in network AND mask = ip AND mask)"

fun max_prefix :: "ip_addr \<Rightarrow> nat" where
  "max_prefix (V4 _) = 32"
| "max_prefix (V6 _) = 128"

definition trusted_proxy_parse :: "string \<Rightarrow> trusted_proxy option" where
  "trusted_proxy_parse s =
     Option.bind (case split_once ''/'' s of
        Some (addr, prefix) \<Rightarrow>
          Option.bind (parse_ip (trim addr)) (\<lambda>a.
          Option.bind (parse_unsigned 256 (trim prefix)) (\<lambda>n. Some (a, n)))
      | None \<Rightarrow> Option.bind (parse_ip (trim s)) (\<lambda>a. Some (a, max_prefix a)))
     (\<lambda>(a, n). if n \<le> max_prefix a then Some \<lparr>tp_network = a, tp_prefix_len = n\<rparr> else None)"

fun tp_contains :: "trusted_proxy \<Rightarrow> ip_addr \<Rightarrow> bool" where
  "tp_contains p ip = (case (tp_network p, ip) of
      (V4 network, V4 ip) \<Rightarrow> cidr_contains_v4 network ip (tp_prefix_len p)
    | (V6 network, V6 ip) \<Rightarrow> cidr_contains_v6 network ip (tp_prefix_len p)
    | _ \<Rightarrow> False)"

definition parse_trusted_proxies :: "string list \<Rightarrow> trusted_proxy list" where
  "parse_trusted_proxies vs =
     [\<lparr>tp_network = V4 (127 * 2 ^ 24), tp_prefix_len = 8\<rparr>, \<lparr>tp_network = V6 1, tp_prefix_len = 128\<rparr>]
     @ List.map_filter trusted_proxy_parse vs"

definition is_trusted_proxy_peer :: "ip_addr \<Rightarrow> trusted_proxy list \<Rightarrow> bool" where
  "is_trusted_proxy_peer ip proxies = list_ex (\<lambda>p. tp_contains p ip) proxies"

section \<open>Networks are prefixes\<close>

lemma masked_eq_iff_prefix:
  fixes a b :: "'a::len word"
  assumes "n \<le> LENGTH('a)"
  shows "a AND push_bit n (- 1) = b AND push_bit n (- 1) \<longleftrightarrow> drop_bit n a = drop_bit n b"
proof
  assume "a AND push_bit n (- 1) = b AND push_bit n (- 1)"
  then have "drop_bit n (a AND push_bit n (- 1)) = drop_bit n (b AND push_bit n (- 1))" by simp
  then show "drop_bit n a = drop_bit n b"
    by (auto simp: bit_eq_iff bit_simps dest: bit_imp_le_length)
next
  assume *: "drop_bit n a = drop_bit n b"
  show "a AND push_bit n (- 1) = b AND push_bit n (- 1)"
  proof (rule bit_eqI)
    fix k
    have "bit a k = bit b k" if "n \<le> k"
    proof -
      have "bit (drop_bit n a) (k - n) = bit (drop_bit n b) (k - n)" using * by simp
      with that show ?thesis by (simp add: bit_simps)
    qed
    then show "bit (a AND push_bit n (- 1)) k = bit (b AND push_bit n (- 1)) k"
      by (auto simp: bit_simps)
  qed
qed

end
