(* ===== verification/Identity.thy ===== *)
theory Identity
  imports Alerts Net
begin

text \<open>
  Users, roles and the first owner: \<^verbatim>\<open>crates/backend-core/src/users.rs\<close>, \<^verbatim>\<open>roles.rs\<close>, \<^verbatim>\<open>bootstrap.rs\<close> with
  their application services, over the tables of \<^verbatim>\<open>crates/backend-turso/src/{users,roles,bootstrap}.rs\<close>.
  A transaction returns the new tables, or an error that leaves them as they were. The clock,
  fresh authentication epochs and the password hasher are arguments. A new row gets the
  identifier the database engine documents for an integer primary key: one more than the largest in use.
\<close>

section \<open>Records\<close>

record role =
  role_id :: int
  role_tenant_id :: string
  role_name :: string
  role_description :: "string option"
  role_is_system :: bool
  role_created_at :: time
  role_updated_at :: time

record role_details =
  rd_role :: role
  rd_permissions :: "string list"
  rd_user_count :: nat

record new_role =
  nr_name :: string
  nr_description :: "string option"
  nr_permissions :: "string list"

record role_patch =
  rp_name :: "string option"
  rp_description :: "string option option"
  rp_permissions :: "string list option"

datatype update_role_outcome = RoleUpdated role_details | RoleNotFound | SystemRole
datatype delete_role_outcome = RoleDeleted | DeleteRoleNotFound | DeleteSystemRole | InUse string nat

record user =
  usr_id :: int
  usr_tenant_id :: string
  usr_username :: string
  usr_role :: string
  usr_created_at :: time
  usr_is_active :: bool
  usr_permission_version :: int
  usr_auth_epoch :: string
  usr_last_login_at :: "time option"

record user_details =
  ud_user :: user
  ud_roles :: "role list"
  ud_permissions :: "string list"

record user_credentials =
  uc_details :: user_details
  uc_password_hash :: string

record new_user =
  nu_username :: string
  nu_password_hash :: string
  nu_role_ids :: "int list option"

datatype create_user_outcome = UserCreated user_details | CreateRolesNotFound
datatype change_password_outcome = PasswordChanged | PasswordUserNotFound
datatype delete_user_outcome = UserDeleted | DeleteUserNotFound | WouldDeleteLastOwner
datatype set_user_roles_outcome = RolesUpdated user_details | UserNotFound | RolesNotFound | WouldRemoveLastOwner
datatype record_login_outcome = LoginRecorded | LoginUserNotFound
datatype seed_owner_outcome = OwnerCreated | SkippedUsersExist

definition OWNER_ROLE :: string where "OWNER_ROLE = ''owner''"
definition ADMIN_ROLE :: string where "ADMIN_ROLE = ''admin''"
definition OPERATOR_ROLE :: string where "OPERATOR_ROLE = ''operator''"
definition VIEWER_ROLE :: string where "VIEWER_ROLE = ''viewer''"

section \<open>Tables\<close>

record user_row =
  us_id :: int
  us_tenant_id :: string
  us_username :: string
  us_password_hash :: string
  us_role :: string
  us_is_active :: bool
  us_auth_epoch :: string
  us_permission_version :: int
  us_last_login_at :: "int option"
  us_created_at :: int

record role_row =
  rw_id :: int
  rw_tenant_id :: string
  rw_name :: string
  rw_description :: "string option"
  rw_is_system :: bool
  rw_created_at :: int
  rw_updated_at :: int

record user_role_row =
  ur_user_id :: int
  ur_role_id :: int
  ur_tenant_id :: string
  ur_created_at :: int

record identity_db =
  id_tenants :: "string list"
  id_users :: "user_row list"
  id_roles :: "role_row list"
  id_permissions :: "(int \<times> string) list"
  id_user_roles :: "user_role_row list"

definition next_rowid :: "int list \<Rightarrow> int" where
  "next_rowid ids = (if ids = [] then 1 else Max (set ids) + 1)"

text \<open>Messages of the driver, translated by their text.\<close>

definition map_constraint :: "string \<Rightarrow> persistence_error" where
  "map_constraint message =
     (let n = map to_ascii_lowercase message
      in if contains_str ''unique'' n \<or> contains_str ''primary key'' n then
           UniqueViolation
             (if contains_str ''roles.tenant_id'' n \<and> contains_str ''roles.name'' n then ''roles.tenant_name''
              else if contains_str ''roles.id'' n then ''roles.id''
              else if contains_str ''users.tenant_id'' n \<and> contains_str ''users.username'' n
                \<or> contains_str ''users.(tenant_id, username)'' n then ''users.tenant_username''
              else if contains_str ''users.id'' n then ''users.id''
              else if contains_str ''zones.tenant_id'' n \<and> contains_str ''zones.name'' n then ''zones.tenant_name''
              else if contains_str ''zones.id'' n then ''zones.id''
              else ''unique'')
         else if contains_str ''foreign key'' n then ForeignKeyViolation ''foreign_key''
         else if contains_str ''check'' n then CheckViolation ''check''
         else Internal (''database constraint rejected the operation: '' @ message))"

section \<open>Reading users and roles\<close>

definition decode_tenant :: "string \<Rightarrow> (persistence_error, string) result" where
  "decode_tenant t = (case tenant_id_new t of Inl _ \<Rightarrow> Err (CorruptData ''tenant id must not be empty'') | Inr t \<Rightarrow> Ok t)"

definition decode_user :: "micros_api \<Rightarrow> user_row \<Rightarrow> (persistence_error, user) result" where
  "decode_user ch r =
     rbind (row_i32 (us_id r) ''users.id'') (\<lambda>i.
     rbind (decode_tenant (us_tenant_id r)) (\<lambda>tenant.
     rbind (row_datetime ch (us_created_at r)) (\<lambda>created_at.
     rbind (row_i32 (us_permission_version r) ''users.permission_version'') (\<lambda>version.
     rbind (row_datetime_option ch (us_last_login_at r)) (\<lambda>last_login_at.
     Ok \<lparr>usr_id = i, usr_tenant_id = tenant, usr_username = us_username r, usr_role = us_role r,
         usr_created_at = created_at, usr_is_active = us_is_active r, usr_permission_version = version,
         usr_auth_epoch = us_auth_epoch r, usr_last_login_at = last_login_at\<rparr>)))))"

definition decode_role :: "micros_api \<Rightarrow> role_row \<Rightarrow> (persistence_error, role) result" where
  "decode_role ch r =
     rbind (row_i32 (rw_id r) ''roles.id'') (\<lambda>i.
     rbind (decode_tenant (rw_tenant_id r)) (\<lambda>tenant.
     rbind (row_datetime ch (rw_created_at r)) (\<lambda>created_at.
     rbind (row_datetime ch (rw_updated_at r)) (\<lambda>updated_at.
     Ok \<lparr>role_id = i, role_tenant_id = tenant, role_name = rw_name r, role_description = rw_description r,
         role_is_system = rw_is_system r, role_created_at = created_at, role_updated_at = updated_at\<rparr>))))"

fun decode_roles :: "micros_api \<Rightarrow> role_row list \<Rightarrow> (persistence_error, role list) result" where
  "decode_roles ch [] = Ok []"
| "decode_roles ch (r # rows) =
     rbind (decode_role ch r) (\<lambda>a. rbind (decode_roles ch rows) (\<lambda>as. Ok (a # as)))"

definition assigned :: "identity_db \<Rightarrow> string \<Rightarrow> int \<Rightarrow> int \<Rightarrow> bool" where
  "assigned db tenant user_id i \<longleftrightarrow>
     (\<exists>a \<in> set (id_user_roles db). ur_tenant_id a = tenant \<and> ur_user_id a = user_id \<and> ur_role_id a = i)"

definition hydrate ::
  "micros_api \<Rightarrow> identity_db \<Rightarrow> string \<Rightarrow> int \<Rightarrow> (persistence_error, user_details option) result" where
  "hydrate ch db tenant user_id =
     (case find (\<lambda>r. us_tenant_id r = tenant \<and> us_id r = user_id) (id_users db) of
        None \<Rightarrow> Ok None
      | Some r \<Rightarrow>
          rbind (decode_user ch r) (\<lambda>u.
          rbind (decode_roles ch (sort_key (\<lambda>w. (rw_name w, rw_id w))
                   (filter (\<lambda>w. rw_tenant_id w = tenant \<and> assigned db tenant user_id (rw_id w)) (id_roles db)))) (\<lambda>roles.
          Ok (Some \<lparr>ud_user = u, ud_roles = roles,
            ud_permissions = sorted_list_of_set (snd ` set (filter (\<lambda>(i, _). assigned db tenant user_id i) (id_permissions db)))\<rparr>))))"

definition selected_roles ::
  "micros_api \<Rightarrow> identity_db \<Rightarrow> string \<Rightarrow> int list option \<Rightarrow> (persistence_error, role list option) result" where
  "selected_roles ch db tenant requested =
     rbind (decode_roles ch (sort_key (\<lambda>w. (rw_name w, rw_id w)) (filter (\<lambda>w. rw_tenant_id w = tenant) (id_roles db)))) (\<lambda>available.
     Ok (case requested of
           Some ids \<Rightarrow>
             let selected = filter (\<lambda>r. role_id r \<in> set ids) available
             in if length selected = card (set ids) then Some selected else None
         | None \<Rightarrow> map_option (\<lambda>r. [r]) (find (\<lambda>r. role_name r = VIEWER_ROLE) available)))"

definition primary_role_name :: "role list \<Rightarrow> string option" where
  "primary_role_name roles =
     (case find (\<lambda>r. role_name r = OWNER_ROLE) roles of
        Some r \<Rightarrow> Some (role_name r)
      | None \<Rightarrow>
          (case find (\<lambda>r. role_name r = ADMIN_ROLE) roles of
             Some r \<Rightarrow> Some (role_name r)
           | None \<Rightarrow> (case roles of [] \<Rightarrow> None | r # _ \<Rightarrow> Some (role_name r))))"

definition primary_role :: "role list \<Rightarrow> string" where
  "primary_role roles = unwrap_or VIEWER_ROLE (primary_role_name roles)"

section \<open>Writing users\<close>

fun insert_user_roles ::
  "int \<Rightarrow> string \<Rightarrow> int \<Rightarrow> role list \<Rightarrow> user_role_row list \<Rightarrow> (persistence_error, user_role_row list) result" where
  "insert_user_roles now tenant user_id [] rows = Ok rows"
| "insert_user_roles now tenant user_id (r # roles) rows =
     (if \<exists>a \<in> set rows. ur_user_id a = user_id \<and> ur_role_id a = role_id r
      then Err (map_constraint ''UNIQUE constraint failed: user_roles.(user_id, role_id) (19)'')
      else insert_user_roles now tenant user_id roles
        (rows @ [\<lparr>ur_user_id = user_id, ur_role_id = role_id r, ur_tenant_id = tenant, ur_created_at = now\<rparr>]))"

abbreviation user_at :: "string \<Rightarrow> int \<Rightarrow> user_row \<Rightarrow> bool" where
  "user_at tenant user_id u \<equiv> us_tenant_id u = tenant \<and> us_id u = user_id"

definition bump_version :: "user_row \<Rightarrow> user_row" where
  "bump_version u = u\<lparr>us_permission_version := us_permission_version u + 1\<rparr>"

definition replace_roles ::
  "int \<Rightarrow> string \<Rightarrow> int \<Rightarrow> role list \<Rightarrow> identity_db \<Rightarrow> (persistence_error, identity_db) result" where
  "replace_roles now tenant user_id roles db =
     rbind (insert_user_roles now tenant user_id roles
              (filter (\<lambda>a. \<not> (ur_tenant_id a = tenant \<and> ur_user_id a = user_id)) (id_user_roles db))) (\<lambda>rows.
     Ok (db\<lparr>id_user_roles := rows,
            id_users := update_where (user_at tenant user_id)
              (\<lambda>u. (bump_version u)\<lparr>us_role := primary_role roles\<rparr>) (id_users db)\<rparr>))"

text \<open>The owner role of the tenant, whether the user has it, and how many users have it.\<close>

definition owner_state :: "identity_db \<Rightarrow> string \<Rightarrow> int \<Rightarrow> (persistence_error, int option \<times> bool \<times> nat) result" where
  "owner_state db tenant user_id =
     (case find (\<lambda>w. rw_tenant_id w = tenant \<and> rw_name w = ''owner'') (id_roles db) of
        None \<Rightarrow> Ok (None, False, 0)
      | Some w \<Rightarrow>
          rbind (row_i32 (rw_id w) ''roles.id'') (\<lambda>i.
          Ok (Some i, assigned db tenant user_id (rw_id w),
              card (ur_user_id ` {a \<in> set (id_user_roles db). ur_tenant_id a = tenant \<and> ur_role_id a = rw_id w}))))"

definition new_user_row :: "int \<Rightarrow> string \<Rightarrow> string \<Rightarrow> string \<Rightarrow> string \<Rightarrow> string \<Rightarrow> int \<Rightarrow> int \<Rightarrow> user_row" where
  "new_user_row now epoch tenant username hash primary version i =
     \<lparr>us_id = i, us_tenant_id = tenant, us_username = username, us_password_hash = hash, us_role = primary,
      us_is_active = True, us_auth_epoch = epoch, us_permission_version = version, us_last_login_at = None,
      us_created_at = now\<rparr>"

definition insert_user ::
  "int \<Rightarrow> string \<Rightarrow> string \<Rightarrow> string \<Rightarrow> string \<Rightarrow> string \<Rightarrow> int \<Rightarrow> identity_db
     \<Rightarrow> (string, int \<times> identity_db) result" where
  "insert_user now epoch tenant username hash primary version db =
     (if tenant \<notin> set (id_tenants db) then Err ''FOREIGN KEY constraint failed''
      else if \<exists>u \<in> set (id_users db). us_tenant_id u = tenant \<and> us_username u = username
      then Err ''UNIQUE constraint failed: users.(tenant_id, username) (19)''
      else if \<exists>u \<in> set (id_users db). us_auth_epoch u = epoch
      then Err ''UNIQUE constraint failed: users.auth_epoch (19)''
      else if epoch = [] then Err ''CHECK constraint failed: length(auth_epoch) > 0''
      else let i = next_rowid (map us_id (id_users db))
           in Ok (i, db\<lparr>id_users := id_users db @ [new_user_row now epoch tenant username hash primary version i]\<rparr>))"

definition constraint_error :: "(string, 'a) result \<Rightarrow> (persistence_error, 'a) result" where
  "constraint_error r = (case r of Inl m \<Rightarrow> Err (map_constraint m) | Inr x \<Rightarrow> Ok x)"

definition create_user ::
  "micros_api \<Rightarrow> int \<Rightarrow> int \<Rightarrow> string \<Rightarrow> string \<Rightarrow> new_user \<Rightarrow> identity_db
     \<Rightarrow> (persistence_error, create_user_outcome \<times> identity_db) result" where
  "create_user ch now later epoch tenant n db =
     rbind (selected_roles ch db tenant (nu_role_ids n)) (\<lambda>selected. case selected of
        None \<Rightarrow> Ok (CreateRolesNotFound, db)
      | Some roles \<Rightarrow>
          rbind (constraint_error (insert_user now epoch tenant (nu_username n) (nu_password_hash n) (primary_role roles) 1 db)) (\<lambda>(rowid, db1).
          rbind (row_i32 rowid ''users.id'') (\<lambda>user_id.
          rbind (replace_roles later tenant user_id roles db1) (\<lambda>db2.
          rbind (hydrate ch db2 tenant user_id) (\<lambda>details. case details of
             None \<Rightarrow> Err NotFound
           | Some d \<Rightarrow> Ok (UserCreated d, db2))))))"

definition change_password :: "string \<Rightarrow> int \<Rightarrow> string \<Rightarrow> identity_db \<Rightarrow> change_password_outcome \<times> identity_db" where
  "change_password tenant user_id hash db =
     (if list_ex (user_at tenant user_id) (id_users db) then PasswordChanged else PasswordUserNotFound,
      db\<lparr>id_users := update_where (user_at tenant user_id) (\<lambda>u. (bump_version u)\<lparr>us_password_hash := hash\<rparr>) (id_users db)\<rparr>)"

definition remove_user :: "string \<Rightarrow> int \<Rightarrow> identity_db \<Rightarrow> identity_db" where
  "remove_user tenant user_id db =
     db\<lparr>id_users := filter (\<lambda>u. \<not> user_at tenant user_id u) (id_users db),
        id_user_roles := filter (\<lambda>a. \<not> (ur_tenant_id a = tenant \<and> ur_user_id a = user_id)) (id_user_roles db)\<rparr>"

definition delete_user ::
  "micros_api \<Rightarrow> string \<Rightarrow> int \<Rightarrow> identity_db \<Rightarrow> (persistence_error, delete_user_outcome \<times> identity_db) result" where
  "delete_user ch tenant user_id db =
     rbind (hydrate ch db tenant user_id) (\<lambda>found.
     if found = None then Ok (DeleteUserNotFound, db)
     else rbind (owner_state db tenant user_id) (\<lambda>(_, is_owner, owner_count).
       if is_owner \<and> owner_count \<le> 1 then Ok (WouldDeleteLastOwner, db)
       else Ok (UserDeleted, remove_user tenant user_id db)))"

definition set_roles ::
  "micros_api \<Rightarrow> int \<Rightarrow> string \<Rightarrow> int \<Rightarrow> int list \<Rightarrow> identity_db
     \<Rightarrow> (persistence_error, set_user_roles_outcome \<times> identity_db) result" where
  "set_roles ch now tenant user_id role_ids db =
     rbind (hydrate ch db tenant user_id) (\<lambda>found.
     if found = None then Ok (UserNotFound, db)
     else rbind (selected_roles ch db tenant (Some role_ids)) (\<lambda>selected. case selected of
        None \<Rightarrow> Ok (RolesNotFound, db)
      | Some roles \<Rightarrow>
          rbind (owner_state db tenant user_id) (\<lambda>(owner_id, is_owner, owner_count).
          if is_owner \<and> owner_count \<le> 1 \<and> \<not> is_some_and (\<lambda>i. \<exists>r \<in> set roles. role_id r = i) owner_id
          then Ok (WouldRemoveLastOwner, db)
          else rbind (replace_roles now tenant user_id roles db) (\<lambda>db'.
               rbind (hydrate ch db' tenant user_id) (\<lambda>details. case details of
                  None \<Rightarrow> Err NotFound
                | Some d \<Rightarrow> Ok (RolesUpdated d, db'))))))"

definition find_credentials ::
  "micros_api \<Rightarrow> identity_db \<Rightarrow> string \<Rightarrow> string \<Rightarrow> (persistence_error, user_credentials option) result" where
  "find_credentials ch db tenant username =
     (case find (\<lambda>u. us_tenant_id u = tenant \<and> us_username u = username) (id_users db) of
        None \<Rightarrow> Ok None
      | Some u \<Rightarrow>
          rbind (row_i32 (us_id u) ''users.id'') (\<lambda>i.
          rbind (hydrate ch db tenant i) (\<lambda>details.
          Ok (map_option (\<lambda>d. \<lparr>uc_details = d, uc_password_hash = us_password_hash u\<rparr>) details))))"

definition record_login :: "micros_api \<Rightarrow> string \<Rightarrow> int \<Rightarrow> time \<Rightarrow> identity_db \<Rightarrow> record_login_outcome \<times> identity_db" where
  "record_login ch tenant user_id at_time db =
     (if list_ex (user_at tenant user_id) (id_users db) then LoginRecorded else LoginUserNotFound,
      db\<lparr>id_users := update_where (user_at tenant user_id)
        (\<lambda>u. u\<lparr>us_last_login_at := Some (timestamp_micros ch at_time)\<rparr>) (id_users db)\<rparr>)"

record page_request =
  pq_limit :: int
  pq_offset :: int

datatype page_request_error = NonPositiveLimit | NegativeOffset

definition page_request_new :: "int \<Rightarrow> int \<Rightarrow> (page_request_error, page_request) result" where
  "page_request_new limit offset =
     (if limit \<le> 0 then Err NonPositiveLimit else if offset < 0 then Err NegativeOffset
      else Ok \<lparr>pq_limit = limit, pq_offset = offset\<rparr>)"

fun hydrate_all ::
  "micros_api \<Rightarrow> identity_db \<Rightarrow> string \<Rightarrow> int list \<Rightarrow> (persistence_error, user_details list) result" where
  "hydrate_all ch db tenant [] = Ok []"
| "hydrate_all ch db tenant (i # ids) =
     rbind (hydrate ch db tenant i) (\<lambda>d.
     rbind (hydrate_all ch db tenant ids) (\<lambda>ds. Ok (case d of None \<Rightarrow> ds | Some d \<Rightarrow> d # ds)))"

fun row_ids :: "int list \<Rightarrow> string \<Rightarrow> (persistence_error, int list) result" where
  "row_ids [] column = Ok []"
| "row_ids (i # ids) column = rbind (row_i32 i column) (\<lambda>j. rbind (row_ids ids column) (\<lambda>js. Ok (j # js)))"

definition list_users ::
  "micros_api \<Rightarrow> string \<Rightarrow> page_request \<Rightarrow> identity_db \<Rightarrow> (persistence_error, user_details list \<times> nat) result" where
  "list_users ch tenant page db =
     (let mine = filter (\<lambda>u. us_tenant_id u = tenant) (id_users db);
          ordered = sort_key (\<lambda>u. (us_username u, us_id u)) mine
      in rbind (row_ids (map us_id (take (nat (pq_limit page)) (drop (nat (pq_offset page)) ordered))) ''users.id'') (\<lambda>ids.
         rbind (hydrate_all ch db tenant ids) (\<lambda>records. Ok (records, length mine))))"

section \<open>Writing roles\<close>

definition role_details_of ::
  "micros_api \<Rightarrow> identity_db \<Rightarrow> string \<Rightarrow> int \<Rightarrow> (persistence_error, role_details option) result" where
  "role_details_of ch db tenant i =
     (case find (\<lambda>w. rw_tenant_id w = tenant \<and> rw_id w = i) (id_roles db) of
        None \<Rightarrow> Ok None
      | Some w \<Rightarrow>
          rbind (decode_role ch w) (\<lambda>r.
          Ok (Some \<lparr>rd_role = r, rd_permissions = sort (map snd (filter (\<lambda>(j, _). j = i) (id_permissions db))),
            rd_user_count = count_where (\<lambda>a. ur_tenant_id a = tenant \<and> ur_role_id a = i) (id_user_roles db)\<rparr>)))"

fun role_details_all ::
  "micros_api \<Rightarrow> identity_db \<Rightarrow> string \<Rightarrow> int list \<Rightarrow> (persistence_error, role_details list) result" where
  "role_details_all ch db tenant [] = Ok []"
| "role_details_all ch db tenant (i # ids) =
     rbind (role_details_of ch db tenant i) (\<lambda>d.
     rbind (role_details_all ch db tenant ids) (\<lambda>ds. Ok (case d of None \<Rightarrow> ds | Some d \<Rightarrow> d # ds)))"

definition list_roles ::
  "micros_api \<Rightarrow> string \<Rightarrow> identity_db \<Rightarrow> (persistence_error, role_details list) result" where
  "list_roles ch tenant db =
     rbind (row_ids (map rw_id (sort_key (\<lambda>w. (\<not> rw_is_system w, rw_name w, rw_id w))
              (filter (\<lambda>w. rw_tenant_id w = tenant) (id_roles db)))) ''roles.id'') (role_details_all ch db tenant)"

fun insert_permissions :: "int \<Rightarrow> string list \<Rightarrow> (int \<times> string) list \<Rightarrow> (persistence_error, (int \<times> string) list) result" where
  "insert_permissions i [] rows = Ok rows"
| "insert_permissions i (p # ps) rows =
     (if (i, p) \<in> set rows then Err (map_constraint ''UNIQUE constraint failed: role_permissions.(role_id, permission) (19)'')
      else insert_permissions i ps (rows @ [(i, p)]))"

definition role_name_taken :: persistence_error where
  "role_name_taken = UniqueViolation ''roles.tenant_name''"

definition create_role ::
  "micros_api \<Rightarrow> int \<Rightarrow> string \<Rightarrow> new_role \<Rightarrow> identity_db \<Rightarrow> (persistence_error, role_details \<times> identity_db) result" where
  "create_role ch now tenant n db =
     (if tenant \<notin> set (id_tenants db) then Err (map_constraint ''FOREIGN KEY constraint failed'')
      else if \<exists>w \<in> set (id_roles db). rw_tenant_id w = tenant \<and> rw_name w = nr_name n then Err role_name_taken
      else let rowid = next_rowid (map rw_id (id_roles db));
               w = \<lparr>rw_id = rowid, rw_tenant_id = tenant, rw_name = nr_name n, rw_description = nr_description n,
                    rw_is_system = False, rw_created_at = now, rw_updated_at = now\<rparr>
           in rbind (row_i32 rowid ''roles.id'') (\<lambda>i.
              rbind (insert_permissions i (nr_permissions n) (id_permissions db)) (\<lambda>ps.
              let db' = db\<lparr>id_roles := id_roles db @ [w], id_permissions := ps\<rparr>
              in rbind (role_details_of ch db' tenant i) (\<lambda>d. case d of
                   None \<Rightarrow> Err NotFound
                 | Some d \<Rightarrow> Ok (d, db')))))"

abbreviation role_at :: "string \<Rightarrow> int \<Rightarrow> role_row \<Rightarrow> bool" where
  "role_at tenant i w \<equiv> rw_tenant_id w = tenant \<and> rw_id w = i"

definition patch_name :: "string \<Rightarrow> int \<Rightarrow> string option \<Rightarrow> identity_db \<Rightarrow> (persistence_error, identity_db) result" where
  "patch_name tenant i name db = (case name of
      None \<Rightarrow> Ok db
    | Some name \<Rightarrow>
        if \<exists>w \<in> set (id_roles db). rw_tenant_id w = tenant \<and> rw_name w = name \<and> rw_id w \<noteq> i then Err role_name_taken
        else Ok (db\<lparr>id_roles := update_where (role_at tenant i) (\<lambda>w. w\<lparr>rw_name := name\<rparr>) (id_roles db)\<rparr>))"

definition patch_description :: "string \<Rightarrow> int \<Rightarrow> string option option \<Rightarrow> identity_db \<Rightarrow> identity_db" where
  "patch_description tenant i description db = (case description of
      None \<Rightarrow> db
    | Some d \<Rightarrow> db\<lparr>id_roles := update_where (role_at tenant i) (\<lambda>w. w\<lparr>rw_description := d\<rparr>) (id_roles db)\<rparr>)"

definition patch_permissions ::
  "string \<Rightarrow> int \<Rightarrow> string list option \<Rightarrow> identity_db \<Rightarrow> (persistence_error, identity_db) result" where
  "patch_permissions tenant i permissions db = (case permissions of
      None \<Rightarrow> Ok db
    | Some ps \<Rightarrow>
        rbind (insert_permissions i ps (filter (\<lambda>(j, _). j \<noteq> i) (id_permissions db))) (\<lambda>rows.
        Ok (db\<lparr>id_permissions := rows,
               id_users := update_where (\<lambda>u. us_tenant_id u = tenant \<and> assigned db tenant (us_id u) i) bump_version
                 (id_users db)\<rparr>)))"

definition update_role ::
  "micros_api \<Rightarrow> int \<Rightarrow> string \<Rightarrow> int \<Rightarrow> role_patch \<Rightarrow> identity_db
     \<Rightarrow> (persistence_error, update_role_outcome \<times> identity_db) result" where
  "update_role ch clock tenant i patch db =
     rbind (role_details_of ch db tenant i) (\<lambda>found. case found of
        None \<Rightarrow> Ok (RoleNotFound, db)
      | Some current \<Rightarrow>
          if role_is_system (rd_role current) then Ok (SystemRole, db)
          else if timestamp_micros ch (role_updated_at (rd_role current)) = i64_max
          then Err (CorruptData ''roles.updated_at cannot advance beyond i64 microseconds'')
          else
            let now = max clock (timestamp_micros ch (role_updated_at (rd_role current)) + 1);
                db1 = db\<lparr>id_roles := update_where (role_at tenant i) (\<lambda>w. w\<lparr>rw_updated_at := now\<rparr>) (id_roles db)\<rparr>
            in rbind (patch_name tenant i (rp_name patch) db1) (\<lambda>db2.
               rbind (patch_permissions tenant i (rp_permissions patch)
                        (patch_description tenant i (rp_description patch) db2)) (\<lambda>db3.
               rbind (role_details_of ch db3 tenant i) (\<lambda>d. case d of
                  None \<Rightarrow> Err NotFound
                | Some d \<Rightarrow> Ok (RoleUpdated d, db3)))))"

definition remove_role :: "string \<Rightarrow> int \<Rightarrow> identity_db \<Rightarrow> identity_db" where
  "remove_role tenant i db =
     db\<lparr>id_roles := filter (\<lambda>w. \<not> role_at tenant i w) (id_roles db),
        id_permissions := filter (\<lambda>(j, _). j \<noteq> i) (id_permissions db),
        id_user_roles := filter (\<lambda>a. \<not> (ur_tenant_id a = tenant \<and> ur_role_id a = i)) (id_user_roles db)\<rparr>"

definition delete_role ::
  "micros_api \<Rightarrow> string \<Rightarrow> int \<Rightarrow> identity_db \<Rightarrow> (persistence_error, delete_role_outcome \<times> identity_db) result" where
  "delete_role ch tenant i db =
     rbind (role_details_of ch db tenant i) (\<lambda>found. case found of
        None \<Rightarrow> Ok (DeleteRoleNotFound, db)
      | Some current \<Rightarrow>
          if role_is_system (rd_role current) then Ok (DeleteSystemRole, db)
          else if 0 < rd_user_count current then Ok (InUse (role_name (rd_role current)) (rd_user_count current), db)
          else Ok (RoleDeleted, remove_role tenant i db))"

section \<open>The first owner\<close>

definition owner_role_row :: "int \<Rightarrow> string \<Rightarrow> int \<Rightarrow> role_row" where
  "owner_role_row now tenant i =
     \<lparr>rw_id = i, rw_tenant_id = tenant, rw_name = ''owner'',
      rw_description = Some ''Full tenant owner with all permissions and lockout protection.'',
      rw_is_system = True, rw_created_at = now, rw_updated_at = now\<rparr>"

definition ensure_owner_role :: "int \<Rightarrow> string \<Rightarrow> role_row list \<Rightarrow> role_row list" where
  "ensure_owner_role now tenant rows =
     (if \<exists>w \<in> set rows. rw_tenant_id w = tenant \<and> rw_name w = ''owner'' then rows
      else rows @ [owner_role_row now tenant (next_rowid (map rw_id rows))])"

definition grant_all :: "int \<Rightarrow> (int \<times> string) list \<Rightarrow> (int \<times> string) list" where
  "grant_all i rows = fold (\<lambda>p rows. if (i, permission_key p) \<in> set rows then rows else rows @ [(i, permission_key p)])
     ALL_PERMISSIONS rows"

text \<open>Here every failure of the driver is an internal error with its text.\<close>

definition seed_owner_if_empty ::
  "(string \<Rightarrow> string) \<Rightarrow> int \<Rightarrow> string \<Rightarrow> string \<Rightarrow> string \<Rightarrow> string \<Rightarrow> identity_db
     \<Rightarrow> (persistence_error, seed_owner_outcome \<times> identity_db) result" where
  "seed_owner_if_empty driver_text now epoch tenant username hash db =
     (if id_users db \<noteq> [] then Ok (SkippedUsersExist, db)
      else if tenant \<notin> set (id_tenants db) then Err (Internal (driver_text ''FOREIGN KEY constraint failed''))
      else let roles = ensure_owner_role now tenant (id_roles db)
           in case find (\<lambda>w. rw_tenant_id w = tenant \<and> rw_name w = ''owner'') roles of
                None \<Rightarrow> Err NotFound
              | Some w \<Rightarrow>
                  (case insert_user now epoch tenant username hash ''owner'' 2
                          (db\<lparr>id_roles := roles, id_permissions := grant_all (rw_id w) (id_permissions db)\<rparr>) of
                     Inl m \<Rightarrow> Err (Internal (driver_text m))
                   | Inr (i, db') \<Rightarrow>
                       if \<exists>a \<in> set (id_user_roles db'). ur_user_id a = i \<and> ur_role_id a = rw_id w
                       then Err (Internal (driver_text ''UNIQUE constraint failed: user_roles.(user_id, role_id) (19)''))
                       else Ok (OwnerCreated, db'\<lparr>id_user_roles := id_user_roles db'
                         @ [\<lparr>ur_user_id = i, ur_role_id = rw_id w, ur_tenant_id = tenant, ur_created_at = now\<rparr>]\<rparr>)))"

section \<open>The application\<close>

record hasher_api =
  hash_password :: "string \<Rightarrow> (string, string) result"
  verify_password :: "string \<Rightarrow> string \<Rightarrow> (string, bool) result"

definition MIN_PASSWORD_LEN :: nat where
  "MIN_PASSWORD_LEN = 12"

definition validate_username_characters :: "string \<Rightarrow> (application_error, unit) result" where
  "validate_username_characters username =
     (if CHR 0x00 \<in> set username then Err (InvalidInput ''Username must not contain NUL characters'') else Ok ())"

definition validate_password :: "string \<Rightarrow> (application_error, unit) result" where
  "validate_password password =
     (if length password < MIN_PASSWORD_LEN
      then Err (InvalidInput (''Password must be at least '' @ show_nat MIN_PASSWORD_LEN @ '' characters''))
      else if list_ex is_ascii_lowercase password \<and> list_ex is_ascii_uppercase password
        \<and> list_ex is_ascii_digit password \<and> list_ex (\<lambda>c. \<not> is_ascii_alphanumeric c) password
      then Ok ()
      else Err (InvalidInput ''Password must include lowercase, uppercase, number, and symbol characters''))"

definition normalize_role_ids :: "int list \<Rightarrow> int list" where
  "normalize_role_ids ids = remdups_adj (sort ids)"

definition map_user_write_error :: "persistence_error \<Rightarrow> string \<Rightarrow> application_error" where
  "map_user_write_error e username = (case e of
      UniqueViolation _ \<Rightarrow> Conflict (''Username '' @ quoted username @ '' already exists'')
    | _ \<Rightarrow> Persistence e)"

definition user_list_request ::
  "micros_api \<Rightarrow> tenant_context \<Rightarrow> page_request \<Rightarrow> identity_db \<Rightarrow> (application_error, user_details list \<times> nat) result" where
  "user_list_request ch ctx page db =
     rbind (require_permission ctx ReadUsers) (\<lambda>_. persistence (list_users ch (tc_tenant_id ctx) page db))"

definition validate_new_user ::
  "hasher_api \<Rightarrow> string \<Rightarrow> string \<Rightarrow> int list option \<Rightarrow> (application_error, new_user) result" where
  "validate_new_user H name password role_ids =
     (let username = trim name
      in if username = [] then Err (InvalidInput ''Username must not be empty'')
         else rbind (validate_username_characters username) (\<lambda>_.
              rbind (validate_password password) (\<lambda>_.
              if is_some_and (\<lambda>ids. ids = []) role_ids then Err (InvalidInput ''At least one role is required'')
              else (case hash_password H password of
                      Inl e \<Rightarrow> Err (Authentication e)
                    | Inr hash \<Rightarrow> Ok \<lparr>nu_username = username, nu_password_hash = hash,
                        nu_role_ids = map_option normalize_role_ids role_ids\<rparr>))))"

definition user_create_request ::
  "micros_api \<Rightarrow> hasher_api \<Rightarrow> int \<Rightarrow> int \<Rightarrow> string \<Rightarrow> tenant_context \<Rightarrow> string \<Rightarrow> string \<Rightarrow> int list option \<Rightarrow> identity_db
     \<Rightarrow> (application_error, user_details) result \<times> identity_db" where
  "user_create_request ch H now later epoch ctx name password role_ids db =
     (case rbind (require_permission ctx ManageUsers) (\<lambda>_. validate_new_user H name password role_ids) of
        Inl e \<Rightarrow> (Err e, db)
      | Inr n \<Rightarrow>
          (case create_user ch now later epoch (tc_tenant_id ctx) n db of
             Inl e \<Rightarrow> (Err (map_user_write_error e (nu_username n)), db)
           | Inr (UserCreated d, db') \<Rightarrow> (Ok d, db')
           | Inr (CreateRolesNotFound, db') \<Rightarrow> (Err (AppNotFound ''One or more roles were not found''), db')))"

definition user_missing :: "int \<Rightarrow> application_error" where
  "user_missing i = AppNotFound (''User '' @ show_int i @ '' not found'')"

definition change_password_request ::
  "hasher_api \<Rightarrow> tenant_context \<Rightarrow> int \<Rightarrow> string \<Rightarrow> identity_db \<Rightarrow> (application_error, unit) result \<times> identity_db" where
  "change_password_request H ctx i password db =
     (case rbind (require_permission ctx ManageUsers) (\<lambda>_. validate_password password) of
        Inl e \<Rightarrow> (Err e, db)
      | Inr _ \<Rightarrow>
          (case hash_password H password of
             Inl e \<Rightarrow> (Err (Authentication e), db)
           | Inr hash \<Rightarrow>
               (case change_password (tc_tenant_id ctx) i hash db of
                  (PasswordChanged, db') \<Rightarrow> (Ok (), db')
                | (PasswordUserNotFound, db') \<Rightarrow> (Err (user_missing i), db'))))"

definition user_delete_request ::
  "micros_api \<Rightarrow> tenant_context \<Rightarrow> int \<Rightarrow> identity_db \<Rightarrow> (application_error, unit) result \<times> identity_db" where
  "user_delete_request ch ctx i db =
     (case rbind (require_permission ctx ManageUsers) (\<lambda>_. persistence (delete_user ch (tc_tenant_id ctx) i db)) of
        Inl e \<Rightarrow> (Err e, db)
      | Inr (outcome, db') \<Rightarrow>
          (case outcome of
             UserDeleted \<Rightarrow> Ok ()
           | DeleteUserNotFound \<Rightarrow> Err (user_missing i)
           | WouldDeleteLastOwner \<Rightarrow> Err (Conflict ''Cannot delete the last owner from the tenant''), db'))"

definition set_roles_request ::
  "micros_api \<Rightarrow> int \<Rightarrow> tenant_context \<Rightarrow> int \<Rightarrow> int list \<Rightarrow> identity_db
     \<Rightarrow> (application_error, user_details) result \<times> identity_db" where
  "set_roles_request ch now ctx i role_ids db =
     (case rbind (require_permission ctx ManageUsers) (\<lambda>_.
             if role_ids = [] then Err (InvalidInput ''At least one role is required'')
             else persistence (set_roles ch now (tc_tenant_id ctx) i (normalize_role_ids role_ids) db)) of
        Inl e \<Rightarrow> (Err e, db)
      | Inr (outcome, db') \<Rightarrow>
          (case outcome of
             RolesUpdated d \<Rightarrow> Ok d
           | UserNotFound \<Rightarrow> Err (user_missing i)
           | RolesNotFound \<Rightarrow> Err (AppNotFound ''One or more roles were not found'')
           | WouldRemoveLastOwner \<Rightarrow> Err (Conflict ''Cannot remove the last owner from the tenant''), db'))"

section \<open>Authentication\<close>

record authenticated_user =
  au_id :: int
  au_tenant_id :: string
  au_username :: string
  au_role :: string
  au_roles :: "role list"
  au_permissions :: "string list"
  au_permission_version :: int
  au_auth_epoch :: string

definition authenticated_user_from_details :: "user_details \<Rightarrow> authenticated_user" where
  "authenticated_user_from_details d =
     \<lparr>au_id = usr_id (ud_user d), au_tenant_id = usr_tenant_id (ud_user d), au_username = usr_username (ud_user d),
      au_role = unwrap_or (usr_role (ud_user d)) (primary_role_name (ud_roles d)), au_roles = ud_roles d,
      au_permissions = ud_permissions d, au_permission_version = usr_permission_version (ud_user d),
      au_auth_epoch = usr_auth_epoch (ud_user d)\<rparr>"

definition matches_identity :: "user_details \<Rightarrow> string \<Rightarrow> int \<Rightarrow> bool" where
  "matches_identity d tenant i \<longleftrightarrow> usr_id (ud_user d) = i \<and> usr_tenant_id (ud_user d) = tenant"

definition authenticate ::
  "micros_api \<Rightarrow> hasher_api \<Rightarrow> time \<Rightarrow> string \<Rightarrow> string \<Rightarrow> string \<Rightarrow> identity_db
     \<Rightarrow> (application_error, authenticated_user) result \<times> identity_db" where
  "authenticate ch H now tenant username password db =
     (case validate_username_characters username of
        Inl _ \<Rightarrow> (Err Unauthorized, db)
      | Inr _ \<Rightarrow>
          (case find_credentials ch db tenant username of
             Inl e \<Rightarrow> (Err (Persistence e), db)
           | Inr None \<Rightarrow> (Err Unauthorized, db)
           | Inr (Some c) \<Rightarrow>
               if \<not> usr_is_active (ud_user (uc_details c)) then (Err Unauthorized, db)
               else (case verify_password H password (uc_password_hash c) of
                       Inl e \<Rightarrow> (Err (AppInternal (''password verification failed: '' @ e)), db)
                     | Inr ok \<Rightarrow>
                         if ok then (Ok (authenticated_user_from_details (uc_details c)),
                           snd (record_login ch tenant (usr_id (ud_user (uc_details c))) now db))
                         else (Err Unauthorized, db))))"

definition resolve_session ::
  "micros_api \<Rightarrow> identity_db \<Rightarrow> string \<Rightarrow> int \<Rightarrow> int \<Rightarrow> string \<Rightarrow> (application_error, authenticated_user) result" where
  "resolve_session ch db tenant i version epoch =
     rbind (persistence (hydrate ch db tenant i)) (\<lambda>found. case found of
        None \<Rightarrow> Err Unauthorized
      | Some d \<Rightarrow>
          if \<not> matches_identity d tenant i \<or> \<not> usr_is_active (ud_user d)
             \<or> usr_permission_version (ud_user d) \<noteq> version \<or> usr_auth_epoch (ud_user d) \<noteq> epoch
          then Err Unauthorized else Ok (authenticated_user_from_details d))"

definition current_user ::
  "micros_api \<Rightarrow> identity_db \<Rightarrow> tenant_context \<Rightarrow> (application_error, authenticated_user) result" where
  "current_user ch db ctx = (case tc_actor ctx of
      User i _ _ \<Rightarrow>
        rbind (persistence (hydrate ch db (tc_tenant_id ctx) i)) (\<lambda>found. case found of
           None \<Rightarrow> Err Unauthorized
         | Some d \<Rightarrow>
             if \<not> matches_identity d (tc_tenant_id ctx) i \<or> \<not> usr_is_active (ud_user d) then Err Unauthorized
             else Ok (authenticated_user_from_details d))
    | _ \<Rightarrow> Err Unauthorized)"

section \<open>Role requests\<close>

definition normalize_role_name :: "string \<Rightarrow> (application_error, string) result" where
  "normalize_role_name s =
     (let name = map to_ascii_lowercase (trim s)
      in if name = [] then Err (InvalidInput ''Role name must not be empty'')
         else if 64 < length name then Err (InvalidInput ''Role name must be 64 characters or fewer'')
         else if list_all (\<lambda>c. is_ascii_lowercase c \<or> is_ascii_digit c \<or> c = CHR ''_'' \<or> c = CHR ''-'') name then Ok name
         else Err (InvalidInput ''Role name may only contain lowercase letters, numbers, hyphens, and underscores''))"

definition is_builtin_role_name :: "string \<Rightarrow> bool" where
  "is_builtin_role_name name \<longleftrightarrow> name \<in> {OWNER_ROLE, ADMIN_ROLE, OPERATOR_ROLE, VIEWER_ROLE}"

fun permission_keys_of :: "string list \<Rightarrow> (application_error, string list) result" where
  "permission_keys_of [] = Ok []"
| "permission_keys_of (key # keys) =
     (case from_key key of
        None \<Rightarrow> Err (InvalidInput (''Unknown permission '' @ quoted key))
      | Some p \<Rightarrow> rbind (permission_keys_of keys) (\<lambda>ks. Ok (permission_key p # ks)))"

definition validate_permission_keys :: "string list \<Rightarrow> (application_error, string list) result" where
  "validate_permission_keys keys =
     rbind (permission_keys_of (filter (\<lambda>k. k \<noteq> []) (map trim keys))) (\<lambda>ks. Ok (remdups_adj (sort ks)))"

definition map_role_write_error :: "persistence_error \<Rightarrow> application_error" where
  "map_role_write_error e = (case e of
      UniqueViolation _ \<Rightarrow> Conflict ''Role name already exists''
    | _ \<Rightarrow> Persistence e)"

definition reserved_name :: "string \<Rightarrow> application_error" where
  "reserved_name name = InvalidInput (quoted name @ '' is reserved for a built-in role'')"

definition role_list_request ::
  "micros_api \<Rightarrow> tenant_context \<Rightarrow> identity_db \<Rightarrow> (application_error, role_details list) result" where
  "role_list_request ch ctx db =
     rbind (require_permission ctx ReadRoles) (\<lambda>_. persistence (list_roles ch (tc_tenant_id ctx) db))"

definition available_permissions :: "tenant_context \<Rightarrow> (application_error, permission list) result" where
  "available_permissions ctx = rbind (require_permission ctx ReadRoles) (\<lambda>_. Ok ALL_PERMISSIONS)"

definition role_create_request ::
  "micros_api \<Rightarrow> int \<Rightarrow> tenant_context \<Rightarrow> string \<Rightarrow> string option \<Rightarrow> string list \<Rightarrow> identity_db
     \<Rightarrow> (application_error, role_details \<times> identity_db) result" where
  "role_create_request ch now ctx name description permissions db =
     rbind (require_permission ctx ManageRoles) (\<lambda>_.
     rbind (normalize_role_name name) (\<lambda>name.
     if is_builtin_role_name name then Err (reserved_name name)
     else rbind (validate_permission_keys permissions) (\<lambda>keys.
       case create_role ch now (tc_tenant_id ctx)
              \<lparr>nr_name = name, nr_description = description, nr_permissions = keys\<rparr> db of
         Inl e \<Rightarrow> Err (map_role_write_error e)
       | Inr x \<Rightarrow> Ok x)))"

definition transpose_result :: "('a \<Rightarrow> ('e, 'b) result) \<Rightarrow> 'a option \<Rightarrow> ('e, 'b option) result" where
  "transpose_result f x = (case x of None \<Rightarrow> Ok None | Some a \<Rightarrow> rbind (f a) (\<lambda>b. Ok (Some b)))"

definition role_update_request ::
  "micros_api \<Rightarrow> int \<Rightarrow> tenant_context \<Rightarrow> int \<Rightarrow> role_patch \<Rightarrow> identity_db
     \<Rightarrow> (application_error, role_details) result \<times> identity_db" where
  "role_update_request ch now ctx i update db =
     (case rbind (require_permission ctx ManageRoles) (\<lambda>_.
             rbind (transpose_result normalize_role_name (rp_name update)) (\<lambda>name.
             if is_some_and is_builtin_role_name name then Err (reserved_name (unwrap_or [] name))
             else rbind (transpose_result validate_permission_keys (rp_permissions update)) (\<lambda>permissions.
               case update_role ch now (tc_tenant_id ctx) i
                      \<lparr>rp_name = name, rp_description = rp_description update, rp_permissions = permissions\<rparr> db of
                 Inl e \<Rightarrow> Err (map_role_write_error e)
               | Inr x \<Rightarrow> Ok x))) of
        Inl e \<Rightarrow> (Err e, db)
      | Inr (outcome, db') \<Rightarrow>
          (case outcome of
             RoleUpdated d \<Rightarrow> Ok d
           | RoleNotFound \<Rightarrow> Err (AppNotFound (''Role '' @ show_int i @ '' not found''))
           | SystemRole \<Rightarrow> Err (InvalidInput ''Built-in roles cannot be modified''), db'))"

definition role_delete_request ::
  "micros_api \<Rightarrow> tenant_context \<Rightarrow> int \<Rightarrow> identity_db \<Rightarrow> (application_error, unit) result \<times> identity_db" where
  "role_delete_request ch ctx i db =
     (case rbind (require_permission ctx ManageRoles) (\<lambda>_. persistence (delete_role ch (tc_tenant_id ctx) i db)) of
        Inl e \<Rightarrow> (Err e, db)
      | Inr (outcome, db') \<Rightarrow>
          (case outcome of
             RoleDeleted \<Rightarrow> Ok ()
           | DeleteRoleNotFound \<Rightarrow> Err (AppNotFound (''Role '' @ show_int i @ '' not found''))
           | DeleteSystemRole \<Rightarrow> Err (InvalidInput ''Built-in roles cannot be deleted'')
           | InUse name n \<Rightarrow> Err (Conflict (''Role '' @ quoted name @ '' is assigned to '' @ show_nat n @ '' user(s)'')), db'))"

section \<open>Bootstrap requests\<close>

definition seed_prepared_owner ::
  "(string \<Rightarrow> string) \<Rightarrow> hasher_api \<Rightarrow> int \<Rightarrow> string \<Rightarrow> string \<Rightarrow> string \<Rightarrow> string \<Rightarrow> identity_db
     \<Rightarrow> (application_error, seed_owner_outcome \<times> identity_db) result" where
  "seed_prepared_owner driver_text H now epoch tenant username password db =
     (case hash_password H password of
        Inl e \<Rightarrow> Err (AppInternal (''Failed to hash default password: '' @ e))
      | Inr hash \<Rightarrow> persistence (seed_owner_if_empty driver_text now epoch tenant username hash db))"

definition seed_owner ::
  "(string \<Rightarrow> string) \<Rightarrow> hasher_api \<Rightarrow> int \<Rightarrow> string \<Rightarrow> string \<Rightarrow> string \<Rightarrow> string \<Rightarrow> identity_db
     \<Rightarrow> (application_error, seed_owner_outcome \<times> identity_db) result" where
  "seed_owner driver_text H now epoch tenant name password db =
     (let username = trim name
      in if username = [] then Err (InvalidInput ''Bootstrap admin username must not be empty'')
         else rbind (validate_username_characters username) (\<lambda>_.
           case validate_password password of
             Inl e \<Rightarrow> Err (InvalidInput (''Invalid bootstrap admin password: '' @ show_application_error e))
           | Inr _ \<Rightarrow>
               if password = ''admin'' \<or> password = username
               then Err (InvalidInput ''Bootstrap admin password must not be a default or match the username'')
               else seed_prepared_owner driver_text H now epoch tenant username password db))"

definition seed_local_owner ::
  "(string \<Rightarrow> string) \<Rightarrow> hasher_api \<Rightarrow> int \<Rightarrow> string \<Rightarrow> string \<Rightarrow> string \<Rightarrow> string \<Rightarrow> identity_db
     \<Rightarrow> (application_error, seed_owner_outcome \<times> identity_db) result" where
  "seed_local_owner driver_text H now epoch tenant name password db =
     (if trim name = ''admin'' \<and> password = ''admin''
      then seed_prepared_owner driver_text H now epoch tenant ''admin'' password db
      else seed_owner driver_text H now epoch tenant name password db)"

end
