(* ===== verification/Http.thy ===== *)
theory Http
  imports Identity
begin

text \<open>
  The frame of the HTTP backend: requests as the middleware sees them, the claims of a session
  token and the authenticated context (\<^verbatim>\<open>crates/backend/src/auth.rs\<close>, \<^verbatim>\<open>auth/context.rs\<close>,
  \<^verbatim>\<open>auth/policy.rs\<close>), and the translation of errors into responses (\<^verbatim>\<open>error.rs\<close>). A header is the text
  \<^verbatim>\<open>to_str\<close> gives, or nothing. Signing and verifying tokens is a parameter.
\<close>

section \<open>Claims and contexts\<close>

record claims =
  cl_sub :: int
  cl_username :: string
  cl_role :: string
  cl_tenant_id :: "string option"
  cl_scopes :: "string list"
  cl_permission_version :: int
  cl_auth_epoch :: "string option"
  cl_exp :: int

record mapped_user_claims =
  mc_claims :: claims
  mc_tenant_id :: string

datatype user_claims_context_error = MissingAuthEpoch | InvalidTenant tenant_id_error

definition DEFAULT_TENANT_ID :: string where
  "DEFAULT_TENANT_ID = ''default''"

definition map_validated_user_claims :: "claims \<Rightarrow> (user_claims_context_error, mapped_user_claims) result" where
  "map_validated_user_claims c =
     (if cl_auth_epoch c = None \<or> cl_auth_epoch c = Some [] then Err MissingAuthEpoch
      else case cl_tenant_id c of
        Some t \<Rightarrow>
          (case tenant_id_new t of
             Inl e \<Rightarrow> Err (InvalidTenant e)
           | Inr t \<Rightarrow> Ok \<lparr>mc_claims = c, mc_tenant_id = t\<rparr>)
      | None \<Rightarrow> Ok \<lparr>mc_claims = c, mc_tenant_id = DEFAULT_TENANT_ID\<rparr>)"

record request_context =
  rc_user_id :: int
  rc_username :: string
  rc_role :: string
  rc_tenant_id :: string
  rc_scopes :: "string list"
  rc_permissions :: "permission set"

definition has_permission :: "request_context \<Rightarrow> permission \<Rightarrow> bool" where
  "has_permission ctx p \<longleftrightarrow> (\<exists>q \<in> rc_permissions ctx. satisfies q p)"

definition tenant_context_of :: "request_context \<Rightarrow> tenant_context" where
  "tenant_context_of ctx =
     \<lparr>tc_tenant_id = rc_tenant_id ctx, tc_actor = User (rc_user_id ctx) (rc_username ctx) (rc_role ctx),
      tc_permissions = Option.these ((from_key \<circ> permission_key) ` rc_permissions ctx)\<rparr>"

section \<open>Requests\<close>

record request =
  rq_method :: string
  rq_path :: string
  rq_uri :: string
  rq_header :: "string \<Rightarrow> string option"
  rq_peer :: "ip_addr option"
  rq_request_id :: "string option"
  rq_mapped :: "mapped_user_claims option"
  rq_context :: "request_context option"
  rq_claims :: "claims option"

definition redacted_request_uri :: "request \<Rightarrow> string" where
  "redacted_request_uri rq =
     (if starts_with ''/api/v1/ota-downloads/'' (rq_path rq) then ''/api/v1/ota-downloads/[redacted]'' else rq_uri rq)"

definition request_id_char :: "char \<Rightarrow> bool" where
  "request_id_char c \<longleftrightarrow> is_ascii_alphanumeric c \<or> c \<in> set ''-_.:''"

definition request_id_middleware :: "string \<Rightarrow> request \<Rightarrow> request" where
  "request_id_middleware fresh rq =
     (let request_id = (case rq_header rq ''x-request-id'' of
            Some v \<Rightarrow> if v \<noteq> [] \<and> length v \<le> 128 \<and> list_all request_id_char v then v else fresh
          | None \<Rightarrow> fresh)
      in rq\<lparr>rq_request_id := Some request_id\<rparr>)"

definition bearer_token :: "request \<Rightarrow> string option" where
  "bearer_token rq = Option.bind (rq_header rq ''authorization'') (strip_prefix ''Bearer '')"

fun find_map :: "('a \<Rightarrow> 'b option) \<Rightarrow> 'a list \<Rightarrow> 'b option" where
  "find_map f [] = None"
| "find_map f (x # xs) = (case f x of Some y \<Rightarrow> Some y | None \<Rightarrow> find_map f xs)"

definition cookie_value :: "string \<Rightarrow> string option" where
  "cookie_value cookie = Option.bind (split_once ''='' (trim cookie)) (\<lambda>(name, v).
     if name = ''extrittio_session'' then Some v else None)"

definition session_cookie :: "request \<Rightarrow> string option" where
  "session_cookie rq = Option.bind (rq_header rq ''cookie'') (\<lambda>cookies. find_map cookie_value (split_char (CHR '';'') cookies))"

definition or_else :: "'a option \<Rightarrow> 'a option \<Rightarrow> 'a option" where
  "or_else x y = (case x of Some a \<Rightarrow> Some a | None \<Rightarrow> y)"

section \<open>Errors\<close>

datatype app_error =
    HttpNotFound string
  | HttpConflict string
  | BadRequest string
  | UnprocessableEntity string
  | HttpUnauthorized
  | HttpForbidden string
  | TooManyRequests
  | HttpAuth string
  | HttpPersistence persistence_error
  | HttpApplication application_error
  | HttpSerialization string
  | HttpZenoh string
  | HttpInternal string

record error_body =
  eb_code :: string
  eb_message :: string
  eb_error :: string
  eb_request_id :: string

record response =
  rs_status :: nat
  rs_error :: "error_body option"

fun persistence_response :: "persistence_error \<Rightarrow> nat \<times> string \<times> string" where
  "persistence_response NotFound = (404, ''not_found'', ''Resource not found'')"
| "persistence_response (UniqueViolation _) = (409, ''conflict'', ''The request conflicts with existing data'')"
| "persistence_response (ForeignKeyViolation _) = (409, ''conflict'', ''The request conflicts with existing data'')"
| "persistence_response (CheckViolation _) = (409, ''conflict'', ''The request conflicts with existing data'')"
| "persistence_response (Busy _) = (503, ''service_unavailable'', ''Service temporarily unavailable'')"
| "persistence_response (Unavailable _) = (503, ''service_unavailable'', ''Service temporarily unavailable'')"
| "persistence_response _ = (500, ''database_error'', ''Internal server error'')"

fun error_response :: "app_error \<Rightarrow> nat \<times> string \<times> string" where
  "error_response (HttpNotFound m) = (404, ''not_found'', m)"
| "error_response (HttpConflict m) = (409, ''conflict'', m)"
| "error_response (BadRequest m) = (400, ''bad_request'', m)"
| "error_response (UnprocessableEntity m) = (422, ''unprocessable_entity'', m)"
| "error_response HttpUnauthorized = (401, ''unauthorized'', ''Unauthorized'')"
| "error_response (HttpForbidden m) = (403, ''forbidden'', m)"
| "error_response TooManyRequests = (429, ''too_many_requests'', ''Too many requests'')"
| "error_response (HttpAuth _) = (500, ''authentication_error'', ''Authentication error'')"
| "error_response (HttpPersistence e) = persistence_response e"
| "error_response (HttpApplication (InvalidOperation m)) = (422, ''unprocessable_entity'', m)"
| "error_response (HttpApplication (AppNotFound m)) = (404, ''not_found'', m)"
| "error_response (HttpApplication (Conflict m)) = (409, ''conflict'', m)"
| "error_response (HttpApplication (InvalidInput m)) = (400, ''bad_request'', m)"
| "error_response (HttpApplication Unauthorized) = (401, ''unauthorized'', ''Unauthorized'')"
| "error_response (HttpApplication (Forbidden m)) = (403, ''forbidden'', m)"
| "error_response (HttpApplication (Authentication _)) = (500, ''authentication_error'', ''Authentication error'')"
| "error_response (HttpApplication (Persistence e)) = persistence_response e"
| "error_response (HttpApplication (AppInternal _)) = (500, ''internal_error'', ''Internal server error'')"
| "error_response (HttpApplication (DeviceCommunication _)) = (502, ''device_communication_error'', ''Device communication failed'')"
| "error_response (HttpSerialization _) = (500, ''serialization_error'', ''Internal server error'')"
| "error_response (HttpZenoh _) = (502, ''device_communication_error'', ''Device communication failed'')"
| "error_response (HttpInternal _) = (500, ''internal_error'', ''Internal server error'')"

definition current_request_id :: "request \<Rightarrow> string" where
  "current_request_id rq = unwrap_or ''unavailable'' (rq_request_id rq)"

definition into_response :: "request \<Rightarrow> app_error \<Rightarrow> response" where
  "into_response rq e = (case error_response e of (status, code, message) \<Rightarrow>
     \<lparr>rs_status = status,
      rs_error = Some \<lparr>eb_code = code, eb_message = message, eb_error = message, eb_request_id = current_request_id rq\<rparr>\<rparr>)"

section \<open>Policy\<close>

definition require :: "request_context \<Rightarrow> permission \<Rightarrow> (app_error, unit) result" where
  "require ctx p =
     (if has_permission ctx p then Ok ()
      else if 0 < rc_user_id ctx then Err (HttpForbidden (''Missing permission '' @ quoted (permission_key p)))
      else Err HttpUnauthorized)"

lemma from_key_permission_key [simp]: "from_key (permission_key p) = Some p"
proof -
  have "find (\<lambda>q. permission_key q = permission_key p) ALL_PERMISSIONS = Some p"
    by (cases p) (simp_all add: ALL_PERMISSIONS_def)
  then show ?thesis by (simp add: from_key_def)
qed

lemma tenant_context_permissions [simp]: "tc_permissions (tenant_context_of ctx) = rc_permissions ctx"
proof -
  have "from_key \<circ> permission_key = Some" by (simp add: fun_eq_iff)
  then show ?thesis by (simp add: tenant_context_of_def)
qed

text \<open>The policy of the handlers and the check of the use cases agree.\<close>

lemma require_iff: "require ctx p = Ok () \<longleftrightarrow> require_permission (tenant_context_of ctx) p = Ok ()"
  by (simp add: require_def require_permission_def has_permission_def permission_set_contains_def)

end
