(* ===== verification/Identity_Protocol.thy ===== *)
theory Identity_Protocol
  imports Identity Outbox_Protocol
begin

text \<open>
  Histories of the requests on users and roles, from the tables of the baseline migration. Every
  request goes through its application service, with an arbitrary caller. A tenant that has an
  owner keeps one, and what can happen to the users between two states is bounded for the
  sessions.
\<close>

section \<open>The baseline\<close>

definition system_role :: "int \<Rightarrow> int \<Rightarrow> string \<Rightarrow> string \<Rightarrow> role_row" where
  "system_role now i name description =
     \<lparr>rw_id = i, rw_tenant_id = ''default'', rw_name = name, rw_description = Some description,
      rw_is_system = True, rw_created_at = now, rw_updated_at = now\<rparr>"

definition baseline_roles :: "int \<Rightarrow> role_row list" where
  "baseline_roles now =
     [system_role now 1 ''owner'' ''Full tenant owner with all permissions and lockout protection.'',
      system_role now 2 ''admin'' ''Administrative access to tenant resources and security settings.'',
      system_role now 3 ''operator'' ''Operational access without security administration.'',
      system_role now 4 ''viewer'' ''Read-only operational visibility.'']"

definition operator_grants :: "string list" where
  "operator_grants = [''alerts.manage'', ''alerts.read'', ''commands.read'', ''commands.send'', ''device_blueprints.read'',
     ''devices.read'', ''firmware.read'', ''fleets.read'', ''logs.read'', ''rules.read'', ''shadows.manage'',
     ''shadows.read'', ''telemetry.read'', ''zones.read'']"

definition viewer_grants :: "string list" where
  "viewer_grants = [''alerts.read'', ''commands.read'', ''device_blueprints.read'', ''devices.read'', ''firmware.read'',
     ''fleets.read'', ''logs.read'', ''rules.read'', ''shadows.read'', ''telemetry.read'', ''zones.read'']"

definition owner_grants :: "string list" where
  "owner_grants = [''api_keys.manage'', ''alerts.manage'', ''alerts.read'', ''commands.read'', ''commands.send'',
     ''device_blueprints.manage'', ''device_blueprints.read'', ''devices.manage'', ''devices.read'',
     ''firmware.deploy'', ''firmware.manage'', ''firmware.read'', ''fleets.manage'', ''fleets.read'', ''logs.read'',
     ''roles.manage'', ''roles.read'', ''rules.manage'', ''rules.read'', ''server_metrics.read'', ''shadows.manage'',
     ''shadows.read'', ''telemetry.read'', ''users.manage'', ''users.read'', ''zones.manage'', ''zones.read'']"

definition baseline_identity :: "int \<Rightarrow> identity_db" where
  "baseline_identity now =
     \<lparr>id_tenants = [''default''], id_users = [], id_roles = baseline_roles now,
      id_permissions = map (Pair 1) owner_grants @ map (Pair 2) owner_grants
        @ map (Pair 3) operator_grants @ map (Pair 4) viewer_grants,
      id_user_roles = []\<rparr>"

section \<open>Histories\<close>

record identity_env =
  ie_micros :: micros_api
  ie_hasher :: hasher_api
  ie_driver_text :: "string \<Rightarrow> string"

datatype identity_op =
    CreateUser int int string tenant_context string string "int list option"
  | ChangePassword tenant_context int string
  | DeleteUser tenant_context int
  | SetRoles int tenant_context int "int list"
  | CreateRole int tenant_context string "string option" "string list"
  | UpdateRole int tenant_context int role_patch
  | DeleteRole tenant_context int
  | Login time string string string
  | SeedOwner int string string string string

fun identity_apply :: "identity_env \<Rightarrow> identity_op \<Rightarrow> identity_db \<Rightarrow> identity_db" where
  "identity_apply E (CreateUser now later epoch ctx name password role_ids) db =
     snd (user_create_request (ie_micros E) (ie_hasher E) now later epoch ctx name password role_ids db)"
| "identity_apply E (ChangePassword ctx i password) db = snd (change_password_request (ie_hasher E) ctx i password db)"
| "identity_apply E (DeleteUser ctx i) db = snd (user_delete_request (ie_micros E) ctx i db)"
| "identity_apply E (SetRoles now ctx i role_ids) db = snd (set_roles_request (ie_micros E) now ctx i role_ids db)"
| "identity_apply E (CreateRole now ctx name description permissions) db =
     (case role_create_request (ie_micros E) now ctx name description permissions db of Inl _ \<Rightarrow> db | Inr (_, db') \<Rightarrow> db')"
| "identity_apply E (UpdateRole now ctx i update) db = snd (role_update_request (ie_micros E) now ctx i update db)"
| "identity_apply E (DeleteRole ctx i) db = snd (role_delete_request (ie_micros E) ctx i db)"
| "identity_apply E (Login now tenant username password) db =
     snd (authenticate (ie_micros E) (ie_hasher E) now tenant username password db)"
| "identity_apply E (SeedOwner now epoch tenant name password) db =
     (case seed_local_owner (ie_driver_text E) (ie_hasher E) now epoch tenant name password db of
        Inl _ \<Rightarrow> db | Inr (_, db') \<Rightarrow> db')"

primrec identity_run :: "identity_env \<Rightarrow> identity_op list \<Rightarrow> identity_db \<Rightarrow> identity_db" where
  "identity_run E [] db = db"
| "identity_run E (op # ops) db = identity_run E ops (identity_apply E op db)"

text \<open>The authentication epoch a request may hand out.\<close>

fun op_epochs :: "identity_op \<Rightarrow> string set" where
  "op_epochs (CreateUser now later epoch ctx name password role_ids) = {epoch}"
| "op_epochs (SeedOwner now epoch tenant name password) = {epoch}"
| "op_epochs _ = {}"

section \<open>The invariant\<close>

definition identity_ok :: "identity_db \<Rightarrow> bool" where
  "identity_ok db \<longleftrightarrow>
     distinct (map us_id (id_users db)) \<and> distinct (map rw_id (id_roles db))
     \<and> (\<forall>v \<in> set (id_roles db). \<forall>w \<in> set (id_roles db). rw_tenant_id v = rw_tenant_id w \<and> rw_name v = rw_name w \<longrightarrow> v = w)
     \<and> (\<forall>w \<in> set (id_roles db). rw_name w = OWNER_ROLE \<longrightarrow> rw_is_system w)
     \<and> (\<forall>a \<in> set (id_user_roles db).
          (\<exists>u \<in> set (id_users db). user_at (ur_tenant_id a) (ur_user_id a) u)
          \<and> (\<exists>w \<in> set (id_roles db). role_at (ur_tenant_id a) (ur_role_id a) w))"

definition has_owner :: "string \<Rightarrow> identity_db \<Rightarrow> bool" where
  "has_owner t db \<longleftrightarrow> (\<exists>w \<in> set (id_roles db). rw_tenant_id w = t \<and> rw_name w = OWNER_ROLE
     \<and> (\<exists>u \<in> set (id_users db). us_tenant_id u = t \<and> assigned db t (us_id u) (rw_id w)))"

lemma identity_okI:
  assumes "distinct (map us_id (id_users db))" and "distinct (map rw_id (id_roles db))"
    and "\<And>v w. v \<in> set (id_roles db) \<Longrightarrow> w \<in> set (id_roles db) \<Longrightarrow> rw_tenant_id v = rw_tenant_id w \<Longrightarrow>
      rw_name v = rw_name w \<Longrightarrow> v = w"
    and "\<And>w. w \<in> set (id_roles db) \<Longrightarrow> rw_name w = OWNER_ROLE \<Longrightarrow> rw_is_system w"
    and "\<And>a. a \<in> set (id_user_roles db) \<Longrightarrow> \<exists>u \<in> set (id_users db). user_at (ur_tenant_id a) (ur_user_id a) u"
    and "\<And>a. a \<in> set (id_user_roles db) \<Longrightarrow> \<exists>w \<in> set (id_roles db). role_at (ur_tenant_id a) (ur_role_id a) w"
  shows "identity_ok db"
  using assms unfolding identity_ok_def by blast

lemma identity_okD:
  assumes "identity_ok db"
  shows "distinct (map us_id (id_users db))" and "distinct (map rw_id (id_roles db))"
    and "v \<in> set (id_roles db) \<Longrightarrow> w \<in> set (id_roles db) \<Longrightarrow> rw_tenant_id v = rw_tenant_id w \<Longrightarrow>
      rw_name v = rw_name w \<Longrightarrow> v = w"
    and "w \<in> set (id_roles db) \<Longrightarrow> rw_name w = OWNER_ROLE \<Longrightarrow> rw_is_system w"
    and "a \<in> set (id_user_roles db) \<Longrightarrow> \<exists>u \<in> set (id_users db). user_at (ur_tenant_id a) (ur_user_id a) u"
    and "a \<in> set (id_user_roles db) \<Longrightarrow> \<exists>w \<in> set (id_roles db). role_at (ur_tenant_id a) (ur_role_id a) w"
    and "u \<in> set (id_users db) \<Longrightarrow> x \<in> set (id_users db) \<Longrightarrow> us_id u = us_id x \<Longrightarrow> u = x"
    and "v \<in> set (id_roles db) \<Longrightarrow> w \<in> set (id_roles db) \<Longrightarrow> rw_id v = rw_id w \<Longrightarrow> v = w"
proof -
  show "distinct (map us_id (id_users db))" "distinct (map rw_id (id_roles db))"
    using assms by (simp_all add: identity_ok_def)
  then show "u \<in> set (id_users db) \<Longrightarrow> x \<in> set (id_users db) \<Longrightarrow> us_id u = us_id x \<Longrightarrow> u = x"
    "v \<in> set (id_roles db) \<Longrightarrow> w \<in> set (id_roles db) \<Longrightarrow> rw_id v = rw_id w \<Longrightarrow> v = w"
    by (simp_all add: distinct_map inj_on_def)
qed (use assms in \<open>unfold identity_ok_def, blast\<close>)+

text \<open>With the references intact, an owner is an assignment of the owner role.\<close>

lemma has_owner_iff:
  assumes "identity_ok db"
  shows "has_owner t db \<longleftrightarrow> (\<exists>w \<in> set (id_roles db). rw_tenant_id w = t \<and> rw_name w = OWNER_ROLE
    \<and> (\<exists>a \<in> set (id_user_roles db). ur_tenant_id a = t \<and> ur_role_id a = rw_id w))"
  using identity_okD(5) [OF assms] unfolding has_owner_def assigned_def by metis

section \<open>Reading\<close>

lemma decode_role_Ok: "decode_role ch w = Ok r \<Longrightarrow> role_id r = rw_id w \<and> role_name r = rw_name w
    \<and> role_is_system r = rw_is_system w"
  by (auto simp: decode_role_def rbind_Inr_iff row_i32_def split: if_splits)

lemma decode_roles_ids: "decode_roles ch ws = Ok rs \<Longrightarrow> map role_id rs = map rw_id ws"
  by (induction ws arbitrary: rs) (auto simp: rbind_Inr_iff dest: decode_role_Ok)

lemma selected_roles_exist:
  assumes "selected_roles ch db tenant requested = Ok (Some roles)" and "r \<in> set roles"
  shows "\<exists>w \<in> set (id_roles db). role_at tenant (role_id r) w"
proof -
  obtain available where a: "decode_roles ch (sort_key (\<lambda>w. (rw_name w, rw_id w))
      (filter (\<lambda>w. rw_tenant_id w = tenant) (id_roles db))) = Ok available" "set roles \<subseteq> set available"
    using assms(1) by (auto simp: selected_roles_def rbind_Inr_iff Let_def find_Some_iff split: option.splits if_splits)
  have "role_id r \<in> set (map role_id available)" using a(2) assms(2) by auto
  then show ?thesis unfolding decode_roles_ids [OF a(1)] by auto
qed

lemma hydrate_Some:
  assumes "hydrate ch db tenant i = Ok (Some d)"
  obtains u where "u \<in> set (id_users db)" and "user_at tenant i u" and "decode_user ch u = Ok (ud_user d)"
proof -
  obtain u where f: "find (user_at tenant i) (id_users db) = Some u" "decode_user ch u = Ok (ud_user d)"
    using assms by (auto simp: hydrate_def rbind_Inr_iff split: option.splits)
  from f(1) have "u \<in> set (id_users db) \<and> user_at tenant i u" by (auto simp: find_Some_iff)
  with f(2) that show thesis by blast
qed

lemma insert_user_roles_Ok:
  "insert_user_roles now tenant i roles rows = Ok rows' \<Longrightarrow>
     set rows' = set rows \<union> (\<lambda>r. \<lparr>ur_user_id = i, ur_role_id = role_id r, ur_tenant_id = tenant, ur_created_at = now\<rparr>) ` set roles"
  by (induction roles arbitrary: rows) (auto split: if_splits)

lemma replace_roles_Ok:
  assumes "replace_roles now tenant i roles db = Ok db'"
  shows "id_roles db' = id_roles db" and "id_tenants db' = id_tenants db" and "id_permissions db' = id_permissions db"
    and "id_users db' = update_where (user_at tenant i) (\<lambda>u. (bump_version u)\<lparr>us_role := primary_role roles\<rparr>) (id_users db)"
    and "set (id_user_roles db') = {a \<in> set (id_user_roles db). \<not> (ur_tenant_id a = tenant \<and> ur_user_id a = i)}
      \<union> (\<lambda>r. \<lparr>ur_user_id = i, ur_role_id = role_id r, ur_tenant_id = tenant, ur_created_at = now\<rparr>) ` set roles"
  using assms by (auto simp: replace_roles_def rbind_Inr_iff dest!: insert_user_roles_Ok)

lemma next_rowid_fresh: "i \<in> set ids \<Longrightarrow> i < next_rowid ids"
  using Max_ge [of "set ids" i] by (auto simp: next_rowid_def)

section \<open>Every request keeps the invariant and the owner\<close>

definition keeps :: "identity_db \<Rightarrow> identity_db \<Rightarrow> bool" where
  "keeps db db' \<longleftrightarrow> (identity_ok db \<longrightarrow> identity_ok db' \<and> (\<forall>t. has_owner t db \<longrightarrow> has_owner t db'))"

lemma keeps_refl [simp]: "keeps db db"
  by (simp add: keeps_def)

lemma keepsI:
  assumes "identity_ok db \<Longrightarrow> identity_ok db'" and "\<And>t. identity_ok db \<Longrightarrow> has_owner t db \<Longrightarrow> has_owner t db'"
  shows "keeps db db'"
  using assms by (simp add: keeps_def)

lemma updated_user_exists:
  assumes "\<And>u. us_id (f u) = us_id u \<and> us_tenant_id (f u) = us_tenant_id u"
  shows "(\<exists>u \<in> set (update_where p f us). user_at t i u) \<longleftrightarrow> (\<exists>u \<in> set us. user_at t i u)"
  using assms by (induction us) (auto simp: update_where_def)

lemma keeps_users:
  assumes "id_roles db' = id_roles db" and "id_user_roles db' = id_user_roles db"
    and "id_users db' = update_where p f (id_users db)" and "\<And>u. us_id (f u) = us_id u \<and> us_tenant_id (f u) = us_tenant_id u"
  shows "keeps db db'"
proof -
  let ?k = "\<lambda>u. (us_id u, us_tenant_id u)"
  have k: "map ?k (id_users db') = map ?k (id_users db)"
    unfolding assms(3) update_where_def map_map by (rule map_cong) (use assms(4) in auto)
  have ids: "map us_id (id_users db') = map us_id (id_users db)"
    using arg_cong [OF k, of "map fst"] by (simp add: comp_def)
  have ex: "(\<exists>u \<in> set (id_users db'). user_at t i u) \<longleftrightarrow> (\<exists>u \<in> set (id_users db). user_at t i u)" for t i
    unfolding assms(3) using assms(4) by (rule updated_user_exists)
  have q: "(\<exists>u \<in> set (id_users db'). us_tenant_id u = t \<and> Q (us_id u)) \<longleftrightarrow> (\<exists>u \<in> set (id_users db). us_tenant_id u = t \<and> Q (us_id u))" for t Q
    using ex [of t] by metis
  have "assigned db' = assigned db" by (intro ext) (simp add: assigned_def assms(2))
  then have own: "has_owner t db' = has_owner t db" for t
    unfolding has_owner_def by (simp only: assms(1) q [of t "\<lambda>i. assigned db t i (rw_id w)" for w])
  have "identity_ok db' = identity_ok db" unfolding identity_ok_def assms(1,2) ids ex ..
  with own show ?thesis by (simp add: keeps_def)
qed

lemma change_password_keeps: "keeps db (snd (change_password tenant i hash db))"
  by (rule keeps_users [where p = "user_at tenant i" and f = "\<lambda>u. (bump_version u)\<lparr>us_password_hash := hash\<rparr>"])
    (simp_all add: change_password_def bump_version_def)

lemma record_login_keeps: "keeps db (snd (record_login ch tenant i t db))"
  by (rule keeps_users [where p = "user_at tenant i" and f = "\<lambda>u. u\<lparr>us_last_login_at := Some (timestamp_micros ch t)\<rparr>"])
    (simp_all add: record_login_def)

lemma replace_roles_ok:
  assumes "replace_roles now tenant i roles db = Ok db'" and "identity_ok db"
    and "\<exists>u \<in> set (id_users db). user_at tenant i u"
    and "\<And>r. r \<in> set roles \<Longrightarrow> \<exists>w \<in> set (id_roles db). role_at tenant (role_id r) w"
  shows "identity_ok db'"
proof -
  note r = replace_roles_Ok [OF assms(1)] and ok = identity_okD [OF assms(2)]
  have users: "(\<exists>u \<in> set (id_users db'). user_at t j u) \<longleftrightarrow> (\<exists>u \<in> set (id_users db). user_at t j u)" for t j
    unfolding r(4) by (rule updated_user_exists) (simp add: bump_version_def)
  show ?thesis
  proof (rule identity_okI)
    have "map us_id (id_users db') = map us_id (id_users db)"
      unfolding r(4) by (simp add: update_where_def bump_version_def)
    then show "distinct (map us_id (id_users db'))" using ok(1) by simp
    show "\<exists>u \<in> set (id_users db'). user_at (ur_tenant_id a) (ur_user_id a) u" if "a \<in> set (id_user_roles db')" for a
      using that ok(5) assms(3) unfolding users r(5) by auto
    show "\<exists>w \<in> set (id_roles db'). role_at (ur_tenant_id a) (ur_role_id a) w" if "a \<in> set (id_user_roles db')" for a
      using that ok(6) assms(4) unfolding r(1,5) by auto
  qed (use ok in \<open>simp_all add: r(1)\<close>)
qed

lemma selected_fold_exist:
  "selected_roles ch db tenant requested = Ok (Some roles) \<Longrightarrow> id_roles db' = id_roles db \<Longrightarrow> r \<in> set roles \<Longrightarrow>
     \<exists>w \<in> set (id_roles db'). role_at tenant (role_id r) w"
  using selected_roles_exist by simp

lemma insert_user_Ok:
  assumes "insert_user now epoch tenant name hash primary version db = Ok (i, db')"
  shows "i = next_rowid (map us_id (id_users db))"
    and "db' = db\<lparr>id_users := id_users db @ [new_user_row now epoch tenant name hash primary version i]\<rparr>"
  using assms by (auto simp: insert_user_def Let_def split: if_splits)

lemma insert_user_ok:
  assumes "insert_user now epoch tenant name hash primary version db = Ok (i, db')" and "identity_ok db"
  shows "identity_ok db'" and "\<exists>u \<in> set (id_users db'). user_at tenant i u"
    and "\<And>a. a \<in> set (id_user_roles db') \<Longrightarrow> ur_user_id a \<noteq> i"
proof -
  note r = insert_user_Ok [OF assms(1)] and ok = identity_okD [OF assms(2)]
  have fresh: "us_id u \<noteq> i" if "u \<in> set (id_users db)" for u
    using next_rowid_fresh [of "us_id u" "map us_id (id_users db)"] that unfolding r(1) by auto
  show "identity_ok db'"
  proof (rule identity_okI)
    show "distinct (map us_id (id_users db'))" using ok(1) fresh by (auto simp: r(2) new_user_row_def)
    show "\<exists>u \<in> set (id_users db'). user_at (ur_tenant_id a) (ur_user_id a) u" if "a \<in> set (id_user_roles db')" for a
      using that ok(5) [of a] by (auto simp: r(2))
  qed (use ok(2-4,6) in \<open>auto simp: r(2)\<close>)
  show "\<exists>u \<in> set (id_users db'). user_at tenant i u" by (simp add: r(2) new_user_row_def)
  show "ur_user_id a \<noteq> i" if "a \<in> set (id_user_roles db')" for a
    using that ok(5) [of a] fresh by (auto simp: r(2))
qed

lemma create_user_Ok:
  assumes "create_user ch now later epoch tenant n db = Ok (outcome, db')" and "db' \<noteq> db"
  obtains roles i db1 where "selected_roles ch db tenant (nu_role_ids n) = Ok (Some roles)"
    and "insert_user now epoch tenant (nu_username n) (nu_password_hash n) (primary_role roles) 1 db = Ok (i, db1)"
    and "replace_roles later tenant i roles db1 = Ok db'"
  using assms
  by (auto simp: create_user_def rbind_Inr_iff constraint_error_def row_i32_def split: option.splits sum.splits if_splits prod.splits)

lemma create_user_keeps:
  assumes "create_user ch now later epoch tenant n db = Ok (outcome, db')"
  shows "keeps db db'"
proof (cases "db' = db")
  case False
  obtain roles i db1 where s: "selected_roles ch db tenant (nu_role_ids n) = Ok (Some roles)"
    and i: "insert_user now epoch tenant (nu_username n) (nu_password_hash n) (primary_role roles) 1 db = Ok (i, db1)"
    and r: "replace_roles later tenant i roles db1 = Ok db'"
    by (rule create_user_Ok [OF assms False])
  show ?thesis
  proof (rule keepsI)
    assume ok: "identity_ok db"
    note one = insert_user_ok [OF i ok]
    have roles: "id_roles db1 = id_roles db" by (simp add: insert_user_Ok(2) [OF i])
    show ok': "identity_ok db'"
      using replace_roles_ok [OF r one(1,2)] selected_fold_exist [OF s roles] by blast
    fix t assume "has_owner t db"
    then obtain w a where w: "w \<in> set (id_roles db)" "rw_tenant_id w = t" "rw_name w = OWNER_ROLE"
      and a: "a \<in> set (id_user_roles db)" "ur_tenant_id a = t" "ur_role_id a = rw_id w"
      unfolding has_owner_iff [OF ok] by blast
    have "a \<in> set (id_user_roles db')" "w \<in> set (id_roles db')"
      using a(1) one(3) [of a] w(1) by (auto simp: replace_roles_Ok(1,5) [OF r] insert_user_Ok(2) [OF i])
    with w a show "has_owner t db'" unfolding has_owner_iff [OF ok'] by blast
  qed
qed simp

lemma owner_state_role:
  assumes "identity_ok db" and "owner_state db tenant i = Ok (oid, is_owner, n)"
    and "w \<in> set (id_roles db)" and "rw_tenant_id w = tenant" and "rw_name w = OWNER_ROLE"
  shows "oid = Some (rw_id w)" and "is_owner = assigned db tenant i (rw_id w)"
    and "n = card (ur_user_id ` {a \<in> set (id_user_roles db). ur_tenant_id a = tenant \<and> ur_role_id a = rw_id w})"
proof -
  obtain v where v: "find (\<lambda>w. rw_tenant_id w = tenant \<and> rw_name w = ''owner'') (id_roles db) = Some v"
    using assms(3-5) by (cases "find (\<lambda>w. rw_tenant_id w = tenant \<and> rw_name w = ''owner'') (id_roles db)")
      (auto simp: find_None_iff OWNER_ROLE_def)
  then have "v \<in> set (id_roles db)" "rw_tenant_id v = tenant" "rw_name v = OWNER_ROLE"
    by (auto simp: find_Some_iff OWNER_ROLE_def)
  then have "v = w" using identity_okD(3) [OF assms(1)] assms(3-5) by simp
  with assms(2) v show "oid = Some (rw_id w)" "is_owner = assigned db tenant i (rw_id w)"
    "n = card (ur_user_id ` {a \<in> set (id_user_roles db). ur_tenant_id a = tenant \<and> ur_role_id a = rw_id w})"
    by (auto simp: owner_state_def rbind_Inr_iff row_i32_def split: if_splits)
qed

lemma other_owner:
  assumes "identity_ok db" and "owner_state db tenant i = Ok (oid, is_owner, n)"
    and "w \<in> set (id_roles db)" and "rw_tenant_id w = tenant" and "rw_name w = OWNER_ROLE"
    and "a \<in> set (id_user_roles db)" and "ur_tenant_id a = tenant" and "ur_role_id a = rw_id w"
    and "\<not> (is_owner \<and> n \<le> 1)"
  shows "\<exists>b \<in> set (id_user_roles db). ur_tenant_id b = tenant \<and> ur_role_id b = rw_id w \<and> ur_user_id b \<noteq> i"
proof (cases is_owner)
  case True
  let ?S = "{a \<in> set (id_user_roles db). ur_tenant_id a = tenant \<and> ur_role_id a = rw_id w}"
  have "1 < card (ur_user_id ` ?S)" using owner_state_role(3) [OF assms(1-5)] assms(9) True by simp
  then have "\<not> ur_user_id ` ?S \<subseteq> {i}" using card_mono [of "{i}" "ur_user_id ` ?S"] by auto
  then show ?thesis by auto
next
  case False
  then have "ur_user_id a \<noteq> i" using owner_state_role(2) [OF assms(1-5)] assms(6-8) by (auto simp: assigned_def)
  with assms(6-8) show ?thesis by blast
qed

lemma delete_user_keeps:
  assumes "delete_user ch tenant i db = Ok (outcome, db')"
  shows "keeps db db'"
proof (cases "db' = db")
  case False
  then obtain oid is_owner n where o: "owner_state db tenant i = Ok (oid, is_owner, n)" "\<not> (is_owner \<and> n \<le> 1)"
    and db': "db' = remove_user tenant i db"
    using assms by (auto simp: delete_user_def rbind_Inr_iff split: if_splits)
  show ?thesis
  proof (rule keepsI)
    assume ok: "identity_ok db"
    note k = identity_okD [OF ok]
    show ok': "identity_ok db'"
    proof (rule identity_okI)
      show "distinct (map us_id (id_users db'))" using k(1) by (simp add: db' remove_user_def distinct_map_filter)
      show "\<exists>u \<in> set (id_users db'). user_at (ur_tenant_id a) (ur_user_id a) u" if "a \<in> set (id_user_roles db')" for a
        using that k(5) [of a] by (auto simp: db' remove_user_def)
    qed (use k(2-4,6) in \<open>auto simp: db' remove_user_def\<close>)
    fix t assume "has_owner t db"
    then obtain w a where w: "w \<in> set (id_roles db)" "rw_tenant_id w = t" "rw_name w = OWNER_ROLE"
      and a: "a \<in> set (id_user_roles db)" "ur_tenant_id a = t" "ur_role_id a = rw_id w"
      unfolding has_owner_iff [OF ok] by blast
    have "\<exists>b \<in> set (id_user_roles db'). ur_tenant_id b = t \<and> ur_role_id b = rw_id w"
    proof (cases "t = tenant")
      case True
      then show ?thesis using other_owner [OF ok o(1) w(1) _ w(3) a(1) _ a(3) o(2)] w(2) a(2) by (auto simp: db' remove_user_def)
    qed (use a in \<open>auto simp: db' remove_user_def\<close>)
    with w show "has_owner t db'" unfolding has_owner_iff [OF ok'] by (auto simp: db' remove_user_def)
  qed
qed simp

lemma set_roles_keeps:
  assumes "set_roles ch now tenant i role_ids db = Ok (outcome, db')"
  shows "keeps db db'"
proof (cases "db' = db")
  case False
  then obtain d roles oid is_owner n where h: "hydrate ch db tenant i = Ok (Some d)"
    and s: "selected_roles ch db tenant (Some role_ids) = Ok (Some roles)"
    and o: "owner_state db tenant i = Ok (oid, is_owner, n)"
      "\<not> (is_owner \<and> n \<le> 1) \<or> is_some_and (\<lambda>j. \<exists>r \<in> set roles. role_id r = j) oid"
    and r: "replace_roles now tenant i roles db = Ok db'"
    using assms by (auto simp: set_roles_def rbind_Inr_iff split: if_splits option.splits)
  show ?thesis
  proof (rule keepsI)
    assume ok: "identity_ok db"
    note rep = replace_roles_Ok [OF r]
    have "\<exists>u \<in> set (id_users db). user_at tenant i u" using h by (auto elim: hydrate_Some)
    then show ok': "identity_ok db'" using replace_roles_ok [OF r ok] selected_roles_exist [OF s] by blast
    fix t assume "has_owner t db"
    then obtain w a where w: "w \<in> set (id_roles db)" "rw_tenant_id w = t" "rw_name w = OWNER_ROLE"
      and a: "a \<in> set (id_user_roles db)" "ur_tenant_id a = t" "ur_role_id a = rw_id w"
      unfolding has_owner_iff [OF ok] by blast
    have "\<exists>b \<in> set (id_user_roles db'). ur_tenant_id b = t \<and> ur_role_id b = rw_id w"
    proof (cases "t = tenant")
      case True
      show ?thesis
      proof (cases "is_owner \<and> n \<le> 1")
        case False
        then show ?thesis using other_owner [OF ok o(1) w(1) _ w(3) a(1) _ a(3) False] True w(2) a(2) unfolding rep(5) by auto
      next
        case last: True
        then obtain q where "q \<in> set roles" "role_id q = rw_id w"
          using o owner_state_role(1) [OF ok o(1) w(1) _ w(3)] True w(2) by (auto simp: is_some_and_iff)
        then show ?thesis using True unfolding rep(5) by force
      qed
    qed (use a in \<open>auto simp: rep(5)\<close>)
    with w show "has_owner t db'" unfolding has_owner_iff [OF ok'] rep(1) by blast
  qed
qed simp

lemma keeps_trans: "keeps a b \<Longrightarrow> keeps b c \<Longrightarrow> keeps a c"
  by (simp add: keeps_def)

lemma keeps_roles:
  assumes "id_users db' = id_users db" and "id_user_roles db' = id_user_roles db" and "id_roles db' = map g (id_roles db)"
    and g: "\<And>w. rw_id (g w) = rw_id w \<and> rw_tenant_id (g w) = rw_tenant_id w \<and> rw_is_system (g w) = rw_is_system w"
    and names: "\<And>v w. identity_ok db \<Longrightarrow> v \<in> set (id_roles db) \<Longrightarrow> w \<in> set (id_roles db) \<Longrightarrow>
      rw_tenant_id v = rw_tenant_id w \<Longrightarrow> rw_name (g v) = rw_name (g w) \<Longrightarrow> v = w"
    and owner: "\<And>w. identity_ok db \<Longrightarrow> w \<in> set (id_roles db) \<Longrightarrow> rw_name (g w) = OWNER_ROLE \<longleftrightarrow> rw_name w = OWNER_ROLE"
  shows "keeps db db'"
proof (rule keepsI)
  assume ok: "identity_ok db"
  note k = identity_okD [OF ok]
  show ok': "identity_ok db'"
  proof (rule identity_okI)
    have "map rw_id (id_roles db') = map rw_id (id_roles db)" using g by (simp add: assms(3))
    then show "distinct (map rw_id (id_roles db'))" using k(2) by simp
    show "v = w" if roles: "v \<in> set (id_roles db')" "w \<in> set (id_roles db')"
      and same: "rw_tenant_id v = rw_tenant_id w" "rw_name v = rw_name w" for v w
    proof -
      obtain x y where "v = g x" "x \<in> set (id_roles db)" "w = g y" "y \<in> set (id_roles db)" using roles by (auto simp: assms(3))
      with names [OF ok, of x y] same g show ?thesis by simp
    qed
    show "rw_is_system w" if "w \<in> set (id_roles db')" "rw_name w = OWNER_ROLE" for w
      using that owner [OF ok] k(4) g by (auto simp: assms(3))
    show "\<exists>w \<in> set (id_roles db'). role_at (ur_tenant_id a) (ur_role_id a) w" if "a \<in> set (id_user_roles db')" for a
      using that k(6) [of a] g by (auto simp: assms(2,3))
  qed (use k(1,5) assms(1,2) in auto)
  fix t assume "has_owner t db"
  then show "has_owner t db'"
    unfolding has_owner_iff [OF ok] has_owner_iff [OF ok'] assms(2,3) using g owner [OF ok] by auto
qed

lemma keeps_role_update:
  assumes "\<And>w. rw_id (f w) = rw_id w \<and> rw_tenant_id (f w) = rw_tenant_id w \<and> rw_is_system (f w) = rw_is_system w
    \<and> rw_name (f w) = rw_name w"
  shows "keeps db (db\<lparr>id_roles := update_where p f (id_roles db)\<rparr>)"
  using assms
  by (intro keeps_roles [where g = "\<lambda>w. if p w then f w else w"]) (auto simp: update_where_def dest: identity_okD(3) split: if_splits)

lemma patch_name_keeps:
  assumes "patch_name tenant i name db = Ok db'" and "name \<noteq> Some OWNER_ROLE"
    and "\<And>w. w \<in> set (id_roles db) \<Longrightarrow> role_at tenant i w \<Longrightarrow> \<not> rw_is_system w"
  shows "keeps db db'"
proof (cases name)
  case (Some n)
  have free: "rw_tenant_id w = tenant \<Longrightarrow> rw_name w = n \<Longrightarrow> rw_id w = i" if "w \<in> set (id_roles db)" for w
    using assms(1) that unfolding Some by (auto simp: patch_name_def split: if_splits)
  let ?g = "\<lambda>w. if role_at tenant i w then w\<lparr>rw_name := n\<rparr> else w"
  have db': "db' = db\<lparr>id_roles := map ?g (id_roles db)\<rparr>"
    using assms(1) Some by (auto simp: patch_name_def update_where_def split: if_splits)
  show ?thesis
  proof (rule keeps_roles [where g = ?g])
    fix v w assume ok: "identity_ok db" and v: "v \<in> set (id_roles db)" and w: "w \<in> set (id_roles db)"
      and t: "rw_tenant_id v = rw_tenant_id w" and n: "rw_name (?g v) = rw_name (?g w)"
    note k = identity_okD [OF ok]
    consider "role_at tenant i v \<longleftrightarrow> role_at tenant i w" | "role_at tenant i v" "\<not> role_at tenant i w"
      | "\<not> role_at tenant i v" "role_at tenant i w" by blast
    then show "v = w"
    proof cases
      case 1
      then show ?thesis using k(3) [OF v w t] k(8) [OF v w] n by (auto split: if_splits)
    next
      case 2
      then show ?thesis using free [OF w] t n by auto
    next
      case 3
      then show ?thesis using free [OF v] t n by auto
    qed
  next
    fix w assume ok: "identity_ok db" and w: "w \<in> set (id_roles db)"
    show "rw_name (?g w) = OWNER_ROLE \<longleftrightarrow> rw_name w = OWNER_ROLE"
      using assms(2) Some assms(3) [OF w] identity_okD(4) [OF ok w] by auto
  qed (auto simp: db')
qed (use assms(1) in \<open>simp add: patch_name_def\<close>)

lemma patch_description_keeps: "keeps db (patch_description tenant i description db)"
  by (auto simp: patch_description_def split: option.split intro!: keeps_role_update)

lemma patch_permissions_keeps:
  assumes "patch_permissions tenant i permissions db = Ok db'"
  shows "keeps db db'"
proof (cases permissions)
  case (Some ps)
  then show ?thesis using assms
    by (intro keeps_users [where p = "\<lambda>u. us_tenant_id u = tenant \<and> assigned db tenant (us_id u) i" and f = bump_version])
      (auto simp: patch_permissions_def rbind_Inr_iff bump_version_def)
qed (use assms in \<open>simp add: patch_permissions_def\<close>)

lemma role_details_Some:
  assumes "role_details_of ch db tenant i = Ok (Some d)"
  obtains w where "w \<in> set (id_roles db)" and "role_at tenant i w" and "rw_is_system w = role_is_system (rd_role d)"
    and "rd_user_count d = count_where (\<lambda>a. ur_tenant_id a = tenant \<and> ur_role_id a = i) (id_user_roles db)"
proof -
  obtain w where f: "find (role_at tenant i) (id_roles db) = Some w" "decode_role ch w = Ok (rd_role d)"
      "rd_user_count d = count_where (\<lambda>a. ur_tenant_id a = tenant \<and> ur_role_id a = i) (id_user_roles db)"
    using assms by (auto simp: role_details_of_def rbind_Inr_iff split: option.splits)
  from f(1) have "w \<in> set (id_roles db) \<and> role_at tenant i w" by (auto simp: find_Some_iff)
  with f(2,3) that show thesis using decode_role_Ok by metis
qed

lemma update_role_Ok:
  assumes "update_role ch clock tenant i patch db = Ok (outcome, db')" and "db' \<noteq> db" and "identity_ok db"
  obtains n db2 where "\<And>v. v \<in> set (id_roles db) \<Longrightarrow> rw_id v = i \<Longrightarrow> \<not> rw_is_system v"
    and "patch_name tenant i (rp_name patch)
      (db\<lparr>id_roles := update_where (role_at tenant i) (\<lambda>w. w\<lparr>rw_updated_at := n\<rparr>) (id_roles db)\<rparr>) = Ok db2"
    and "patch_permissions tenant i (rp_permissions patch) (patch_description tenant i (rp_description patch) db2) = Ok db'"
proof -
  let ?f = "\<lambda>n w. w\<lparr>rw_updated_at := n\<rparr>"
  obtain d n db2 where d: "role_details_of ch db tenant i = Ok (Some d)" "\<not> role_is_system (rd_role d)"
    and p: "patch_name tenant i (rp_name patch) (db\<lparr>id_roles := update_where (role_at tenant i) (?f n) (id_roles db)\<rparr>) = Ok db2"
      "patch_permissions tenant i (rp_permissions patch) (patch_description tenant i (rp_description patch) db2) = Ok db'"
    using assms(1,2) by (auto simp: update_role_def rbind_Inr_iff Let_def split: option.splits if_splits)
  obtain w where w: "w \<in> set (id_roles db)" "role_at tenant i w" "rw_is_system w = role_is_system (rd_role d)"
    by (rule role_details_Some [OF d(1)])
  have "\<not> rw_is_system v" if "v \<in> set (id_roles db)" "rw_id v = i" for v
    using identity_okD(8) [OF assms(3) that(1) w(1)] that(2) w(2,3) d(2) by simp
  then show thesis using p that by blast
qed

lemma update_role_keeps:
  assumes "update_role ch clock tenant i patch db = Ok (outcome, db')" and "rp_name patch \<noteq> Some OWNER_ROLE"
  shows "keeps db db'"
proof (cases "identity_ok db \<and> db' \<noteq> db")
  case True
  let ?f = "\<lambda>n w. w\<lparr>rw_updated_at := n\<rparr>"
  obtain n db2 where sys: "\<And>v. v \<in> set (id_roles db) \<Longrightarrow> rw_id v = i \<Longrightarrow> \<not> rw_is_system v"
    and p2: "patch_name tenant i (rp_name patch) (db\<lparr>id_roles := update_where (role_at tenant i) (?f n) (id_roles db)\<rparr>) = Ok db2"
    and p3: "patch_permissions tenant i (rp_permissions patch) (patch_description tenant i (rp_description patch) db2) = Ok db'"
    using True by (auto intro: update_role_Ok [OF assms(1)])
  have nonsys: "\<not> rw_is_system v" if v: "v \<in> set (update_where (role_at tenant i) (?f n) (id_roles db))" "role_at tenant i v" for v
  proof -
    obtain x where x: "x \<in> set (id_roles db)" "v = (if role_at tenant i x then ?f n x else x)"
      using v(1) unfolding set_update_where by blast
    have "role_at tenant i x" "rw_is_system x = rw_is_system v" using x(2) v(2) by (simp_all split: if_splits)
    with sys [OF x(1)] show ?thesis by simp
  qed
  have "keeps db (db\<lparr>id_roles := update_where (role_at tenant i) (?f n) (id_roles db)\<rparr>)" by (rule keeps_role_update) simp
  also have "keeps \<dots> db2" using patch_name_keeps [OF p2 assms(2)] nonsys by simp
  finally (keeps_trans) have "keeps db db2" .
  then show ?thesis
    using patch_permissions_keeps [OF p3] patch_description_keeps keeps_trans by blast
qed (auto simp: keeps_def)

lemma keeps_new_role:
  assumes "id_users db' = id_users db" and "id_user_roles db' = id_user_roles db" and "id_roles db' = id_roles db @ [w]"
    and "\<And>v. v \<in> set (id_roles db) \<Longrightarrow> rw_id v \<noteq> rw_id w \<and> \<not> (rw_tenant_id v = rw_tenant_id w \<and> rw_name v = rw_name w)"
    and "rw_name w = OWNER_ROLE \<Longrightarrow> rw_is_system w"
  shows "keeps db db'"
proof (rule keepsI)
  assume ok: "identity_ok db"
  note k = identity_okD [OF ok]
  show ok': "identity_ok db'"
  proof (rule identity_okI)
    show "distinct (map rw_id (id_roles db'))" using k(2) assms(4) by (fastforce simp: assms(3))
    show "x = y" if "x \<in> set (id_roles db')" "y \<in> set (id_roles db')" "rw_tenant_id x = rw_tenant_id y" "rw_name x = rw_name y" for x y
    proof -
      have "x = w \<or> x \<in> set (id_roles db)" "y = w \<or> y \<in> set (id_roles db)" using that(1,2) by (auto simp: assms(3))
      then show "x = y" using that(3,4) k(3) assms(4) by metis
    qed
    show "rw_is_system v" if "v \<in> set (id_roles db')" "rw_name v = OWNER_ROLE" for v
      using that k(4) [of v] assms(5) by (auto simp: assms(3))
    show "\<exists>u \<in> set (id_users db'). user_at (ur_tenant_id a) (ur_user_id a) u" if "a \<in> set (id_user_roles db')" for a
      using that k(5) [of a] by (simp add: assms(1,2))
    show "\<exists>w \<in> set (id_roles db'). role_at (ur_tenant_id a) (ur_role_id a) w" if "a \<in> set (id_user_roles db')" for a
      using that k(6) [of a] by (auto simp: assms(2,3))
  qed (simp add: assms(1) k(1))
  fix t assume "has_owner t db"
  then show "has_owner t db'" unfolding has_owner_iff [OF ok] has_owner_iff [OF ok'] by (auto simp: assms(2,3))
qed

lemma create_role_keeps:
  assumes "create_role ch now tenant n db = Ok (d, db')" and "nr_name n \<noteq> OWNER_ROLE"
  shows "keeps db db'"
proof -
  let ?w = "\<lparr>rw_id = next_rowid (map rw_id (id_roles db)), rw_tenant_id = tenant, rw_name = nr_name n,
    rw_description = nr_description n, rw_is_system = False, rw_created_at = now, rw_updated_at = now\<rparr>"
  have free: "\<not> (\<exists>w \<in> set (id_roles db). rw_tenant_id w = tenant \<and> rw_name w = nr_name n)"
    using assms(1) by (auto simp: create_role_def split: if_splits)
  have db': "id_users db' = id_users db" "id_user_roles db' = id_user_roles db" "id_roles db' = id_roles db @ [?w]"
    using assms(1) by (auto simp: create_role_def rbind_Inr_iff Let_def split: if_splits option.splits)
  show ?thesis
    by (rule keeps_new_role [OF db'])
      (use free assms(2) next_rowid_fresh [of _ "map rw_id (id_roles db)"] in \<open>auto dest: less_imp_neq\<close>)
qed

lemma delete_role_Ok:
  assumes "delete_role ch tenant i db = Ok (outcome, db')" and "db' \<noteq> db"
  obtains v where "v \<in> set (id_roles db)" and "role_at tenant i v" and "\<not> rw_is_system v" and "db' = remove_role tenant i db"
    and "\<And>a. a \<in> set (id_user_roles db) \<Longrightarrow> \<not> (ur_tenant_id a = tenant \<and> ur_role_id a = i)"
proof -
  obtain d where d: "role_details_of ch db tenant i = Ok (Some d)" "\<not> role_is_system (rd_role d)" "rd_user_count d = 0"
    and db': "db' = remove_role tenant i db"
    using assms by (auto simp: delete_role_def rbind_Inr_iff split: option.splits if_splits)
  obtain v where v: "v \<in> set (id_roles db)" "role_at tenant i v" "rw_is_system v = role_is_system (rd_role d)"
      "rd_user_count d = count_where (\<lambda>a. ur_tenant_id a = tenant \<and> ur_role_id a = i) (id_user_roles db)"
    by (rule role_details_Some [OF d(1)])
  have unused: "\<not> (ur_tenant_id a = tenant \<and> ur_role_id a = i)" if "a \<in> set (id_user_roles db)" for a
    using that d(3) v(4) by (auto simp: count_where_def filter_empty_conv)
  with v d(2) db' that show thesis by blast
qed

lemma delete_role_keeps:
  assumes "delete_role ch tenant i db = Ok (outcome, db')"
  shows "keeps db db'"
proof (cases "db' = db")
  case False
  have db': "db' = remove_role tenant i db"
    and unused: "\<And>a. a \<in> set (id_user_roles db) \<Longrightarrow> \<not> (ur_tenant_id a = tenant \<and> ur_role_id a = i)"
    using delete_role_Ok [OF assms False] by metis+
  have rows: "id_user_roles db' = id_user_roles db" using unused by (simp add: db' remove_role_def filter_True)
  show ?thesis
  proof (rule keepsI)
    assume ok: "identity_ok db"
    note k = identity_okD [OF ok]
    show ok': "identity_ok db'"
    proof (rule identity_okI)
      show "distinct (map rw_id (id_roles db'))" using k(2) by (simp add: db' remove_role_def distinct_map_filter)
      show "\<exists>w \<in> set (id_roles db'). role_at (ur_tenant_id a) (ur_role_id a) w" if "a \<in> set (id_user_roles db')" for a
        using that k(6) [of a] unused [of a] unfolding rows by (auto simp: db' remove_role_def)
    qed (use k(1,3,4,5) rows in \<open>auto simp: db' remove_role_def\<close>)
    fix t assume "has_owner t db"
    then obtain w a where w: "w \<in> set (id_roles db)" "rw_tenant_id w = t" "rw_name w = OWNER_ROLE"
      and a: "a \<in> set (id_user_roles db)" "ur_tenant_id a = t" "ur_role_id a = rw_id w"
      unfolding has_owner_iff [OF ok] by blast
    have "w \<in> set (id_roles db')" using w unused [OF a(1)] a by (auto simp: db' remove_role_def)
    with w a show "has_owner t db'" unfolding has_owner_iff [OF ok'] rows by blast
  qed
qed simp

lemma seed_owner_Ok:
  assumes "seed_owner_if_empty dt now epoch tenant username hash db = Ok (outcome, db')" and "db' \<noteq> db"
  obtains w i db1 where "id_users db = []" and "w \<in> set (ensure_owner_role now tenant (id_roles db))"
    and "rw_tenant_id w = tenant" and "rw_name w = OWNER_ROLE"
    and "insert_user now epoch tenant username hash ''owner'' 2
      (db\<lparr>id_roles := ensure_owner_role now tenant (id_roles db), id_permissions := grant_all (rw_id w) (id_permissions db)\<rparr>) = Ok (i, db1)"
    and "db' = db1\<lparr>id_user_roles := id_user_roles db1
      @ [\<lparr>ur_user_id = i, ur_role_id = rw_id w, ur_tenant_id = tenant, ur_created_at = now\<rparr>]\<rparr>"
proof -
  let ?roles = "ensure_owner_role now tenant (id_roles db)"
  obtain w i db1 where x: "id_users db = []"
      "find (\<lambda>w. rw_tenant_id w = tenant \<and> rw_name w = ''owner'') ?roles = Some w"
      "insert_user now epoch tenant username hash ''owner'' 2
        (db\<lparr>id_roles := ?roles, id_permissions := grant_all (rw_id w) (id_permissions db)\<rparr>) = Ok (i, db1)"
      "db' = db1\<lparr>id_user_roles := id_user_roles db1
        @ [\<lparr>ur_user_id = i, ur_role_id = rw_id w, ur_tenant_id = tenant, ur_created_at = now\<rparr>]\<rparr>"
    using assms by (auto simp: seed_owner_if_empty_def Let_def split: if_splits option.splits sum.splits)
  from x(2) have "w \<in> set ?roles \<and> rw_tenant_id w = tenant \<and> rw_name w = OWNER_ROLE"
    by (auto simp: find_Some_iff OWNER_ROLE_def)
  with x(1,3,4) that show thesis by blast
qed

lemma seed_owner_keeps:
  assumes "seed_owner_if_empty dt now epoch tenant username hash db = Ok (outcome, db')"
  shows "keeps db db'"
proof (cases "db' = db")
  case False
  let ?roles = "ensure_owner_role now tenant (id_roles db)"
  obtain w i db1 where x: "id_users db = []" "w \<in> set ?roles" "rw_tenant_id w = tenant"
      "insert_user now epoch tenant username hash ''owner'' 2
        (db\<lparr>id_roles := ?roles, id_permissions := grant_all (rw_id w) (id_permissions db)\<rparr>) = Ok (i, db1)"
      "db' = db1\<lparr>id_user_roles := id_user_roles db1
        @ [\<lparr>ur_user_id = i, ur_role_id = rw_id w, ur_tenant_id = tenant, ur_created_at = now\<rparr>]\<rparr>"
    using seed_owner_Ok [OF assms False] by metis
  let ?db0 = "db\<lparr>id_roles := ?roles, id_permissions := grant_all (rw_id w) (id_permissions db)\<rparr>"
  have "keeps db ?db0"
  proof (cases "\<exists>w \<in> set (id_roles db). rw_tenant_id w = tenant \<and> rw_name w = ''owner''")
    case True
    then show ?thesis by (simp add: ensure_owner_role_def keeps_def identity_ok_def has_owner_def assigned_def)
  next
    case False
    then show ?thesis
      using next_rowid_fresh [of _ "map rw_id (id_roles db)"]
      by (intro keeps_new_role [where w = "owner_role_row now tenant (next_rowid (map rw_id (id_roles db)))"])
        (auto simp: ensure_owner_role_def owner_role_row_def dest: less_imp_neq)
  qed
  moreover have "keeps ?db0 db'"
  proof (rule keepsI)
    assume ok0: "identity_ok ?db0"
    note one = insert_user_ok [OF x(4) ok0] and ins = insert_user_Ok(2) [OF x(4)]
    note k = identity_okD [OF one(1)]
    show "identity_ok db'"
    proof (rule identity_okI)
      show "\<exists>u \<in> set (id_users db'). user_at (ur_tenant_id a) (ur_user_id a) u" if "a \<in> set (id_user_roles db')" for a
        using that k(5) [of a] one(2) by (auto simp: x(5))
      show "\<exists>w \<in> set (id_roles db'). role_at (ur_tenant_id a) (ur_role_id a) w" if "a \<in> set (id_user_roles db')" for a
        using that k(6) [of a] x(2,3) by (auto simp: x(5) ins)
    qed (use k(1-4) in \<open>auto simp: x(5)\<close>)
    show "has_owner t db'" if "has_owner t ?db0" for t
      using that x(1) by (simp add: has_owner_def)
  qed
  ultimately show ?thesis by (rule keeps_trans)
qed simp

section \<open>From store operations to histories\<close>

lemma mapped_error_Inr_iff: "(case r of Inl e \<Rightarrow> Err (f e) | Inr x \<Rightarrow> Ok x) = Ok y \<longleftrightarrow> r = Ok y"
  by (cases r) simp_all

text \<open>
  A relation between states that every operation of the store respects holds between the two ends
  of a history. The first argument is the set of authentication epochs handed out in between.
\<close>

locale identity_relation =
  fixes R :: "string set \<Rightarrow> identity_db \<Rightarrow> identity_db \<Rightarrow> bool"
  assumes unchanged: "R {} db db"
    and composed: "R es db0 db1 \<Longrightarrow> R fs db1 db2 \<Longrightarrow> R (es \<union> fs) db0 db2"
    and weakened: "R es db0 db1 \<Longrightarrow> es \<subseteq> fs \<Longrightarrow> R fs db0 db1"
    and on_create_user: "create_user ch now later epoch tenant n db = Ok (created, db') \<Longrightarrow> R {epoch} db db'"
    and on_change_password: "R {} db (snd (change_password tenant i hash db))"
    and on_delete_user: "delete_user ch tenant i db = Ok (deleted, db') \<Longrightarrow> R {} db db'"
    and on_set_roles: "set_roles ch now tenant i role_ids db = Ok (assigned_roles, db') \<Longrightarrow> R {} db db'"
    and on_record_login: "R {} db (snd (record_login ch tenant i t db))"
    and on_create_role: "create_role ch now tenant role db = Ok (details, db') \<Longrightarrow> nr_name role \<noteq> OWNER_ROLE \<Longrightarrow> R {} db db'"
    and on_update_role: "update_role ch now tenant i patch db = Ok (updated, db') \<Longrightarrow> rp_name patch \<noteq> Some OWNER_ROLE \<Longrightarrow> R {} db db'"
    and on_delete_role: "delete_role ch tenant i db = Ok (removed, db') \<Longrightarrow> R {} db db'"
    and on_seed_owner: "seed_owner_if_empty dt now epoch tenant username hash db = Ok (seeded, db') \<Longrightarrow> R {epoch} db db'"
begin

lemma unchanged_any: "R es db db"
  using weakened [OF unchanged] by simp

lemma create_user_request_related: "R {epoch} db (snd (user_create_request ch H now later epoch ctx name password role_ids db))"
  by (auto simp: user_create_request_def unchanged_any intro: on_create_user split: sum.split create_user_outcome.split)

lemma change_password_request_related: "R {} db (snd (change_password_request H ctx i password db))"
  using on_change_password
  by (auto simp: change_password_request_def unchanged split: sum.split prod.split change_password_outcome.split) (metis snd_conv)+

lemma user_delete_request_related: "R {} db (snd (user_delete_request ch ctx i db))"
  by (auto simp: user_delete_request_def unchanged rbind_Inr_iff persistence_def intro: on_delete_user split: sum.splits)

lemma set_roles_request_related: "R {} db (snd (set_roles_request ch now ctx i role_ids db))"
  by (auto simp: set_roles_request_def unchanged rbind_Inr_iff persistence_def intro: on_set_roles split: sum.splits if_splits)

lemma role_create_request_related:
  "R {} db (case role_create_request ch now ctx name description permissions db of Inl _ \<Rightarrow> db | Inr (_, db') \<Rightarrow> db')"
  by (auto simp: role_create_request_def unchanged rbind_Inr_iff mapped_error_Inr_iff is_builtin_role_name_def intro: on_create_role split: sum.splits if_splits)

lemma role_update_request_related: "R {} db (snd (role_update_request ch now ctx i update db))"
  by (auto simp: role_update_request_def unchanged rbind_Inr_iff mapped_error_Inr_iff is_builtin_role_name_def is_some_and_def
    elim!: on_update_role split: sum.splits if_splits option.splits)

lemma role_delete_request_related: "R {} db (snd (role_delete_request ch ctx i db))"
  by (auto simp: role_delete_request_def unchanged rbind_Inr_iff persistence_def intro: on_delete_role split: sum.splits)

lemma authenticate_related: "R {} db (snd (authenticate ch H now tenant username password db))"
  by (auto simp: authenticate_def unchanged intro: on_record_login split: sum.split option.split)

lemma seed_prepared_owner_related:
  "seed_prepared_owner dt H now epoch tenant username password db = Ok (outcome, db') \<Longrightarrow> R {epoch} db db'"
  by (auto simp: seed_prepared_owner_def persistence_def intro: on_seed_owner split: sum.splits)

lemma seed_local_owner_related:
  "seed_local_owner dt H now epoch tenant name password db = Ok (outcome, db') \<Longrightarrow> R {epoch} db db'"
  by (auto simp: seed_local_owner_def seed_owner_def Let_def rbind_Inr_iff
    intro: seed_prepared_owner_related split: if_splits sum.splits)

lemma apply_related: "R (op_epochs op) db (identity_apply E op db)"
proof (cases op)
  case (SeedOwner now epoch tenant name password)
  then show ?thesis by (auto simp: unchanged_any intro: seed_local_owner_related split: sum.split)
qed (simp_all add: create_user_request_related change_password_request_related user_delete_request_related
  set_roles_request_related role_create_request_related role_update_request_related role_delete_request_related
  authenticate_related)

lemma run_related: "R (\<Union>op \<in> set ops. op_epochs op) db (identity_run E ops db)"
proof (induction ops arbitrary: db)
  case (Cons op ops)
  show ?case using composed [OF apply_related Cons.IH] by simp
qed (simp add: unchanged)

end

interpretation owners: identity_relation "\<lambda>_. keeps"
  by unfold_locales
    (auto intro: keeps_trans create_user_keeps change_password_keeps delete_user_keeps set_roles_keeps record_login_keeps
      create_role_keeps update_role_keeps delete_role_keeps seed_owner_keeps)

lemma baseline_identity_ok: "identity_ok (baseline_identity now)"
  by (auto simp: identity_ok_def baseline_identity_def baseline_roles_def system_role_def)

lemma identity_run_append: "identity_run E (ops @ rest) db = identity_run E rest (identity_run E ops db)"
  by (induction ops arbitrary: db) simp_all

end
