(* ===== verification/Lockout.thy ===== *)
theory Lockout
  imports Identity_Protocol
begin

text \<open>
  Lockout protection. The owner role of a tenant always carries every permission and no user is
  ever deactivated, so a tenant that has an owner keeps a user who can do everything.
\<close>

definition owner_full :: "identity_db \<Rightarrow> bool" where
  "owner_full db \<longleftrightarrow> (\<forall>u \<in> set (id_users db). us_is_active u)
     \<and> (\<forall>w \<in> set (id_roles db). rw_name w = OWNER_ROLE \<longrightarrow> (\<forall>p. (rw_id w, permission_key p) \<in> set (id_permissions db)))"

definition keeps_full :: "identity_db \<Rightarrow> identity_db \<Rightarrow> bool" where
  "keeps_full db db' \<longleftrightarrow> keeps db db' \<and> (identity_ok db \<longrightarrow> owner_full db \<longrightarrow> owner_full db')"

lemma keeps_full_trans: "keeps_full db0 db1 \<Longrightarrow> keeps_full db1 db2 \<Longrightarrow> keeps_full db0 db2"
  unfolding keeps_full_def keeps_def by blast

text \<open>Owner roles come from owner roles and keep their permissions.\<close>

lemma keeps_fullI:
  assumes "keeps db db'"
    and "\<And>u. identity_ok db \<Longrightarrow> u \<in> set (id_users db') \<Longrightarrow> us_is_active u \<or> (\<exists>v \<in> set (id_users db). us_is_active u = us_is_active v)"
    and "\<And>w. identity_ok db \<Longrightarrow> w \<in> set (id_roles db') \<Longrightarrow> rw_name w = OWNER_ROLE \<Longrightarrow>
      \<exists>v \<in> set (id_roles db). rw_name v = OWNER_ROLE \<and> rw_id v = rw_id w"
    and "\<And>w k. identity_ok db \<Longrightarrow> w \<in> set (id_roles db) \<Longrightarrow> rw_name w = OWNER_ROLE \<Longrightarrow>
      (rw_id w, k) \<in> set (id_permissions db) \<Longrightarrow> (rw_id w, k) \<in> set (id_permissions db')"
  shows "keeps_full db db'"
  using assms unfolding keeps_full_def owner_full_def by metis

lemma active_update:
  assumes "\<And>u. us_is_active (f u) = us_is_active u" and "u \<in> set (update_where p f us)"
  shows "\<exists>v \<in> set us. us_is_active u = us_is_active v"
  using assms by (auto simp: update_where_def)

lemma change_password_full: "keeps_full db (snd (change_password tenant i hash db))"
proof (rule keeps_fullI [OF change_password_keeps])
  fix u assume "u \<in> set (id_users (snd (change_password tenant i hash db)))"
  then show "us_is_active u \<or> (\<exists>v \<in> set (id_users db). us_is_active u = us_is_active v)"
    by (intro disjI2 active_update) (auto simp: change_password_def bump_version_def)
qed (auto simp: change_password_def)

lemma record_login_full: "keeps_full db (snd (record_login ch tenant i t db))"
proof (rule keeps_fullI [OF record_login_keeps])
  fix u assume "u \<in> set (id_users (snd (record_login ch tenant i t db)))"
  then show "us_is_active u \<or> (\<exists>v \<in> set (id_users db). us_is_active u = us_is_active v)"
    by (intro disjI2 active_update) (auto simp: record_login_def)
qed (auto simp: record_login_def)

lemma replaced_active:
  assumes "replace_roles now tenant i roles db = Ok db'" and "u \<in> set (id_users db')"
  shows "\<exists>v \<in> set (id_users db). us_is_active u = us_is_active v"
  using active_update [of "\<lambda>u. (bump_version u)\<lparr>us_role := primary_role roles\<rparr>"] assms(2)
  unfolding replace_roles_Ok(4) [OF assms(1)] by (auto simp: bump_version_def)

lemma create_user_full:
  assumes "create_user ch now later epoch tenant n db = Ok (outcome, db')"
  shows "keeps_full db db'"
proof (cases "db' = db")
  case False
  obtain roles i db1 where i: "insert_user now epoch tenant (nu_username n) (nu_password_hash n) (primary_role roles) 1 db = Ok (i, db1)"
    and r: "replace_roles later tenant i roles db1 = Ok db'"
    by (rule create_user_Ok [OF assms False])
  note new = insert_user_Ok(2) [OF i] and old = replace_roles_Ok [OF r]
  show ?thesis
  proof (rule keeps_fullI [OF create_user_keeps [OF assms]])
    fix u assume "u \<in> set (id_users db')"
    then show "us_is_active u \<or> (\<exists>v \<in> set (id_users db). us_is_active u = us_is_active v)"
      using replaced_active [OF r] by (auto simp: new new_user_row_def)
  qed (auto simp: old(1,3) new)
qed (simp add: keeps_full_def)

lemma delete_user_full:
  assumes "delete_user ch tenant i db = Ok (outcome, db')"
  shows "keeps_full db db'"
  by (rule keeps_fullI [OF delete_user_keeps [OF assms]])
    (use assms in \<open>auto simp: delete_user_def remove_user_def rbind_Inr_iff split: if_splits\<close>)

lemma set_roles_full:
  assumes "set_roles ch now tenant i role_ids db = Ok (outcome, db')"
  shows "keeps_full db db'"
proof (cases "db' = db")
  case False
  then obtain roles where r: "replace_roles now tenant i roles db = Ok db'"
    using assms by (auto simp: set_roles_def rbind_Inr_iff split: if_splits option.splits)
  show ?thesis
    by (rule keeps_fullI [OF set_roles_keeps [OF assms]]) (use replaced_active [OF r] in \<open>auto simp: replace_roles_Ok [OF r]\<close>)
qed (simp add: keeps_full_def)

lemma insert_permissions_mono: "insert_permissions i ps rows = Ok rows' \<Longrightarrow> set rows \<subseteq> set rows'"
  by (induction ps arbitrary: rows) (fastforce split: if_splits)+

lemma create_role_full:
  assumes "create_role ch now tenant n db = Ok (d, db')" and "nr_name n \<noteq> OWNER_ROLE"
  shows "keeps_full db db'"
proof -
  obtain w where w: "id_users db' = id_users db" "id_roles db' = id_roles db @ [w]" "rw_name w = nr_name n"
      "set (id_permissions db) \<subseteq> set (id_permissions db')"
    using assms(1) by (auto simp: create_role_def rbind_Inr_iff Let_def split: if_splits option.splits dest!: insert_permissions_mono)
  show ?thesis
    by (rule keeps_fullI [OF create_role_keeps [OF assms]]) (use w assms(2) in auto)
qed

lemma delete_role_full:
  assumes "delete_role ch tenant i db = Ok (outcome, db')"
  shows "keeps_full db db'"
proof (cases "db' = db")
  case False
  obtain v where v: "v \<in> set (id_roles db)" "role_at tenant i v" "\<not> rw_is_system v" "db' = remove_role tenant i db"
    by (rule delete_role_Ok [OF assms False])
  show ?thesis
  proof (rule keeps_fullI [OF delete_role_keeps [OF assms]])
    fix w k assume ok: "identity_ok db" and w: "w \<in> set (id_roles db)" "rw_name w = OWNER_ROLE" "(rw_id w, k) \<in> set (id_permissions db)"
    have "rw_id w \<noteq> i" using identity_okD(4) [OF ok w(1,2)] identity_okD(8) [OF ok w(1) v(1)] v(2,3) by auto
    with w(3) show "(rw_id w, k) \<in> set (id_permissions db')" by (simp add: v(4) remove_role_def)
  qed (auto simp: v(4) remove_role_def)
qed (simp add: keeps_full_def)

text \<open>Changing a role that is not a system role touches no owner role.\<close>

lemma renamed_not_owner:
  assumes "\<And>v. v \<in> set ws \<Longrightarrow> role_at tenant i v \<Longrightarrow> rw_name v \<noteq> OWNER_ROLE" and "\<And>v. rw_id (f v) = rw_id v"
    and "\<And>v. rw_name (f v) = OWNER_ROLE \<Longrightarrow> rw_name v = OWNER_ROLE"
    and "w \<in> set (update_where (role_at tenant i) f ws)" and "rw_name w = OWNER_ROLE"
  shows "w \<in> set ws"
proof -
  obtain x where x: "x \<in> set ws" "w = (if role_at tenant i x then f x else x)"
    using assms(4) unfolding set_update_where by blast
  with assms(1) [OF x(1)] assms(3) [of x] assms(5) have "\<not> role_at tenant i x" by auto
  with x show ?thesis by simp
qed

lemma patch_name_roles:
  assumes "patch_name tenant i name db = Ok db'" and "name \<noteq> Some OWNER_ROLE"
    and "\<And>v. v \<in> set (id_roles db) \<Longrightarrow> role_at tenant i v \<Longrightarrow> rw_name v \<noteq> OWNER_ROLE"
    and "w \<in> set (id_roles db')"
  shows "role_at tenant i w \<Longrightarrow> rw_name w \<noteq> OWNER_ROLE"
    and "rw_name w = OWNER_ROLE \<Longrightarrow> w \<in> set (id_roles db)"
proof -
  consider "w \<in> set (id_roles db)"
    | x n where "name = Some n" "x \<in> set (id_roles db)" "w = (if role_at tenant i x then x\<lparr>rw_name := n\<rparr> else x)"
    using assms(1,4) by (auto simp: patch_name_def set_update_where split: option.splits if_splits)
  note split = this
  from split show "rw_name w \<noteq> OWNER_ROLE" if "role_at tenant i w"
  proof cases
    case 1
    with assms(3) that show ?thesis by blast
  next
    case 2
    with assms(2) that show ?thesis by (auto split: if_splits)
  qed
  from split show "w \<in> set (id_roles db)" if "rw_name w = OWNER_ROLE"
  proof cases
    case 2
    with assms(2) that show ?thesis by (auto split: if_splits)
  qed
qed

lemma patch_name_rest:
  "patch_name tenant i name db = Ok db' \<Longrightarrow> id_users db' = id_users db \<and> id_permissions db' = id_permissions db"
  by (auto simp: patch_name_def split: option.splits if_splits)

lemma patch_permissions_rest:
  assumes "patch_permissions tenant i permissions db = Ok db'"
  shows "id_roles db' = id_roles db" and "j \<noteq> i \<Longrightarrow> (j, k) \<in> set (id_permissions db) \<Longrightarrow> (j, k) \<in> set (id_permissions db')"
    and "u \<in> set (id_users db') \<Longrightarrow> \<exists>v \<in> set (id_users db). us_is_active u = us_is_active v"
proof -
  show "id_roles db' = id_roles db"
    using assms by (auto simp: patch_permissions_def rbind_Inr_iff split: option.splits)
  show "(j, k) \<in> set (id_permissions db')" if "j \<noteq> i" "(j, k) \<in> set (id_permissions db)"
    using assms that by (auto simp: patch_permissions_def rbind_Inr_iff split: option.splits dest!: insert_permissions_mono)
  show "\<exists>v \<in> set (id_users db). us_is_active u = us_is_active v" if "u \<in> set (id_users db')"
    using assms that active_update [of bump_version u]
    by (auto simp: patch_permissions_def rbind_Inr_iff bump_version_def split: option.splits)
qed

lemma update_role_full:
  assumes "update_role ch clock tenant i patch db = Ok (outcome, db')" and "rp_name patch \<noteq> Some OWNER_ROLE"
  shows "keeps_full db db'"
proof (cases "identity_ok db \<and> db' \<noteq> db")
  case True
  let ?dbA = "\<lambda>n. db\<lparr>id_roles := update_where (role_at tenant i) (\<lambda>w. w\<lparr>rw_updated_at := n\<rparr>) (id_roles db)\<rparr>"
  obtain n db2 where sys: "\<And>v. v \<in> set (id_roles db) \<Longrightarrow> rw_id v = i \<Longrightarrow> \<not> rw_is_system v"
    and p2: "patch_name tenant i (rp_name patch) (?dbA n) = Ok db2"
    and p3: "patch_permissions tenant i (rp_permissions patch) (patch_description tenant i (rp_description patch) db2) = Ok db'"
    using True by (auto intro: update_role_Ok [OF assms(1)])
  have plain: "rw_name v \<noteq> OWNER_ROLE" if "v \<in> set (id_roles db)" "rw_id v = i" for v
    using sys [OF that] identity_okD(4) [of db v] True that(1) by blast
  have A: "rw_name v \<noteq> OWNER_ROLE" if v: "v \<in> set (id_roles (?dbA n))" "role_at tenant i v" for v
  proof -
    obtain x where x: "x \<in> set (id_roles db)" "v = (if role_at tenant i x then x\<lparr>rw_updated_at := n\<rparr> else x)"
      using v(1) by (auto simp: set_update_where)
    have "rw_id x = i" "rw_name x = rw_name v" using x(2) v(2) by (simp_all split: if_splits)
    with plain [OF x(1)] show ?thesis by simp
  qed
  have two: "role_at tenant i w \<Longrightarrow> rw_name w \<noteq> OWNER_ROLE" "rw_name w = OWNER_ROLE \<Longrightarrow> w \<in> set (id_roles (?dbA n))"
    if "w \<in> set (id_roles db2)" for w
    using patch_name_roles [OF p2 assms(2) _ that] A by blast+
  note rest = patch_permissions_rest [OF p3]
  have roles: "w \<in> set (id_roles db)" if w: "w \<in> set (id_roles db')" "rw_name w = OWNER_ROLE" for w
  proof -
    have "w \<in> set (id_roles db2)"
    proof (cases "rp_description patch")
      case (Some d)
      have "w \<in> set (update_where (role_at tenant i) (\<lambda>w. w\<lparr>rw_description := d\<rparr>) (id_roles db2))"
        using w(1) Some by (simp add: rest(1) patch_description_def)
      from this w(2) show ?thesis by (rule renamed_not_owner [rotated 3]) (erule two(1), simp_all)
    qed (use w(1) in \<open>simp add: rest(1) patch_description_def\<close>)
    then have "w \<in> set (update_where (role_at tenant i) (\<lambda>w. w\<lparr>rw_updated_at := n\<rparr>) (id_roles db))"
      using two(2) w(2) by simp
    from this w(2) show ?thesis by (rule renamed_not_owner [rotated 3]) (erule plain, simp_all)
  qed
  have keep: "id_users (patch_description tenant i (rp_description patch) db2) = id_users db"
    "id_permissions (patch_description tenant i (rp_description patch) db2) = id_permissions db"
    using patch_name_rest [OF p2] by (simp_all add: patch_description_def split: option.split)
  show ?thesis
  proof (rule keeps_fullI [OF update_role_keeps [OF assms]])
    fix w k assume "w \<in> set (id_roles db)" "rw_name w = OWNER_ROLE" "(rw_id w, k) \<in> set (id_permissions db)"
    then show "(rw_id w, k) \<in> set (id_permissions db')" using rest(2) plain by (simp add: keep) blast
  qed (use roles rest(3) in \<open>auto simp: keep\<close>)
qed (auto simp: keeps_full_def keeps_def)

lemma grant_all_mono: "set rows \<subseteq> set (grant_all i rows)"
proof -
  have "set rows \<subseteq> set (fold (\<lambda>p rows. if (i, permission_key p) \<in> set rows then rows else rows @ [(i, permission_key p)]) ps rows)" for ps
    by (induction ps arbitrary: rows) (simp, fastforce)
  then show ?thesis by (simp add: grant_all_def)
qed

lemma grant_all_grants: "(i, permission_key p) \<in> set (grant_all i rows)"
proof -
  let ?f = "\<lambda>p rows. if (i, permission_key p) \<in> set rows then rows else rows @ [(i, permission_key p)]"
  have mono: "set rows \<subseteq> set (fold ?f ps rows)" for ps rows by (induction ps arbitrary: rows) (simp, fastforce)
  have "p \<in> set ps \<Longrightarrow> (i, permission_key p) \<in> set (fold ?f ps rows)" for ps rows
  proof (induction ps arbitrary: rows)
    case (Cons q ps)
    then show ?case using mono [of "?f q rows" ps] by (cases "p = q") auto
  qed simp
  then show ?thesis by (simp add: grant_all_def all_permissions)
qed

lemma seed_owner_full:
  assumes "seed_owner_if_empty dt now epoch tenant username hash db = Ok (outcome, db')"
  shows "keeps_full db db'"
proof (cases "db' = db \<or> \<not> identity_ok db")
  case False
  then have changed: "db' \<noteq> db" and ok: "identity_ok db" by auto
  obtain w i db1 where x: "id_users db = []" "w \<in> set (ensure_owner_role now tenant (id_roles db))"
      "rw_tenant_id w = tenant" "rw_name w = OWNER_ROLE"
      "insert_user now epoch tenant username hash ''owner'' 2
        (db\<lparr>id_roles := ensure_owner_role now tenant (id_roles db), id_permissions := grant_all (rw_id w) (id_permissions db)\<rparr>) = Ok (i, db1)"
      "db' = db1\<lparr>id_user_roles := id_user_roles db1
        @ [\<lparr>ur_user_id = i, ur_role_id = rw_id w, ur_tenant_id = tenant, ur_created_at = now\<rparr>]\<rparr>"
    by (rule seed_owner_Ok [OF assms changed])
  note new = insert_user_Ok(2) [OF x(5)]
  have roles: "v \<in> set (id_roles db) \<or> v = w" if "v \<in> set (id_roles db')" for v
    using that x(2-4) by (auto simp: x(6) new ensure_owner_role_def OWNER_ROLE_def owner_role_row_def split: if_splits)
  have granted: "(rw_id v, permission_key p) \<in> set (grant_all (rw_id w) (id_permissions db))"
    if "owner_full db" "v \<in> set (id_roles db')" "rw_name v = OWNER_ROLE" for v p
    using roles [OF that(2)] grant_all_grants [of "rw_id w" p] grant_all_mono [of "id_permissions db" "rw_id w"] that(1,3)
    by (auto simp: owner_full_def)
  show ?thesis
    using seed_owner_keeps [OF assms] granted by (auto simp: keeps_full_def owner_full_def x(1) x(6) new new_user_row_def)
qed (use seed_owner_keeps [OF assms] in \<open>auto simp: keeps_full_def\<close>)

interpretation full: identity_relation "\<lambda>_. keeps_full"
proof unfold_locales
  show "keeps_full db db" for db by (simp add: keeps_full_def)
qed (auto intro: keeps_full_trans create_user_full change_password_full delete_user_full set_roles_full record_login_full
  create_role_full update_role_full delete_role_full seed_owner_full)

lemma baseline_full: "owner_full (baseline_identity now)"
proof -
  have "permission_key p \<in> set owner_grants" for p by (cases p) (simp_all add: owner_grants_def)
  then show ?thesis by (auto simp: owner_full_def baseline_identity_def baseline_roles_def system_role_def OWNER_ROLE_def)
qed

text \<open>The permissions the roles of a user grant, and the users who have all of them.\<close>

definition granted :: "identity_db \<Rightarrow> string \<Rightarrow> int \<Rightarrow> string set" where
  "granted db t i = snd ` set (filter (\<lambda>(j, _). assigned db t i j) (id_permissions db))"

lemma owner_has_all:
  assumes "identity_ok db" and "owner_full db" and "has_owner t db"
  shows "\<exists>u \<in> set (id_users db). us_tenant_id u = t \<and> us_is_active u \<and> (\<forall>p. permission_key p \<in> granted db t (us_id u))"
proof -
  obtain w u where w: "w \<in> set (id_roles db)" "rw_name w = OWNER_ROLE" and u: "u \<in> set (id_users db)" "us_tenant_id u = t"
      "assigned db t (us_id u) (rw_id w)"
    using assms(3) unfolding has_owner_def by blast
  have "permission_key p \<in> granted db t (us_id u)" for p
    using assms(2) w u(3) unfolding granted_def owner_full_def by (force simp: image_iff)
  with u assms(2) show ?thesis unfolding owner_full_def by blast
qed

text \<open>
  C8. A tenant with an owner is never locked out: after any further requests on users and roles,
  by any callers, it still has an active user whose roles grant every permission.
\<close>

theorem owner_never_lost:
  assumes "has_owner t (identity_run E ops (baseline_identity now))"
  shows "\<exists>u \<in> set (id_users (identity_run E (ops @ rest) (baseline_identity now))).
    us_tenant_id u = t \<and> us_is_active u
    \<and> (\<forall>p. permission_key p \<in> granted (identity_run E (ops @ rest) (baseline_identity now)) t (us_id u))"
proof (rule owner_has_all)
  let ?db = "identity_run E ops (baseline_identity now)"
  have db: "identity_ok ?db" "owner_full ?db"
    using full.run_related [where ops = ops and db = "baseline_identity now" and E = E] baseline_identity_ok baseline_full
    by (auto simp: keeps_full_def keeps_def)
  then show "identity_ok (identity_run E (ops @ rest) (baseline_identity now))"
    "owner_full (identity_run E (ops @ rest) (baseline_identity now))"
    "has_owner t (identity_run E (ops @ rest) (baseline_identity now))"
    using full.run_related [where ops = rest and db = ?db and E = E] assms by (auto simp: identity_run_append keeps_full_def keeps_def)
qed

definition plain_hasher :: hasher_api where
  "plain_hasher = \<lparr>hash_password = Inr, verify_password = (\<lambda>p h. Ok (p = h))\<rparr>"

definition sample_identity_env :: identity_env where
  "sample_identity_env = \<lparr>ie_micros = sample_micros, ie_hasher = plain_hasher, ie_driver_text = id\<rparr>"

definition sample_owner :: tenant_context where
  "sample_owner = \<lparr>tc_tenant_id = ''default'', tc_actor = User 1 ''admin'' ''owner'', tc_permissions = permission_set_all\<rparr>"

theorem owner_never_lost_witness:
  "has_owner ''default'' (identity_run sample_identity_env [SeedOwner 0 ''e'' ''default'' ''admin'' ''admin''] (baseline_identity 0))
   \<and> (\<exists>u \<in> set (id_users (identity_run sample_identity_env
         ([SeedOwner 0 ''e'' ''default'' ''admin'' ''admin''] @ [DeleteUser sample_owner 1]) (baseline_identity 0))).
       us_tenant_id u = ''default'' \<and> us_is_active u)"
proof -
  have h: "has_owner ''default'' (identity_run sample_identity_env [SeedOwner 0 ''e'' ''default'' ''admin'' ''admin''] (baseline_identity 0))"
    by code_simp
  from owner_never_lost [OF h, of "[DeleteUser sample_owner 1]"] h show ?thesis by blast
qed

end
