(* ===== verification/Session.thy ===== *)
theory Session
  imports Http Lockout
begin

text \<open>
  Sessions: the authentication middleware of \<^verbatim>\<open>crates/backend/src/middleware.rs\<close> and the login handler
  of \<^verbatim>\<open>domains/identity/auth_routes.rs\<close> over the tables of users and roles. A session carries exactly the
  permissions of the roles the user has at the time of the request, and ends for good with a change
  of the password, the roles or their permissions, or with the user.
\<close>

section \<open>The middleware\<close>

text \<open>
  The token library as it answers at the time of a call, and the check that a text can be the value
  of a header. Decoding verifies the signature and, against the library's own clock, the expiry, so
  that two calls at different times have different libraries.
\<close>

record token_api =
  jwt_decode :: "string \<Rightarrow> string \<Rightarrow> (string, claims) result"
  jwt_encode :: "claims \<Rightarrow> string \<Rightarrow> (string, string) result"
  header_value_from_str :: "string \<Rightarrow> (string, string) result"

definition validate_token :: "token_api \<Rightarrow> string \<Rightarrow> string \<Rightarrow> (string, claims) result" where
  "validate_token T token secret = jwt_decode T token secret"

definition requires_session :: "string \<Rightarrow> bool" where
  "requires_session path \<longleftrightarrow>
     \<not> (path = ''/api/v1/auth/login'' \<or> path = ''/api/v1/auth/logout'' \<or> path = ''/health'' \<or> path = ''/ready''
        \<or> path = ''/api/v1/firmware-updates/ci'' \<or> starts_with ''/api/v1/ota-downloads/'' path)
     \<and> starts_with ''/api/'' path"

definition session_claims :: "token_api \<Rightarrow> string \<Rightarrow> request \<Rightarrow> (app_error, mapped_user_claims) result" where
  "session_claims T secret rq =
     (case or_else (bearer_token rq) (session_cookie rq) of
        None \<Rightarrow> Err HttpUnauthorized
      | Some token \<Rightarrow>
          (case rq_mapped rq of
             Some m \<Rightarrow> Ok m
           | None \<Rightarrow>
               (case validate_token T token secret of
                  Inl _ \<Rightarrow> Err HttpUnauthorized
                | Inr c \<Rightarrow>
                    (case map_validated_user_claims c of
                       Inl _ \<Rightarrow> Err HttpUnauthorized
                     | Inr m \<Rightarrow> Ok m))))"

definition authenticated_context :: "authenticated_user \<Rightarrow> request_context" where
  "authenticated_context u =
     \<lparr>rc_user_id = au_id u, rc_username = au_username u, rc_role = au_role u, rc_tenant_id = au_tenant_id u,
      rc_scopes = au_permissions u, rc_permissions = from_keys (au_permissions u)\<rparr>"

definition auth_middleware ::
  "token_api \<Rightarrow> string \<Rightarrow> micros_api \<Rightarrow> identity_db \<Rightarrow> request \<Rightarrow> (app_error, request) result" where
  "auth_middleware T secret ch db rq =
     (if \<not> requires_session (rq_path rq) then Ok rq
      else rbind (session_claims T secret rq) (\<lambda>m.
        let c = mc_claims m
        in case cl_auth_epoch c of
             None \<Rightarrow> Err HttpUnauthorized
           | Some epoch \<Rightarrow>
               if epoch = [] then Err HttpUnauthorized
               else (case resolve_session ch db (mc_tenant_id m) (cl_sub c) (cl_permission_version c) epoch of
                       Inl e \<Rightarrow> Err (HttpApplication e)
                     | Inr u \<Rightarrow> Ok (rq\<lparr>rq_context := Some (authenticated_context u), rq_claims := Some c\<rparr>))))"

section \<open>Login\<close>

record login_request =
  lr_username :: string
  lr_password :: string
  lr_tenant_id :: "string option"
  lr_issue_token :: bool

definition login_tenant :: "string option \<Rightarrow> string" where
  "login_tenant t = (case map_option trim t of Some t \<Rightarrow> if t = [] then DEFAULT_TENANT_ID else t | None \<Rightarrow> DEFAULT_TENANT_ID)"

definition session_token_claims :: "authenticated_user \<Rightarrow> int \<Rightarrow> claims" where
  "session_token_claims u expiration =
     \<lparr>cl_sub = au_id u, cl_username = au_username u, cl_role = au_role u, cl_tenant_id = Some (au_tenant_id u),
      cl_scopes = au_permissions u, cl_permission_version = au_permission_version u,
      cl_auth_epoch = Some (au_auth_epoch u), cl_exp = expiration\<rparr>"

text \<open>The function \<open>expiry\<close> is the time plus 24 hours, in seconds.\<close>

definition create_token_with_scopes ::
  "token_api \<Rightarrow> (time \<Rightarrow> int) \<Rightarrow> time \<Rightarrow> authenticated_user \<Rightarrow> string \<Rightarrow> (string, string) result" where
  "create_token_with_scopes T expiry now u secret = jwt_encode T (session_token_claims u (expiry now)) secret"

definition session_cookie_text :: "string \<Rightarrow> bool \<Rightarrow> string" where
  "session_cookie_text token secure =
     ''extrittio_session='' @ token @ ''; Path=/; HttpOnly; SameSite=Strict; Max-Age=86400'' @ (if secure then ''; Secure'' else [])"

definition expired_session_cookie :: "bool \<Rightarrow> string" where
  "expired_session_cookie secure =
     ''extrittio_session=; Path=/; HttpOnly; SameSite=Strict; Max-Age=0'' @ (if secure then ''; Secure'' else [])"

record role_summary =
  rsm_id :: int
  rsm_name :: string
  rsm_description :: "string option"
  rsm_is_system :: bool

record user_response =
  usp_id :: int
  usp_username :: string
  usp_role :: string
  usp_roles :: "role_summary list"
  usp_permissions :: "string list"
  usp_permission_version :: int

record login_response =
  lrp_token :: "string option"
  lrp_user :: user_response

definition summarize_role :: "role \<Rightarrow> role_summary" where
  "summarize_role r =
     \<lparr>rsm_id = role_id r, rsm_name = role_name r, rsm_description = role_description r, rsm_is_system = role_is_system r\<rparr>"

definition respond_user :: "authenticated_user \<Rightarrow> user_response" where
  "respond_user u =
     \<lparr>usp_id = au_id u, usp_username = au_username u, usp_role = au_role u, usp_roles = map summarize_role (au_roles u),
      usp_permissions = au_permissions u, usp_permission_version = au_permission_version u\<rparr>"

definition cookie_header :: "token_api \<Rightarrow> string \<Rightarrow> (app_error, string) result" where
  "cookie_header T cookie = (case header_value_from_str T cookie of
      Inl e \<Rightarrow> Err (HttpInternal (''Failed to build session cookie: '' @ e))
    | Inr v \<Rightarrow> Ok v)"

text \<open>The answer is the cookie header and the body.\<close>

definition login ::
  "token_api \<Rightarrow> string \<Rightarrow> bool \<Rightarrow> (time \<Rightarrow> int) \<Rightarrow> micros_api \<Rightarrow> hasher_api \<Rightarrow> time \<Rightarrow> login_request \<Rightarrow> identity_db
     \<Rightarrow> (app_error, string \<times> login_response) result \<times> identity_db" where
  "login T secret secure expiry ch H now body db =
     (case tenant_id_new (login_tenant (lr_tenant_id body)) of
        Inl e \<Rightarrow> (Err (BadRequest (show_tenant_id_error e)), db)
      | Inr tenant \<Rightarrow>
          (case authenticate ch H now tenant (lr_username body) (lr_password body) db of
             (Inl e, db') \<Rightarrow> (Err (HttpApplication e), db')
           | (Inr u, db') \<Rightarrow>
               (case create_token_with_scopes T expiry now u secret of
                  Inl e \<Rightarrow> (Err (HttpAuth e), db')
                | Inr token \<Rightarrow>
                    (rbind (cookie_header T (session_cookie_text token secure)) (\<lambda>cookie.
                       Ok (cookie, \<lparr>lrp_token = (if lr_issue_token body then Some token else None), lrp_user = respond_user u\<rparr>)),
                     db'))))"

definition logout :: "token_api \<Rightarrow> bool \<Rightarrow> (app_error, string \<times> nat) result" where
  "logout T secure = rbind (cookie_header T (expired_session_cookie secure)) (\<lambda>cookie. Ok (cookie, 204))"

definition me :: "micros_api \<Rightarrow> identity_db \<Rightarrow> request_context \<Rightarrow> (app_error, user_response) result" where
  "me ch db ctx = (case current_user ch db (tenant_context_of ctx) of
      Inl e \<Rightarrow> Err (HttpApplication e)
    | Inr u \<Rightarrow> Ok (respond_user u))"

section \<open>What an accepted request tells\<close>

lemma decode_user_Ok:
  "decode_user ch r = Ok u \<Longrightarrow> usr_id u = us_id r \<and> usr_tenant_id u = us_tenant_id r \<and> usr_is_active u = us_is_active r
    \<and> usr_permission_version u = us_permission_version r \<and> usr_auth_epoch u = us_auth_epoch r"
  by (auto simp: decode_user_def rbind_Inr_iff row_i32_def decode_tenant_def tenant_id_new_def split: if_splits sum.splits)

lemma resolve_session_Ok:
  assumes "resolve_session ch db tenant i version epoch = Ok a"
  obtains u where "u \<in> set (id_users db)" and "user_at tenant i u" and "us_is_active u" and "us_permission_version u = version"
    and "us_auth_epoch u = epoch" and "au_id a = i" and "au_tenant_id a = tenant" and "set (au_permissions a) = granted db tenant i"
proof -
  obtain d where d: "hydrate ch db tenant i = Ok (Some d)" "matches_identity d tenant i" "usr_is_active (ud_user d)"
      "usr_permission_version (ud_user d) = version" "usr_auth_epoch (ud_user d) = epoch" "a = authenticated_user_from_details d"
    using assms by (auto simp: resolve_session_def rbind_Inr_iff persistence_def split: sum.splits option.splits if_splits)
  obtain u where u: "u \<in> set (id_users db)" "user_at tenant i u" "decode_user ch u = Ok (ud_user d)"
    by (rule hydrate_Some [OF d(1)])
  have "ud_permissions d = sorted_list_of_set (granted db tenant i)"
    using d(1) by (auto simp: hydrate_def rbind_Inr_iff granted_def split: option.splits)
  then have "set (ud_permissions d) = granted db tenant i" by (simp add: granted_def)
  moreover have "us_is_active u" "us_permission_version u = version" "us_auth_epoch u = epoch"
    using decode_user_Ok [OF u(3)] d(3-5) by simp_all
  ultimately show thesis
    using that [OF u(1,2)] d(2,6) by (simp add: authenticated_user_from_details_def matches_identity_def)
qed

lemma resolve_session_me:
  assumes "resolve_session ch db tenant i version epoch = Ok a"
  shows "me ch db (authenticated_context a) = Ok (respond_user a)"
proof -
  obtain d where d: "hydrate ch db tenant i = Ok (Some d)" "matches_identity d tenant i" "usr_is_active (ud_user d)"
      "a = authenticated_user_from_details d"
    using assms by (auto simp: resolve_session_def rbind_Inr_iff persistence_def split: sum.splits option.splits if_splits)
  then have "au_id a = i" "au_tenant_id a = tenant" by (simp_all add: authenticated_user_from_details_def matches_identity_def)
  with d show ?thesis
    by (simp add: me_def current_user_def tenant_context_of_def authenticated_context_def persistence_def)
qed

lemma auth_middleware_Ok:
  assumes "auth_middleware T secret ch db rq = Ok rq'" and "requires_session (rq_path rq)"
  obtains m epoch a where "session_claims T secret rq = Ok m" and "cl_auth_epoch (mc_claims m) = Some epoch" and "epoch \<noteq> []"
    and "resolve_session ch db (mc_tenant_id m) (cl_sub (mc_claims m)) (cl_permission_version (mc_claims m)) epoch = Ok a"
    and "rq' = rq\<lparr>rq_context := Some (authenticated_context a), rq_claims := Some (mc_claims m)\<rparr>"
proof -
  obtain m where m: "session_claims T secret rq = Ok m"
    using assms by (cases "session_claims T secret rq") (auto simp: auth_middleware_def)
  with assms have rest: "(case cl_auth_epoch (mc_claims m) of
       None \<Rightarrow> Err HttpUnauthorized
     | Some epoch \<Rightarrow>
         if epoch = [] then Err HttpUnauthorized
         else (case resolve_session ch db (mc_tenant_id m) (cl_sub (mc_claims m)) (cl_permission_version (mc_claims m)) epoch of
                 Inl e \<Rightarrow> Err (HttpApplication e)
               | Inr u \<Rightarrow> Ok (rq\<lparr>rq_context := Some (authenticated_context u), rq_claims := Some (mc_claims m)\<rparr>))) = Ok rq'"
    by (simp add: auth_middleware_def Let_def)
  then obtain epoch where e: "cl_auth_epoch (mc_claims m) = Some epoch" by (cases "cl_auth_epoch (mc_claims m)") auto
  with rest show thesis using that [OF m e] by (auto split: if_splits sum.splits)
qed

text \<open>
  C9. A request that needs a session reaches its handler only with the context of an active user
  of the tenant its token names, and is allowed exactly what the roles assigned to that user at
  this moment grant: the scopes and the role inside the token play no part. The use cases decide
  the same way as the policy of the handlers.
\<close>

theorem session_permissions_are_current:
  assumes "auth_middleware T secret ch db rq = Ok rq'" and "requires_session (rq_path rq)"
  shows "\<exists>m ctx u. session_claims T secret rq = Ok m \<and> rq_context rq' = Some ctx
    \<and> rc_tenant_id ctx = mc_tenant_id m \<and> rc_user_id ctx = cl_sub (mc_claims m)
    \<and> u \<in> set (id_users db) \<and> user_at (mc_tenant_id m) (cl_sub (mc_claims m)) u \<and> us_is_active u
    \<and> (\<forall>p. require ctx p = Ok () \<longleftrightarrow> (\<exists>q. permission_key q \<in> granted db (rc_tenant_id ctx) (rc_user_id ctx) \<and> satisfies q p))
    \<and> (\<forall>p. require_permission (tenant_context_of ctx) p = Ok () \<longleftrightarrow> require ctx p = Ok ())"
proof -
  obtain m epoch a where m: "session_claims T secret rq = Ok m"
    and r: "resolve_session ch db (mc_tenant_id m) (cl_sub (mc_claims m)) (cl_permission_version (mc_claims m)) epoch = Ok a"
    and rq': "rq' = rq\<lparr>rq_context := Some (authenticated_context a), rq_claims := Some (mc_claims m)\<rparr>"
    by (rule auth_middleware_Ok [OF assms])
  obtain u where u: "u \<in> set (id_users db)" "user_at (mc_tenant_id m) (cl_sub (mc_claims m)) u" "us_is_active u"
      "au_id a = cl_sub (mc_claims m)" "au_tenant_id a = mc_tenant_id m"
      "set (au_permissions a) = granted db (mc_tenant_id m) (cl_sub (mc_claims m))"
    by (rule resolve_session_Ok [OF r])
  have "require (authenticated_context a) p = Ok ()
      \<longleftrightarrow> (\<exists>q. permission_key q \<in> granted db (mc_tenant_id m) (cl_sub (mc_claims m)) \<and> satisfies q p)" for p
    by (auto simp: require_def has_permission_def authenticated_context_def from_keys_iff u(6))
  with m rq' u(1-5) show ?thesis
    by (intro exI [of _ m] exI [of _ "authenticated_context a"] exI [of _ u])
      (simp add: authenticated_context_def require_iff [symmetric])
qed

end
