(* ===== verification/Sliding_Window.thy ===== *)
theory Sliding_Window
  imports Prelude "HOL-Library.AList"
begin

text \<open>
  The two sliding-window limiters of \<^verbatim>\<open>crates/backend/src/rate_limit.rs\<close>, \<^verbatim>\<open>RateLimiter\<close> and
  \<^verbatim>\<open>ApiKeyRateLimiter\<close>. An instant is a number of nanoseconds; subtraction on natural numbers
  saturates as \<^verbatim>\<open>duration_since\<close> does. The map from keys to instants is an association list, and the
  operations run one after another. What both limiters promise is a locale, and the bound on
  accepted requests is proved there once.
\<close>

section \<open>The limiters\<close>

definition MAX_RATE_LIMIT_KEYS :: nat where
  "MAX_RATE_LIMIT_KEYS = 100000"

record rate_limiter =
  rl_state :: "(string \<times> nat list) list"
  rl_max_requests :: nat
  rl_window :: nat

definition rate_limiter_new :: "nat \<Rightarrow> nat \<Rightarrow> rate_limiter" where
  "rate_limiter_new max_requests window_secs =
     \<lparr>rl_state = [], rl_max_requests = max_requests, rl_window = window_secs * 1000000000\<rparr>"

fun drop_expired :: "nat \<Rightarrow> nat \<Rightarrow> nat list \<Rightarrow> nat list" where
  "drop_expired window now [] = []"
| "drop_expired window now (front # ts) = (if window \<le> now - front then drop_expired window now ts else front # ts)"

definition retained :: "nat \<Rightarrow> nat \<Rightarrow> (string \<times> nat list) list \<Rightarrow> (string \<times> nat list) list" where
  "retained window now st = filter (\<lambda>(k, ts). ts \<noteq> [] \<and> now - last ts < window) st"

definition cleanup :: "nat \<Rightarrow> rate_limiter \<Rightarrow> rate_limiter" where
  "cleanup now l = l\<lparr>rl_state := retained (rl_window l) now (rl_state l)\<rparr>"

definition window_entry :: "(string \<times> nat list) list \<Rightarrow> string \<Rightarrow> nat list" where
  "window_entry st key = (case map_of st key of None \<Rightarrow> [] | Some ts \<Rightarrow> ts)"

text \<open>The check reads the clock at its start, and the cleanup it may run reads it again.\<close>

definition check :: "nat \<Rightarrow> nat \<Rightarrow> string \<Rightarrow> rate_limiter \<Rightarrow> bool \<times> rate_limiter" where
  "check now again key l =
     (let full = key \<notin> fst ` set (rl_state l) \<and> MAX_RATE_LIMIT_KEYS \<le> length (rl_state l);
          l1 = (if full then cleanup again l else l)
      in if full \<and> MAX_RATE_LIMIT_KEYS \<le> length (rl_state l1) then (False, l1)
         else let ts = drop_expired (rl_window l) now (window_entry (rl_state l1) key)
              in if rl_max_requests l \<le> length ts
                 then (False, l1\<lparr>rl_state := AList.update key ts (rl_state l1)\<rparr>)
                 else (True, l1\<lparr>rl_state := AList.update key (ts @ [now]) (rl_state l1)\<rparr>))"

record api_key_limiter =
  ak_state :: "(string \<times> nat list) list"
  ak_max_requests :: nat
  ak_window :: nat

definition api_key_limiter_new :: "nat \<Rightarrow> nat \<Rightarrow> api_key_limiter" where
  "api_key_limiter_new max_requests window_secs =
     \<lparr>ak_state = [], ak_max_requests = max_requests, ak_window = window_secs * 1000000000\<rparr>"

definition api_key_cleanup :: "nat \<Rightarrow> api_key_limiter \<Rightarrow> api_key_limiter" where
  "api_key_cleanup now l = l\<lparr>ak_state := retained (ak_window l) now (ak_state l)\<rparr>"

definition api_key_check :: "nat \<Rightarrow> nat \<Rightarrow> string \<Rightarrow> api_key_limiter \<Rightarrow> bool \<times> api_key_limiter" where
  "api_key_check now again key_hash l =
     (let full = key_hash \<notin> fst ` set (ak_state l) \<and> MAX_RATE_LIMIT_KEYS \<le> length (ak_state l);
          l1 = (if full then api_key_cleanup again l else l)
      in if full \<and> MAX_RATE_LIMIT_KEYS \<le> length (ak_state l1) then (False, l1)
         else let ts = drop_expired (ak_window l) now (window_entry (ak_state l1) key_hash)
              in if ak_max_requests l \<le> length ts
                 then (False, l1\<lparr>ak_state := AList.update key_hash ts (ak_state l1)\<rparr>)
                 else (True, l1\<lparr>ak_state := AList.update key_hash (ts @ [now]) (ak_state l1)\<rparr>))"

section \<open>Histories\<close>

datatype limiter_op = Check nat nat string | Cleanup nat

fun op_start :: "limiter_op \<Rightarrow> nat" where
  "op_start (Check now again key) = now"
| "op_start (Cleanup now) = now"

fun op_end :: "limiter_op \<Rightarrow> nat" where
  "op_end (Check now again key) = again"
| "op_end (Cleanup now) = now"

primrec clock_ok :: "nat \<Rightarrow> limiter_op list \<Rightarrow> bool" where
  "clock_ok t [] = True"
| "clock_ok t (op # ops) \<longleftrightarrow> t \<le> op_start op \<and> op_start op \<le> op_end op \<and> clock_ok (op_end op) ops"

text \<open>A history is run with the requests it has let through.\<close>

fun limiter_step ::
  "(nat \<Rightarrow> nat \<Rightarrow> string \<Rightarrow> 's \<Rightarrow> bool \<times> 's) \<Rightarrow> (nat \<Rightarrow> 's \<Rightarrow> 's) \<Rightarrow> limiter_op
     \<Rightarrow> 's \<times> (string \<times> nat) list \<Rightarrow> 's \<times> (string \<times> nat) list" where
  "limiter_step chk cln (Check now again key) (s, accepted) =
     (let (allowed, s') = chk now again key s in (s', if allowed then accepted @ [(key, now)] else accepted))"
| "limiter_step chk cln (Cleanup now) (s, accepted) = (cln now s, accepted)"

definition limiter_run ::
  "(nat \<Rightarrow> nat \<Rightarrow> string \<Rightarrow> 's \<Rightarrow> bool \<times> 's) \<Rightarrow> (nat \<Rightarrow> 's \<Rightarrow> 's) \<Rightarrow> limiter_op list \<Rightarrow> 's
     \<Rightarrow> 's \<times> (string \<times> nat) list" where
  "limiter_run chk cln ops s = fold (limiter_step chk cln) ops (s, [])"

definition times_of :: "string \<Rightarrow> (string \<times> nat) list \<Rightarrow> nat list" where
  "times_of key accepted = map snd (filter (\<lambda>(k, _). k = key) accepted)"

definition fresh :: "nat \<Rightarrow> nat \<Rightarrow> nat list \<Rightarrow> nat list" where
  "fresh window now ts = filter (\<lambda>t. now - t < window) ts"

definition in_window :: "nat \<Rightarrow> nat \<Rightarrow> nat list \<Rightarrow> nat list" where
  "in_window window start ts = filter (\<lambda>t. start \<le> t \<and> t < start + window) ts"

lemma times_of_simps [simp]:
  "times_of key [] = []" "times_of key (xs @ ys) = times_of key xs @ times_of key ys"
  "times_of key ((k, t) # xs) = (if k = key then t # times_of key xs else times_of key xs)"
  by (simp_all add: times_of_def)

lemma fresh_simps [simp]:
  "fresh window now [] = []" "fresh window now (xs @ ys) = fresh window now xs @ fresh window now ys"
  "fresh window now (t # ts) = (if now - t < window then t # fresh window now ts else fresh window now ts)"
  by (simp_all add: fresh_def)

section \<open>The contract of a limiter\<close>

locale sliding_limiter =
  fixes chk :: "nat \<Rightarrow> nat \<Rightarrow> string \<Rightarrow> 's \<Rightarrow> bool \<times> 's"
    and cln :: "nat \<Rightarrow> 's \<Rightarrow> 's"
    and inv :: "nat \<Rightarrow> 's \<Rightarrow> bool"
    and stamps :: "'s \<Rightarrow> string \<Rightarrow> nat list"
    and crowded :: "string \<Rightarrow> 's \<Rightarrow> bool"
    and limit :: "'s \<Rightarrow> nat"
    and window :: "'s \<Rightarrow> nat"
  assumes inv_later: "inv t s \<Longrightarrow> t \<le> t' \<Longrightarrow> inv t' s"
    and cln_inv: "inv now s \<Longrightarrow> inv now (cln now s)"
    and cln_const: "limit (cln now s) = limit s" "window (cln now s) = window s"
    and cln_stamps: "inv now s \<Longrightarrow> now \<le> t \<Longrightarrow>
      fresh (window s) t (stamps (cln now s) k) = fresh (window s) t (stamps s k)"
    and chk_inv: "inv now s \<Longrightarrow> now \<le> again \<Longrightarrow> inv again (snd (chk now again key s))"
    and chk_const: "limit (snd (chk now again key s)) = limit s" "window (snd (chk now again key s)) = window s"
    and chk_stamps: "inv now s \<Longrightarrow> now \<le> again \<Longrightarrow> again \<le> t \<Longrightarrow>
      fresh (window s) t (stamps (snd (chk now again key s)) k) =
        fresh (window s) t (stamps s k @ (if fst (chk now again key s) \<and> k = key then [now] else []))"
    and chk_allows: "inv now s \<Longrightarrow> now \<le> again \<Longrightarrow> fst (chk now again key s) \<Longrightarrow>
      length (fresh (window s) now (stamps s key)) < limit s"
    and chk_refuses: "inv now s \<Longrightarrow> now \<le> again \<Longrightarrow> \<not> fst (chk now again key s) \<Longrightarrow> \<not> crowded key s \<Longrightarrow>
      limit s \<le> length (fresh (window s) now (stamps s key))"
begin

definition tracks :: "nat \<Rightarrow> nat \<Rightarrow> nat \<Rightarrow> 's \<times> (string \<times> nat) list \<Rightarrow> bool" where
  "tracks m w now sa \<longleftrightarrow> (case sa of (s, accepted) \<Rightarrow> limit s = m \<and> window s = w \<and> inv now s
     \<and> (\<forall>t k. now \<le> t \<longrightarrow> fresh w t (stamps s k) = fresh w t (times_of k accepted))
     \<and> (\<forall>k. \<forall>x \<in> set (times_of k accepted). x \<le> now)
     \<and> (\<forall>k start. length (in_window w start (times_of k accepted)) \<le> m))"

lemma tracksI:
  assumes "limit s = m" and "window s = w" and "inv now s"
    and "\<And>t k. now \<le> t \<Longrightarrow> fresh w t (stamps s k) = fresh w t (times_of k accepted)"
    and "\<And>k x. x \<in> set (times_of k accepted) \<Longrightarrow> x \<le> now"
    and "\<And>k start. length (in_window w start (times_of k accepted)) \<le> m"
  shows "tracks m w now (s, accepted)"
  using assms by (simp add: tracks_def)

lemma tracksD:
  assumes "tracks m w t (s, accepted)" and "t \<le> now"
  shows "limit s = m" and "window s = w" and "inv now s"
    and "now \<le> u \<Longrightarrow> fresh w u (stamps s k) = fresh w u (times_of k accepted)"
    and "x \<in> set (times_of k accepted) \<Longrightarrow> x \<le> now"
    and "length (in_window w start (times_of k accepted)) \<le> m"
proof -
  show "limit s = m" and "window s = w" and "length (in_window w start (times_of k accepted)) \<le> m"
    using assms(1) by (simp_all add: tracks_def)
  have "inv t s" using assms(1) by (simp add: tracks_def)
  then show "inv now s" using assms(2) by (rule inv_later)
  have "\<And>u k. t \<le> u \<Longrightarrow> fresh w u (stamps s k) = fresh w u (times_of k accepted)"
    using assms(1) by (simp add: tracks_def)
  then show "now \<le> u \<Longrightarrow> fresh w u (stamps s k) = fresh w u (times_of k accepted)"
    using assms(2) by (meson le_trans)
  have "\<And>k x. x \<in> set (times_of k accepted) \<Longrightarrow> x \<le> t" using assms(1) by (simp add: tracks_def)
  then show "x \<in> set (times_of k accepted) \<Longrightarrow> x \<le> now" using assms(2) by (meson le_trans)
qed

lemma tracks_cleanup:
  assumes "tracks m w t (s, accepted)" and "t \<le> now"
  shows "tracks m w now (cln now s, accepted)"
proof (rule tracksI)
  note s = tracksD [OF assms]
  show "limit (cln now s) = m" "window (cln now s) = w" by (simp_all add: cln_const s(1,2))
  show "inv now (cln now s)" using s(3) by (rule cln_inv)
  show "fresh w t (stamps (cln now s) k) = fresh w t (times_of k accepted)" if "now \<le> t" for t k
    using cln_stamps [OF s(3) that, of k] s(4) [OF that] by (simp add: s(2))
qed (use tracksD [OF assms] in blast)+

lemma window_count:
  assumes "\<forall>x \<in> set ts. x \<le> now" and "length (fresh w now ts) < m" and "length (in_window w start ts) \<le> m"
  shows "length (in_window w start (ts @ [now])) \<le> m"
proof (cases "start \<le> now \<and> now < start + w")
  case True
  have "in_window w start ts = filter (\<lambda>x. start \<le> x) (fresh w now ts)"
    unfolding in_window_def fresh_def filter_filter using assms(1) True by (intro filter_cong) auto
  also have "length \<dots> \<le> length (fresh w now ts)" by simp
  finally have "length (in_window w start ts) < m" using assms(2) by simp
  with True show ?thesis by (simp add: in_window_def)
qed (use assms(3) in \<open>auto simp: in_window_def\<close>)

lemma tracks_check:
  assumes "tracks m w t (s, accepted)" and "t \<le> now" and "now \<le> again"
  shows "tracks m w again (limiter_step chk cln (Check now again key) (s, accepted))"
proof -
  obtain allowed s' where c: "chk now again key s = (allowed, s')" by fastforce
  let ?acc = "if allowed then accepted @ [(key, now)] else accepted"
  note s = tracksD [OF assms(1,2)]
  have "tracks m w again (s', ?acc)"
  proof (rule tracksI)
    show "inv again s'" "limit s' = m" "window s' = w"
      using chk_inv [OF s(3) assms(3), of key] chk_const [of now again key s] s(1,2) c by simp_all
    show "fresh w u (stamps s' k) = fresh w u (times_of k ?acc)" if "again \<le> u" for u k
      using chk_stamps [OF s(3) assms(3) that, of key k] s(4) [of u k] c assms(3) that by (simp add: s(2))
    show "x \<le> again" if "x \<in> set (times_of k ?acc)" for k x
      using that s(5) [of x k] assms(3) by (auto split: if_splits)
    show "length (in_window w start (times_of k ?acc)) \<le> m" for k start
    proof (cases "allowed \<and> k = key")
      case True
      have "length (fresh w now (times_of key accepted)) < m"
        using chk_allows [OF s(3) assms(3), of key] True c s(4) [of now key] by (simp add: s(1,2))
      with True show ?thesis using window_count [of "times_of key accepted" now w m start] s(5) s(6) by simp
    next
      case False
      then show ?thesis using s(6) by auto
    qed
  qed
  then show ?thesis by (simp add: c)
qed

lemma tracks_run:
  "tracks m w t sa \<Longrightarrow> clock_ok t ops \<Longrightarrow> \<exists>t'. tracks m w t' (fold (limiter_step chk cln) ops sa)
     \<and> (\<forall>now. clock_ok t (ops @ [Cleanup now]) \<longrightarrow> t' \<le> now)"
proof (induction ops arbitrary: t sa)
  case (Cons op ops)
  obtain s accepted where sa: "sa = (s, accepted)" by fastforce
  have "tracks m w (op_end op) (limiter_step chk cln op sa)"
    using Cons.prems unfolding sa by (cases op) (auto simp del: limiter_step.simps(1) intro: tracks_check tracks_cleanup)
  from Cons.IH [OF this] Cons.prems(2) show ?case by auto
qed auto

lemma window_bound:
  assumes "inv 0 s" and "\<And>k. stamps s k = []" and "clock_ok 0 ops"
  shows "length (in_window (window s) start (times_of key (snd (limiter_run chk cln ops s)))) \<le> limit s"
proof -
  have "tracks (limit s) (window s) 0 (s, [])" using assms(1,2) by (simp add: tracks_def in_window_def)
  from tracks_run [OF this assms(3)] obtain t where t: "tracks (limit s) (window s) t (limiter_run chk cln ops s)"
    by (auto simp: limiter_run_def)
  obtain s' accepted where r: "limiter_run chk cln ops s = (s', accepted)" by fastforce
  show ?thesis using tracksD(6) [OF t [unfolded r] order_refl] by (simp add: r)
qed

lemma check_exact:
  assumes "inv 0 s" and "\<And>k. stamps s k = []" and "clock_ok 0 (ops @ [Check now again key])"
    and "\<not> crowded key (fst (limiter_run chk cln ops s))"
  shows "fst (chk now again key (fst (limiter_run chk cln ops s))) \<longleftrightarrow>
    length (fresh (window s) now (times_of key (snd (limiter_run chk cln ops s)))) < limit s"
proof -
  have clock: "clock_ok t (ops @ [op]) \<longleftrightarrow> clock_ok t ops \<and> clock_ok t (ops @ [Cleanup (op_start op)]) \<and> op_start op \<le> op_end op" for t op
    by (induction ops arbitrary: t) auto
  have "tracks (limit s) (window s) 0 (s, [])" using assms(1,2) by (simp add: tracks_def in_window_def)
  from tracks_run [OF this] assms(3) clock [of 0 "Check now again key"]
  obtain t where t: "tracks (limit s) (window s) t (limiter_run chk cln ops s)" "t \<le> now" "now \<le> again"
    by (auto simp: limiter_run_def)
  obtain s' accepted where r: "limiter_run chk cln ops s = (s', accepted)" by fastforce
  have s': "limit s' = limit s" "window s' = window s" "inv now s'"
      "fresh (window s) now (stamps s' key) = fresh (window s) now (times_of key accepted)"
    using tracksD [OF t(1) [unfolded r] t(2)] by simp_all
  show ?thesis
    using chk_allows [OF s'(3) t(3), of key] chk_refuses [OF s'(3) t(3), of key] assms(4) s' unfolding r by fastforce
qed

end

section \<open>Both limiters keep the contract\<close>

definition window_inv :: "nat \<Rightarrow> (string \<times> nat list) list \<Rightarrow> bool" where
  "window_inv t st \<longleftrightarrow> distinct (map fst st) \<and> (\<forall>(k, ts) \<in> set st. sorted ts \<and> (\<forall>x \<in> set ts. x \<le> t))"

definition window_check ::
  "nat \<Rightarrow> nat \<Rightarrow> string \<Rightarrow> nat \<Rightarrow> nat \<Rightarrow> (string \<times> nat list) list \<Rightarrow> bool \<times> (string \<times> nat list) list" where
  "window_check now again key m w st =
     (let full = key \<notin> fst ` set st \<and> MAX_RATE_LIMIT_KEYS \<le> length st;
          st1 = (if full then retained w again st else st)
      in if full \<and> MAX_RATE_LIMIT_KEYS \<le> length st1 then (False, st1)
         else let ts = drop_expired w now (window_entry st1 key)
              in if m \<le> length ts then (False, AList.update key ts st1)
                 else (True, AList.update key (ts @ [now]) st1))"

lemma check_window_check:
  "check now again key l = (let (allowed, st) = window_check now again key (rl_max_requests l) (rl_window l) (rl_state l)
     in (allowed, l\<lparr>rl_state := st\<rparr>))"
  "api_key_check now again key a = (let (allowed, st) = window_check now again key (ak_max_requests a) (ak_window a) (ak_state a)
     in (allowed, a\<lparr>ak_state := st\<rparr>))"
  by (simp_all add: check_def api_key_check_def window_check_def cleanup_def api_key_cleanup_def Let_def)

lemma window_inv_entry:
  "window_inv t st \<Longrightarrow> sorted (window_entry st k) \<and> (\<forall>x \<in> set (window_entry st k). x \<le> t)"
  by (fastforce simp: window_inv_def window_entry_def dest: map_of_SomeD split: option.splits)

lemma window_inv_later: "window_inv t st \<Longrightarrow> t \<le> t' \<Longrightarrow> window_inv t' st"
  unfolding window_inv_def by (fastforce intro: le_trans)

lemma window_inv_retained: "window_inv t st \<Longrightarrow> window_inv t (retained w now st)"
  by (auto simp: window_inv_def retained_def distinct_map_filter)

lemma window_inv_update:
  assumes "window_inv t st" and "sorted ts" and "\<And>x. x \<in> set ts \<Longrightarrow> x \<le> t"
  shows "window_inv t (AList.update k ts st)"
proof -
  have "p \<in> set (AList.update k ts st) \<Longrightarrow> p = (k, ts) \<or> p \<in> set st" for p
    by (induction st) (auto split: if_splits)
  with assms show ?thesis by (fastforce simp: window_inv_def distinct_update)
qed

lemma drop_expired_fresh: "sorted ts \<Longrightarrow> drop_expired w now ts = fresh w now ts"
proof (induction ts)
  case (Cons t ts)
  have "fresh w now ts = ts" if "now - t < w"
    using Cons.prems that unfolding fresh_def by (intro filter_True) fastforce
  with Cons show ?case by auto
qed simp

lemma fresh_fresh: "now \<le> t \<Longrightarrow> fresh w t (fresh w now ts) = fresh w t ts"
  unfolding fresh_def filter_filter by (intro filter_cong) auto

lemma fresh_last:
  assumes "sorted ts" and "ts = [] \<or> w \<le> now - last ts" and "now \<le> t"
  shows "fresh w t ts = []"
proof (cases "ts = []")
  case False
  have "x \<le> last ts" if "x \<in> set ts" for x
    using assms(1) that by (induction ts) (auto split: if_splits)
  then show ?thesis using assms(2,3) False by (fastforce simp: fresh_def filter_empty_conv)
qed simp

lemma window_entry_retained:
  assumes "window_inv t' st" and "now \<le> t"
  shows "fresh w t (window_entry (retained w now st) k) = fresh w t (window_entry st k)"
proof -
  have "map_of (filter (\<lambda>(k, ts). P ts) al) k = (case map_of al k of None \<Rightarrow> None | Some ts \<Rightarrow> if P ts then Some ts else None)"
    if "distinct (map fst al)" for P :: "nat list \<Rightarrow> bool" and al :: "(string \<times> nat list) list"
    using that by (induction al) (force split: option.split dest: map_of_SomeD)+
  note filtered = this [of st "\<lambda>ts. ts \<noteq> [] \<and> now - last ts < w"]
  have d: "distinct (map fst st)" using assms(1) by (simp add: window_inv_def)
  have "sorted (window_entry st k)" using window_inv_entry [OF assms(1)] by simp
  with filtered [OF d] fresh_last [OF _ _ assms(2), of "window_entry st k" w] show ?thesis
    by (auto simp: retained_def window_entry_def split: option.splits)
qed

lemma window_entry_update [simp]:
  "window_entry (AList.update k ts st) k' = (if k = k' then ts else window_entry st k')"
  by (simp add: window_entry_def update_conv)

lemma window_check_cases:
  assumes "window_inv now st" and "now \<le> again"
  obtains (refused) "key \<notin> fst ` set st" "MAX_RATE_LIMIT_KEYS \<le> length st"
      "window_check now again key m w st = (False, retained w again st)"
  | (decided) st1 where "window_inv now st1" "window_entry st1 key = window_entry st key"
      "\<And>k t. again \<le> t \<Longrightarrow> fresh w t (window_entry st1 k) = fresh w t (window_entry st k)"
      "window_check now again key m w st =
         (let ts = fresh w now (window_entry st key)
          in if m \<le> length ts then (False, AList.update key ts st1) else (True, AList.update key (ts @ [now]) st1))"
proof -
  let ?full = "key \<notin> fst ` set st \<and> MAX_RATE_LIMIT_KEYS \<le> length st"
  define st1 where "st1 = (if ?full then retained w again st else st)"
  have inv1: "window_inv now st1" using assms(1) by (simp add: st1_def window_inv_retained)
  have entry: "window_entry st1 key = window_entry st key"
  proof (cases ?full)
    case True
    then have "map_of st key = None" "map_of (retained w again st) key = None"
      by (auto simp: map_of_eq_None_iff retained_def)
    with True show ?thesis by (simp add: st1_def window_entry_def)
  qed (auto simp: st1_def)
  have keeps: "fresh w t (window_entry st1 k) = fresh w t (window_entry st k)" if "again \<le> t" for k t
    using window_entry_retained [OF assms(1) that] by (simp add: st1_def)
  have ts: "drop_expired w now (window_entry st1 key) = fresh w now (window_entry st key)"
    using window_inv_entry [OF assms(1), of key] by (simp add: entry drop_expired_fresh)
  show thesis
  proof (cases "?full \<and> MAX_RATE_LIMIT_KEYS \<le> length st1")
    case True
    then show thesis by (intro refused) (auto simp: window_check_def st1_def Let_def)
  next
    case False
    have "window_check now again key m w st =
         (let ts = fresh w now (window_entry st key)
          in if m \<le> length ts then (False, AList.update key ts st1) else (True, AList.update key (ts @ [now]) st1))"
      using False by (auto simp: window_check_def Let_def st1_def [symmetric] ts)
    with inv1 entry keeps show thesis by (rule decided)
  qed
qed

lemma window_check_allows:
  assumes "window_inv now st" and "now \<le> again"
  shows "fst (window_check now again key m w st) \<Longrightarrow> length (fresh w now (window_entry st key)) < m"
    and "\<not> fst (window_check now again key m w st) \<Longrightarrow> \<not> (key \<notin> fst ` set st \<and> MAX_RATE_LIMIT_KEYS \<le> length st) \<Longrightarrow>
      m \<le> length (fresh w now (window_entry st key))"
  by (cases rule: window_check_cases [OF assms, of key m w]; simp add: Let_def split: if_splits)+

lemma window_check_stamps:
  assumes "window_inv now st" and "now \<le> again" and "again \<le> t"
  shows "fresh w t (window_entry (snd (window_check now again key m w st)) k) =
    fresh w t (window_entry st k @ (if fst (window_check now again key m w st) \<and> k = key then [now] else []))"
  using assms(1,2)
proof (cases rule: window_check_cases [where key = key and m = m and w = w])
  case refused
  then show ?thesis using window_entry_retained [OF assms(1,3)] by simp
next
  case (decided st1)
  have t: "fresh w t (fresh w now (window_entry st k)) = fresh w t (window_entry st k)"
    using assms(2,3) by (intro fresh_fresh) simp
  show ?thesis using decided(3) [OF assms(3), of k] t unfolding decided(4) by (auto simp: Let_def)
qed

lemma window_check_inv:
  assumes "window_inv now st" and "now \<le> again"
  shows "window_inv again (snd (window_check now again key m w st))"
  using assms
proof (cases rule: window_check_cases [where key = key and m = m and w = w])
  case refused
  then show ?thesis using window_inv_later [OF window_inv_retained [OF assms(1)] assms(2)] by simp
next
  case (decided st1)
  let ?ts = "fresh w now (window_entry st key)"
  have e: "sorted (window_entry st key)" "\<And>x. x \<in> set (window_entry st key) \<Longrightarrow> x \<le> now"
    using window_inv_entry [OF assms(1)] by simp_all
  then have "sorted ?ts" "sorted (?ts @ [now])" "\<And>x. x \<in> set ?ts \<Longrightarrow> x \<le> now"
    by (auto simp: fresh_def sorted_append intro: sorted_wrt_filter)
  then have "window_inv now (AList.update key ?ts st1)" "window_inv now (AList.update key (?ts @ [now]) st1)"
    using decided(1) by (auto intro!: window_inv_update)
  then have "window_inv now (snd (window_check now again key m w st))" by (simp add: decided(4) Let_def)
  then show ?thesis using assms(2) by (rule window_inv_later)
qed

interpretation rl: sliding_limiter check cleanup "\<lambda>t l. window_inv t (rl_state l)" "\<lambda>l. window_entry (rl_state l)"
  "\<lambda>key l. key \<notin> fst ` set (rl_state l) \<and> MAX_RATE_LIMIT_KEYS \<le> length (rl_state l)" rl_max_requests rl_window
  by unfold_locales
    (simp_all add: check_window_check cleanup_def Let_def split_beta window_inv_later window_inv_retained
      window_entry_retained window_check_inv window_check_stamps window_check_allows)

interpretation ak: sliding_limiter api_key_check api_key_cleanup "\<lambda>t l. window_inv t (ak_state l)"
  "\<lambda>l. window_entry (ak_state l)"
  "\<lambda>key l. key \<notin> fst ` set (ak_state l) \<and> MAX_RATE_LIMIT_KEYS \<le> length (ak_state l)" ak_max_requests ak_window
  by unfold_locales
    (simp_all add: check_window_check api_key_cleanup_def Let_def split_beta window_inv_later window_inv_retained
      window_entry_retained window_check_inv window_check_stamps window_check_allows)

section \<open>Properties\<close>

text \<open>
  No window is ever overrun: whatever checks and cleanups happen under a clock that does not
  run backwards, the requests a limiter lets through for one key within any period of the
  length of its window are at most its maximum. This holds for the general limiter and for the
  one of API keys.
\<close>

theorem window_never_overrun:
  assumes "clock_ok 0 ops"
  shows "length (in_window (secs * 1000000000) start
      (times_of key (snd (limiter_run check cleanup ops (rate_limiter_new m secs))))) \<le> m
    \<and> length (in_window (secs * 1000000000) start
      (times_of key (snd (limiter_run api_key_check api_key_cleanup ops (api_key_limiter_new m secs))))) \<le> m"
  using rl.window_bound [of "rate_limiter_new m secs" ops start key] ak.window_bound [of "api_key_limiter_new m secs" ops start key] assms
  by (simp add: rate_limiter_new_def api_key_limiter_new_def window_inv_def window_entry_def)

text \<open>
  C17. A limiter refuses only for a reason: after any such history, a check lets the request
  through exactly when fewer than the maximum of requests of its key were let through during the
  last window, unless the key is new and the table of keys is full. In particular neither
  cleanups nor the expiry of old entries change any decision.
\<close>

theorem check_decides_by_window:
  assumes "clock_ok 0 (ops @ [Check now again key])"
    and "limiter_run check cleanup ops (rate_limiter_new m secs) = (l, accepted)"
    and "key \<in> fst ` set (rl_state l) \<or> length (rl_state l) < MAX_RATE_LIMIT_KEYS"
  shows "fst (check now again key l) \<longleftrightarrow> length (fresh (secs * 1000000000) now (times_of key accepted)) < m"
  using rl.check_exact [of "rate_limiter_new m secs" ops now again key] assms
  by (auto simp: rate_limiter_new_def window_inv_def window_entry_def)

definition sample_requests :: "limiter_op list" where
  "sample_requests = [Check 0 0 ''a'', Check 400000000 400000000 ''a'', Cleanup 500000000,
     Check 600000000 600000000 ''a'', Check 700000000 700000000 ''b'']"

theorem window_never_overrun_witness:
  "times_of ''a'' (snd (limiter_run check cleanup sample_requests (rate_limiter_new 2 1))) = [0, 400000000]
   \<and> length (in_window 1000000000 0 (times_of ''a'' (snd (limiter_run check cleanup sample_requests (rate_limiter_new 2 1))))) \<le> 2"
proof
  show "times_of ''a'' (snd (limiter_run check cleanup sample_requests (rate_limiter_new 2 1))) = [0, 400000000]"
    by code_simp
  have "clock_ok 0 sample_requests" by (simp add: sample_requests_def)
  from window_never_overrun [OF this, of 1 0 "''a''" 2]
  show "length (in_window 1000000000 0 (times_of ''a'' (snd (limiter_run check cleanup sample_requests (rate_limiter_new 2 1))))) \<le> 2"
    by simp
qed

theorem check_decides_by_window_witness:
  "\<exists>l accepted. limiter_run check cleanup sample_requests (rate_limiter_new 2 1) = (l, accepted)
     \<and> fst (check 1000000000 1000000000 ''a'' l)"
proof -
  obtain l accepted where r: "limiter_run check cleanup sample_requests (rate_limiter_new 2 1) = (l, accepted)"
    by fastforce
  have "times_of ''a'' (snd (limiter_run check cleanup sample_requests (rate_limiter_new 2 1))) = [0, 400000000]"
    and "length (rl_state (fst (limiter_run check cleanup sample_requests (rate_limiter_new 2 1)))) < MAX_RATE_LIMIT_KEYS"
    by code_simp+
  then have a: "times_of ''a'' accepted = [0, 400000000]" and l: "length (rl_state l) < MAX_RATE_LIMIT_KEYS"
    unfolding r by (simp_all only: fst_conv snd_conv)
  have c: "clock_ok 0 (sample_requests @ [Check 1000000000 1000000000 ''a''])" by (simp add: sample_requests_def)
  show ?thesis using check_decides_by_window [OF c r] l a r by simp
qed

end
