(* ===== verification/Http_Limits.thy ===== *)
theory Http_Limits
  imports Session Sliding_Window
begin

text \<open>
  The rate limiting of requests, \<^verbatim>\<open>crates/backend/src/rate_limit.rs\<close>: the address of the client behind
  trusted proxies, the key a request is charged to, and the middleware over the two limiters, with
  histories of requests and of the sweeps of the cleanup worker.
\<close>

section \<open>The address of the client\<close>

definition header_ip :: "request \<Rightarrow> string \<Rightarrow> ip_addr option" where
  "header_ip rq header = Option.bind (rq_header rq header) (\<lambda>s. parse_ip (trim s))"

definition forwarded_for_ip :: "request \<Rightarrow> ip_addr option" where
  "forwarded_for_ip rq = Option.bind (rq_header rq ''x-forwarded-for'') (\<lambda>s.
     case split_char (CHR '','') s of [] \<Rightarrow> None | first # _ \<Rightarrow> parse_ip (trim first))"

definition localhost :: ip_addr where
  "localhost = V4 (127 * 2 ^ 24 + 1)"

definition extract_client_ip :: "request \<Rightarrow> trusted_proxy list \<Rightarrow> ip_addr" where
  "extract_client_ip rq proxies =
     (let forwarded = or_else (header_ip rq ''x-real-ip'') (forwarded_for_ip rq)
      in case rq_peer rq of
           Some ip \<Rightarrow> if is_trusted_proxy_peer ip proxies then unwrap_or ip forwarded else ip
         | None \<Rightarrow> unwrap_or localhost forwarded)"

section \<open>Keys\<close>

definition request_token :: "request \<Rightarrow> string option" where
  "request_token rq = or_else
     (Option.bind (rq_header rq ''authorization'') (strip_prefix ''Bearer ''))
     (Option.bind (rq_header rq ''cookie'') (\<lambda>cookies. find_map cookie_value (split_char (CHR '';'') cookies)))"

definition ip_key :: "ip_addr \<Rightarrow> string" where
  "ip_key ip = ''ip:'' @ show_ip ip"

definition session_key :: "mapped_user_claims \<Rightarrow> string option" where
  "session_key m = (case cl_auth_epoch (mc_claims m) of
      None \<Rightarrow> None
    | Some epoch \<Rightarrow> if epoch = [] then None
        else Some (''user:'' @ mc_tenant_id m @ '':'' @ show_int (cl_sub (mc_claims m)) @ '':'' @ epoch))"

definition token_claims :: "token_api \<Rightarrow> string \<Rightarrow> request \<Rightarrow> mapped_user_claims option" where
  "token_claims T secret rq = Option.bind (request_token rq) (\<lambda>token.
     case validate_token T token secret of
       Inl _ \<Rightarrow> None
     | Inr c \<Rightarrow> (case map_validated_user_claims c of Inl _ \<Rightarrow> None | Inr m \<Rightarrow> Some m))"

definition general_rate_limit_key :: "token_api \<Rightarrow> string \<Rightarrow> ip_addr \<Rightarrow> request \<Rightarrow> string \<times> request" where
  "general_rate_limit_key T secret ip rq = (case rq_context rq of
      Some ctx \<Rightarrow> (''user:'' @ rc_tenant_id ctx @ '':'' @ show_int (rc_user_id ctx), rq)
    | None \<Rightarrow>
        (case rq_mapped rq of
           Some m \<Rightarrow> (unwrap_or (ip_key ip) (session_key m), rq)
         | None \<Rightarrow>
             (case token_claims T secret rq of
                None \<Rightarrow> (ip_key ip, rq)
              | Some m \<Rightarrow>
                  (case session_key m of
                     None \<Rightarrow> (ip_key ip, rq)
                   | Some key \<Rightarrow> (key, rq\<lparr>rq_mapped := Some m\<rparr>)))))"

section \<open>The middleware\<close>

record http_limits =
  hl_api :: rate_limiter
  hl_login :: rate_limiter
  hl_proxies :: "trusted_proxy list"
  hl_ci :: api_key_limiter

definition boot_limits :: "string list \<Rightarrow> http_limits" where
  "boot_limits proxies =
     \<lparr>hl_api = rate_limiter_new 100 60, hl_login = rate_limiter_new 5 60, hl_proxies = parse_trusted_proxies proxies,
      hl_ci = api_key_limiter_new 60 60\<rparr>"

definition rate_limit_middleware ::
  "token_api \<Rightarrow> string \<Rightarrow> nat \<Rightarrow> nat \<Rightarrow> request \<Rightarrow> http_limits \<Rightarrow> (app_error, request) result \<times> http_limits" where
  "rate_limit_middleware T secret now again rq L =
     (if rq_path rq = ''/health'' \<or> rq_path rq = ''/ready'' then (Ok rq, L)
      else let ip = extract_client_ip rq (hl_proxies L)
           in if rq_path rq = ''/api/v1/auth/login''
              then (case check now again (ip_key ip) (hl_login L) of (allowed, l) \<Rightarrow>
                      (if allowed then Ok rq else Err TooManyRequests, L\<lparr>hl_login := l\<rparr>))
              else (case general_rate_limit_key T secret ip rq of (key, rq') \<Rightarrow>
                      (case check now again key (hl_api L) of (allowed, l) \<Rightarrow>
                         (if allowed then Ok rq' else Err TooManyRequests, L\<lparr>hl_api := l\<rparr>))))"

definition sweep :: "nat \<Rightarrow> http_limits \<Rightarrow> http_limits" where
  "sweep now L = L\<lparr>hl_api := cleanup now (hl_api L), hl_login := cleanup now (hl_login L), hl_ci := api_key_cleanup now (hl_ci L)\<rparr>"

section \<open>Proxies\<close>

definition same_prefix :: "trusted_proxy \<Rightarrow> ip_addr \<Rightarrow> bool" where
  "same_prefix p ip = (case (tp_network p, ip) of
      (V4 a, V4 b) \<Rightarrow> drop_bit (32 - tp_prefix_len p) a = drop_bit (32 - tp_prefix_len p) b
    | (V6 a, V6 b) \<Rightarrow> drop_bit (128 - tp_prefix_len p) a = drop_bit (128 - tp_prefix_len p) b
    | _ \<Rightarrow> False)"

lemma drop_whole_word: "drop_bit LENGTH('a) (w :: 'a::len word) = 0"
  by (rule bit_eqI) (auto simp: bit_simps dest: bit_imp_le_length)

lemma cidr_contains_v4_iff: "n \<le> 32 \<Longrightarrow> cidr_contains_v4 a b n \<longleftrightarrow> drop_bit (32 - n) a = drop_bit (32 - n) b"
  using masked_eq_iff_prefix [of "32 - n" a b] drop_whole_word [where 'a = 32]
  by (cases "n = 0") (simp_all add: cidr_contains_v4_def Let_def)

lemma cidr_contains_v6_iff: "n \<le> 128 \<Longrightarrow> cidr_contains_v6 a b n \<longleftrightarrow> drop_bit (128 - n) a = drop_bit (128 - n) b"
  using masked_eq_iff_prefix [of "128 - n" a b] drop_whole_word [where 'a = 128]
  by (cases "n = 0") (simp_all add: cidr_contains_v6_def Let_def)

lemma tp_contains_iff: "tp_prefix_len p \<le> max_prefix (tp_network p) \<Longrightarrow> tp_contains p ip \<longleftrightarrow> same_prefix p ip"
  by (cases "tp_network p"; cases ip) (simp_all add: same_prefix_def cidr_contains_v4_iff cidr_contains_v6_iff)

lemma parsed_proxies_wf:
  assumes "p \<in> set (parse_trusted_proxies vs)"
  shows "tp_prefix_len p \<le> max_prefix (tp_network p)"
proof -
  have "trusted_proxy_parse v = Some p \<Longrightarrow> tp_prefix_len p \<le> max_prefix (tp_network p)" for v
    by (auto simp: trusted_proxy_parse_def bind_eq_Some_conv split: if_splits)
  moreover have "p \<in> set (List.map_filter trusted_proxy_parse vs) \<Longrightarrow> \<exists>v. trusted_proxy_parse v = Some p"
    by (induction vs) (auto simp: List.map_filter_simps split: option.splits)
  ultimately show ?thesis using assms by (auto simp: parse_trusted_proxies_def)
qed

text \<open>
  C15. Clients cannot choose the address they are limited by: for a connected peer the address is
  the peer's own, unless the first bits of the peer's address are those of a configured proxy
  network; only then the forwarding headers are read.
\<close>

theorem client_address_not_spoofable:
  assumes "rq_peer rq = Some ip"
  shows "extract_client_ip rq (parse_trusted_proxies vs) = ip
    \<or> (\<exists>p \<in> set (parse_trusted_proxies vs). same_prefix p ip)
       \<and> Some (extract_client_ip rq (parse_trusted_proxies vs)) \<in> {header_ip rq ''x-real-ip'', forwarded_for_ip rq}"
proof (cases "is_trusted_proxy_peer ip (parse_trusted_proxies vs)")
  case True
  then have "\<exists>p \<in> set (parse_trusted_proxies vs). same_prefix p ip"
    using tp_contains_iff [OF parsed_proxies_wf] by (auto simp: is_trusted_proxy_peer_def list_ex_iff)
  then show ?thesis
    using assms True
    by (auto simp: extract_client_ip_def or_else_def unwrap_or_def Let_def split: option.splits)
qed (use assms in \<open>simp add: extract_client_ip_def\<close>)

section \<open>Histories\<close>

text \<open>What a request is charged to: the login limiter or the general one, and the key.\<close>

definition charged :: "token_api \<Rightarrow> string \<Rightarrow> trusted_proxy list \<Rightarrow> request \<Rightarrow> (bool \<times> string) option" where
  "charged T secret proxies rq =
     (if rq_path rq = ''/health'' \<or> rq_path rq = ''/ready'' then None
      else let ip = extract_client_ip rq proxies
           in if rq_path rq = ''/api/v1/auth/login'' then Some (True, ip_key ip)
              else Some (False, fst (general_rate_limit_key T secret ip rq)))"

definition limiter_of :: "bool \<Rightarrow> http_limits \<Rightarrow> rate_limiter" where
  "limiter_of b L = (if b then hl_login L else hl_api L)"

datatype limits_op = Request nat nat request | Sweep nat

fun limits_step ::
  "token_api \<Rightarrow> string \<Rightarrow> limits_op \<Rightarrow> http_limits \<times> (nat \<times> request) list \<Rightarrow> http_limits \<times> (nat \<times> request) list" where
  "limits_step T secret (Request now again rq) (L, admitted) =
     (case rate_limit_middleware T secret now again rq L of (r, L') \<Rightarrow>
        (L', if isl r then admitted else admitted @ [(now, rq)]))"
| "limits_step T secret (Sweep now) (L, admitted) = (sweep now L, admitted)"

definition limits_run ::
  "token_api \<Rightarrow> string \<Rightarrow> limits_op list \<Rightarrow> http_limits \<Rightarrow> http_limits \<times> (nat \<times> request) list" where
  "limits_run T secret ops L = fold (limits_step T secret) ops (L, [])"

text \<open>The operations one of the limiters sees of a history.\<close>

fun limiter_view :: "token_api \<Rightarrow> string \<Rightarrow> trusted_proxy list \<Rightarrow> bool \<Rightarrow> limits_op \<Rightarrow> limiter_op list" where
  "limiter_view T secret proxies b (Request now again rq) =
     (case charged T secret proxies rq of
        Some (l, key) \<Rightarrow> if l = b then [Check now again key] else []
      | None \<Rightarrow> [])"
| "limiter_view T secret proxies b (Sweep now) = [Cleanup now]"

definition charged_to ::
  "token_api \<Rightarrow> string \<Rightarrow> trusted_proxy list \<Rightarrow> bool \<Rightarrow> (nat \<times> request) list \<Rightarrow> (string \<times> nat) list" where
  "charged_to T secret proxies b admitted =
     concat (map (\<lambda>(t, rq). case charged T secret proxies rq of
       Some (l, key) \<Rightarrow> if l = b then [(key, t)] else [] | None \<Rightarrow> []) admitted)"

lemma middleware_charges:
  "rate_limit_middleware T secret now again rq L = (r, L') \<Longrightarrow> hl_proxies L' = hl_proxies L
    \<and> (case charged T secret (hl_proxies L) rq of
         None \<Rightarrow> \<not> isl r \<and> L' = L
       | Some (b, key) \<Rightarrow>
           limiter_of b L' = snd (check now again key (limiter_of b L)) \<and> limiter_of (\<not> b) L' = limiter_of (\<not> b) L
           \<and> (isl r \<longleftrightarrow> \<not> fst (check now again key (limiter_of b L))))"
  by (auto simp: rate_limit_middleware_def charged_def limiter_of_def Let_def split: if_splits prod.splits)

lemma limits_run_views:
  assumes "limits_run T secret ops L0 = (L, admitted)"
  shows "hl_proxies L = hl_proxies L0
    \<and> limiter_run check cleanup (concat (map (limiter_view T secret (hl_proxies L0) b) ops)) (limiter_of b L0)
      = (limiter_of b L, charged_to T secret (hl_proxies L0) b admitted)"
  using assms
proof (induction ops arbitrary: L admitted rule: rev_induct)
  case Nil
  then show ?case by (simp add: limits_run_def limiter_run_def charged_to_def)
next
  case (snoc op ops)
  obtain L1 adm where l: "limits_run T secret ops L0 = (L1, adm)" by fastforce
  note IH = snoc.IH [OF l]
  have step: "limits_step T secret op (L1, adm) = (L, admitted)" using snoc.prems l by (simp add: limits_run_def)
  have run: "limiter_run check cleanup (xs @ ys) l0 = fold (limiter_step check cleanup) ys (limiter_run check cleanup xs l0)" for xs ys l0
    by (simp add: limiter_run_def)
  show ?case
  proof (cases op)
    case (Request now again rq)
    obtain r where m: "rate_limit_middleware T secret now again rq L1 = (r, L)" and adm: "admitted = (if isl r then adm else adm @ [(now, rq)])"
      using step Request by (auto split: prod.splits)
    show ?thesis
      using middleware_charges [OF m] IH adm
      by (cases "charged T secret (hl_proxies L0) rq")
        (auto simp: run Request charged_to_def split: prod.splits if_splits)
  next
    case (Sweep now)
    with step IH show ?thesis by (auto simp: run sweep_def limiter_of_def)
  qed
qed

lemma charged_times:
  "length (in_window w start (times_of key (charged_to T secret proxies b admitted)))
     = length (filter (\<lambda>(t, rq). charged T secret proxies rq = Some (b, key) \<and> start \<le> t \<and> t < start + w) admitted)"
  by (induction admitted) (auto simp: charged_to_def in_window_def split: option.splits if_splits)

text \<open>
  C14. Requests are limited end to end: over any history of requests and sweeps from the start of
  the service, at most five login requests of one client address get past the middleware within any
  60 seconds, and at most a hundred other requests charged to one session or address.
\<close>

theorem requests_stay_limited:
  assumes "limits_run T secret ops (boot_limits vs) = (L, admitted)"
    and "clock_ok 0 (concat (map (limiter_view T secret (parse_trusted_proxies vs) True) ops))"
    and "clock_ok 0 (concat (map (limiter_view T secret (parse_trusted_proxies vs) False) ops))"
  shows "length (filter (\<lambda>(t, rq). charged T secret (parse_trusted_proxies vs) rq = Some (True, key)
      \<and> start \<le> t \<and> t < start + 60 * 1000000000) admitted) \<le> 5
    \<and> length (filter (\<lambda>(t, rq). charged T secret (parse_trusted_proxies vs) rq = Some (False, key)
      \<and> start \<le> t \<and> t < start + 60 * 1000000000) admitted) \<le> 100"
proof -
  have view: "snd (limiter_run check cleanup (concat (map (limiter_view T secret (parse_trusted_proxies vs) b) ops))
      (limiter_of b (boot_limits vs))) = charged_to T secret (parse_trusted_proxies vs) b admitted" for b
    using limits_run_views [OF assms(1), of b] by (simp add: boot_limits_def)
  have bound: "length (in_window (secs * 1000000000) start (times_of key (snd (limiter_run check cleanup xs (rate_limiter_new m secs))))) \<le> m"
    if "clock_ok 0 xs" for xs m secs
    using rl.window_bound [of "rate_limiter_new m secs" xs start key] that
    by (simp add: rate_limiter_new_def window_inv_def window_entry_def)
  show ?thesis
    using bound [OF assms(2), of 60 5] bound [OF assms(3), of 60 100] view [of True] view [of False]
    by (simp add: charged_times [symmetric] limiter_of_def boot_limits_def)
qed

section \<open>Examples\<close>

definition proxied_login :: "string \<Rightarrow> request" where
  "proxied_login client = \<lparr>rq_method = ''POST'', rq_path = ''/api/v1/auth/login'', rq_uri = ''/api/v1/auth/login'',
     rq_header = (\<lambda>name. if name = ''x-real-ip'' then Some client else None), rq_peer = Some (V4 (10 * 2 ^ 24 + 1)),
     rq_request_id = None, rq_mapped = None, rq_context = None, rq_claims = None\<rparr>"

definition no_tokens :: token_api where
  "no_tokens = \<lparr>jwt_decode = (\<lambda>_ _. Err ''InvalidToken''), jwt_encode = (\<lambda>_ _. Err ''no key''), header_value_from_str = Ok\<rparr>"

lemma proxied_address:
  "extract_client_ip (proxied_login ''192.0.2.7'') (parse_trusted_proxies [''10.0.0.0/8'']) = V4 (192 * 2 ^ 24 + 2 * 2 ^ 8 + 7)"
  by code_simp

theorem client_address_not_spoofable_witness:
  "extract_client_ip (proxied_login ''192.0.2.7'') (parse_trusted_proxies [''172.16.0.0/12'']) = V4 (10 * 2 ^ 24 + 1)
   \<and> (\<exists>p \<in> set (parse_trusted_proxies [''10.0.0.0/8'']). same_prefix p (V4 (10 * 2 ^ 24 + 1)))"
proof -
  have "rq_peer (proxied_login ''192.0.2.7'') = Some (V4 (10 * 2 ^ 24 + 1))" by (simp add: proxied_login_def)
  note c = client_address_not_spoofable [OF this, of "[''10.0.0.0/8'']"]
  have "extract_client_ip (proxied_login ''192.0.2.7'') (parse_trusted_proxies [''172.16.0.0/12'']) = V4 (10 * 2 ^ 24 + 1)"
    by code_simp
  moreover have "V4 (192 * 2 ^ 24 + 2 * 2 ^ 8 + 7) \<noteq> V4 (10 * 2 ^ 24 + 1)" by code_simp
  ultimately show ?thesis using c proxied_address by metis
qed

definition sample_logins :: "limits_op list" where
  "sample_logins = map (\<lambda>t. Request t t (proxied_login ''192.0.2.7'')) [0, 1, 2, 3, 4, 5]
     @ [Sweep 7, Request 61000000000 61000000000 (proxied_login ''192.0.2.7'')]"

abbreviation sample_proxies :: "trusted_proxy list" where
  "sample_proxies \<equiv> parse_trusted_proxies [''10.0.0.0/8'']"

abbreviation sample_key :: string where
  "sample_key \<equiv> ip_key (V4 (192 * 2 ^ 24 + 2 * 2 ^ 8 + 7))"

theorem requests_stay_limited_witness:
  "map fst (snd (limits_run no_tokens ''s'' sample_logins (boot_limits [''10.0.0.0/8'']))) = [0, 1, 2, 3, 4, 61000000000]
   \<and> length (filter (\<lambda>(t, rq). charged no_tokens ''s'' sample_proxies rq = Some (True, sample_key)
       \<and> 0 \<le> t \<and> t < 0 + 60 * 1000000000) (snd (limits_run no_tokens ''s'' sample_logins (boot_limits [''10.0.0.0/8''])))) \<le> 5"
proof -
  let ?run = "limits_run no_tokens ''s'' sample_logins (boot_limits [''10.0.0.0/8''])"
  have path: "rq_path (proxied_login c) = ''/api/v1/auth/login''" for c by (simp add: proxied_login_def)
  have charge: "charged no_tokens ''s'' sample_proxies (proxied_login ''192.0.2.7'') = Some (True, sample_key)"
    by (simp add: charged_def path proxied_address Let_def)
  have clocks: "clock_ok 0 (concat (map (limiter_view no_tokens ''s'' sample_proxies True) sample_logins))"
    "clock_ok 0 (concat (map (limiter_view no_tokens ''s'' sample_proxies False) sample_logins))"
    by (simp_all add: sample_logins_def charge)
  have "map fst (snd ?run) = [0, 1, 2, 3, 4, 61000000000]"
    by (simp add: limits_run_def sample_logins_def rate_limit_middleware_def path boot_limits_def proxied_address Let_def
        check_def rate_limiter_new_def MAX_RATE_LIMIT_KEYS_def window_entry_def sweep_def cleanup_def retained_def)
  then show ?thesis
    using requests_stay_limited [OF _ clocks, of "fst ?run" "snd ?run" sample_key 0] by simp
qed

end
