(* ===== verification/Revocation.thy ===== *)
theory Revocation
  imports Session
begin

text \<open>
  Sessions end for good. Along any history a user keeps the authentication epoch it was created
  with, versions only grow, and epochs are never shared; so a token that has been overtaken by a
  change of its user is refused from then on, also after its numeric identifier is used again.
\<close>

section \<open>How users evolve\<close>

definition epochs_ok :: "identity_db \<Rightarrow> bool" where
  "epochs_ok db \<longleftrightarrow> distinct (map us_auth_epoch (id_users db)) \<and> [] \<notin> set (map us_auth_epoch (id_users db))"

definition stems_from :: "identity_db \<Rightarrow> user_row \<Rightarrow> bool" where
  "stems_from db v \<longleftrightarrow> (\<exists>u \<in> set (id_users db). us_id u = us_id v \<and> us_tenant_id u = us_tenant_id v
     \<and> us_auth_epoch u = us_auth_epoch v \<and> us_permission_version u \<le> us_permission_version v)"

definition users_evolve :: "string set \<Rightarrow> identity_db \<Rightarrow> identity_db \<Rightarrow> bool" where
  "users_evolve es db db' \<longleftrightarrow> (epochs_ok db \<longrightarrow> epochs_ok db')
     \<and> (\<forall>v \<in> set (id_users db'). us_auth_epoch v \<in> es \<or> stems_from db v)"

lemma evolve_refl: "users_evolve es db db"
  by (auto simp: users_evolve_def stems_from_def)

lemma evolve_trans:
  assumes "users_evolve es db0 db1" and "users_evolve fs db1 db2"
  shows "users_evolve (es \<union> fs) db0 db2"
proof -
  have "us_auth_epoch v \<in> es \<union> fs \<or> stems_from db0 v" if v: "v \<in> set (id_users db2)" for v
  proof (cases "us_auth_epoch v \<in> fs")
    case False
    then obtain u where u: "u \<in> set (id_users db1)" "us_id u = us_id v" "us_tenant_id u = us_tenant_id v"
        "us_auth_epoch u = us_auth_epoch v" "us_permission_version u \<le> us_permission_version v"
      using assms(2) v unfolding users_evolve_def stems_from_def by blast
    with assms(1) have "us_auth_epoch v \<in> es \<or> stems_from db0 u" unfolding users_evolve_def by metis
    with u(2-5) show ?thesis unfolding stems_from_def by (metis UnI1 order_trans)
  qed simp
  with assms show ?thesis unfolding users_evolve_def by blast
qed

text \<open>Updates of rows that leave identity and epoch alone and do not lower the version.\<close>

lemma evolve_update:
  assumes "id_users db' = update_where p f (id_users db)"
    and f: "\<And>u. us_id (f u) = us_id u \<and> us_tenant_id (f u) = us_tenant_id u \<and> us_auth_epoch (f u) = us_auth_epoch u
      \<and> us_permission_version u \<le> us_permission_version (f u)"
  shows "users_evolve {} db db'"
proof -
  have e: "map us_auth_epoch (id_users db') = map us_auth_epoch (id_users db)"
    unfolding assms(1) update_where_def map_map by (rule map_cong) (use f in auto)
  then have "epochs_ok db \<Longrightarrow> epochs_ok db'" unfolding epochs_ok_def by simp
  moreover have "stems_from db v" if v: "v \<in> set (id_users db')" for v
  proof -
    obtain u where "u \<in> set (id_users db)" "v = (if p u then f u else u)"
      using v unfolding assms(1) set_update_where by blast
    with f [of u] show ?thesis unfolding stems_from_def by (metis order_refl)
  qed
  ultimately show ?thesis unfolding users_evolve_def by blast
qed

lemma evolve_users_eq: "id_users db' = id_users db \<Longrightarrow> users_evolve {} db db'"
  by (simp add: users_evolve_def epochs_ok_def stems_from_def) (blast)

lemma evolve_removed: "id_users db' = filter p (id_users db) \<Longrightarrow> users_evolve {} db db'"
  by (auto simp: users_evolve_def epochs_ok_def stems_from_def distinct_map_filter)

lemma insert_user_evolves:
  assumes "insert_user now epoch tenant name hash primary version db = Ok (i, db')"
  shows "users_evolve {epoch} db db'"
proof -
  have "epoch \<noteq> []" "\<And>u. u \<in> set (id_users db) \<Longrightarrow> us_auth_epoch u \<noteq> epoch"
    using assms by (auto simp: insert_user_def split: if_splits)
  then show ?thesis
    unfolding insert_user_Ok(2) [OF assms]
    by (auto simp: users_evolve_def epochs_ok_def stems_from_def new_user_row_def)
qed

lemma replace_roles_evolves: "replace_roles now tenant i roles db = Ok db' \<Longrightarrow> users_evolve {} db db'"
  by (rule evolve_update [OF replace_roles_Ok(4)]) (simp_all add: bump_version_def)

lemma create_user_evolves:
  assumes "create_user ch now later epoch tenant n db = Ok (outcome, db')"
  shows "users_evolve {epoch} db db'"
proof (cases "db' = db")
  case False
  obtain roles i db1 where "insert_user now epoch tenant (nu_username n) (nu_password_hash n) (primary_role roles) 1 db = Ok (i, db1)"
    and "replace_roles later tenant i roles db1 = Ok db'"
    by (rule create_user_Ok [OF assms False])
  from evolve_trans [OF insert_user_evolves [OF this(1)] replace_roles_evolves [OF this(2)]] show ?thesis by simp
qed (simp add: evolve_refl)

lemma change_password_evolves: "users_evolve {} db (snd (change_password tenant i hash db))"
  by (rule evolve_update [where p = "user_at tenant i" and f = "\<lambda>u. (bump_version u)\<lparr>us_password_hash := hash\<rparr>"])
    (simp_all add: change_password_def bump_version_def)

lemma record_login_evolves: "users_evolve {} db (snd (record_login ch tenant i t db))"
  by (rule evolve_update [where p = "user_at tenant i" and f = "\<lambda>u. u\<lparr>us_last_login_at := Some (timestamp_micros ch t)\<rparr>"])
    (simp_all add: record_login_def)

lemma delete_user_evolves:
  assumes "delete_user ch tenant i db = Ok (outcome, db')"
  shows "users_evolve {} db db'"
proof (cases "db' = db")
  case False
  with assms have "db' = remove_user tenant i db"
    by (auto simp: delete_user_def rbind_Inr_iff split: if_splits)
  then show ?thesis by (intro evolve_removed) (simp add: remove_user_def)
qed (simp add: evolve_refl)

lemma set_roles_evolves:
  assumes "set_roles ch now tenant i role_ids db = Ok (outcome, db')"
  shows "users_evolve {} db db'"
proof (cases "db' = db")
  case False
  then obtain roles where "replace_roles now tenant i roles db = Ok db'"
    using assms by (auto simp: set_roles_def rbind_Inr_iff split: if_splits option.splits)
  then show ?thesis by (rule replace_roles_evolves)
qed (simp add: evolve_refl)

lemma create_role_evolves: "create_role ch now tenant n db = Ok (d, db') \<Longrightarrow> users_evolve {} db db'"
  by (rule evolve_users_eq) (auto simp: create_role_def rbind_Inr_iff Let_def split: if_splits option.splits)

lemma delete_role_evolves: "delete_role ch tenant i db = Ok (outcome, db') \<Longrightarrow> users_evolve {} db db'"
  by (rule evolve_users_eq) (auto simp: delete_role_def rbind_Inr_iff remove_role_def split: option.splits if_splits)

lemma patch_permissions_users:
  "patch_permissions tenant i (Some ps) db = Ok db' \<Longrightarrow>
     id_users db' = update_where (\<lambda>u. us_tenant_id u = tenant \<and> assigned db tenant (us_id u) i) bump_version (id_users db)"
  by (auto simp: patch_permissions_def rbind_Inr_iff)

lemma patch_permissions_evolves:
  assumes "patch_permissions tenant i permissions db = Ok db'"
  shows "users_evolve {} db db'"
proof (cases permissions)
  case (Some ps)
  from patch_permissions_users [OF assms [unfolded Some]] show ?thesis
    by (rule evolve_update) (simp add: bump_version_def)
qed (use assms in \<open>simp add: patch_permissions_def evolve_refl\<close>)

lemma update_role_steps:
  assumes "update_role ch clock tenant i patch db = Ok (outcome, db')" and "db' \<noteq> db \<or> (\<exists>d. outcome = RoleUpdated d)"
  obtains db2 where "id_users db2 = id_users db" and "id_user_roles db2 = id_user_roles db"
    and "patch_permissions tenant i (rp_permissions patch) db2 = Ok db'"
proof -
  obtain n db1 where p: "patch_name tenant i (rp_name patch)
      (db\<lparr>id_roles := update_where (role_at tenant i) (\<lambda>w. w\<lparr>rw_updated_at := n\<rparr>) (id_roles db)\<rparr>) = Ok db1"
      "patch_permissions tenant i (rp_permissions patch) (patch_description tenant i (rp_description patch) db1) = Ok db'"
    using assms by (auto simp: update_role_def rbind_Inr_iff Let_def split: option.splits if_splits)
  have "id_users db1 = id_users db" "id_user_roles db1 = id_user_roles db"
    using p(1) by (auto simp: patch_name_def split: option.splits if_splits)
  with p(2) that [of "patch_description tenant i (rp_description patch) db1"] show thesis
    by (simp add: patch_description_def split: option.splits)
qed

lemma update_role_evolves:
  assumes "update_role ch clock tenant i patch db = Ok (outcome, db')"
  shows "users_evolve {} db db'"
proof (cases "db' = db")
  case False
  obtain db2 where "id_users db2 = id_users db" "patch_permissions tenant i (rp_permissions patch) db2 = Ok db'"
    using update_role_steps [OF assms] False by metis
  from evolve_trans [OF evolve_users_eq [OF this(1)] patch_permissions_evolves [OF this(2)]] show ?thesis by simp
qed (simp add: evolve_refl)

lemma seed_owner_evolves:
  assumes "seed_owner_if_empty dt now epoch tenant username hash db = Ok (outcome, db')"
  shows "users_evolve {epoch} db db'"
proof (cases "db' = db")
  case False
  obtain w i db1 where "id_users db = []" "w \<in> set (ensure_owner_role now tenant (id_roles db))" "rw_tenant_id w = tenant"
      "rw_name w = OWNER_ROLE" and ins: "insert_user now epoch tenant username hash ''owner'' 2
      (db\<lparr>id_roles := ensure_owner_role now tenant (id_roles db), id_permissions := grant_all (rw_id w) (id_permissions db)\<rparr>) = Ok (i, db1)"
    and db': "db' = db1\<lparr>id_user_roles := id_user_roles db1
      @ [\<lparr>ur_user_id = i, ur_role_id = rw_id w, ur_tenant_id = tenant, ur_created_at = now\<rparr>]\<rparr>"
    by (rule seed_owner_Ok [OF assms False])
  have "users_evolve {epoch} db db1"
    using insert_user_evolves [OF ins] by (simp add: users_evolve_def epochs_ok_def stems_from_def)
  then show ?thesis by (simp add: db' users_evolve_def epochs_ok_def)
qed (simp add: evolve_refl)

interpretation evolution: identity_relation users_evolve
proof unfold_locales
  show "users_evolve es db0 db1 \<Longrightarrow> es \<subseteq> fs \<Longrightarrow> users_evolve fs db0 db1" for es fs db0 db1
    by (auto simp: users_evolve_def)
qed (auto intro: evolve_refl evolve_trans create_user_evolves change_password_evolves delete_user_evolves set_roles_evolves
  record_login_evolves create_role_evolves update_role_evolves delete_role_evolves seed_owner_evolves)

lemma reachable_epochs_ok: "epochs_ok (identity_run E ops (baseline_identity start))"
  using evolution.run_related [where ops = ops and db = "baseline_identity start" and E = E]
  by (simp add: users_evolve_def epochs_ok_def baseline_identity_def)

section \<open>Ending sessions\<close>

definition overtaken :: "identity_db \<Rightarrow> int \<Rightarrow> string \<Rightarrow> bool" where
  "overtaken db version epoch \<longleftrightarrow> (\<forall>u \<in> set (id_users db). us_auth_epoch u = epoch \<longrightarrow> version < us_permission_version u)"

lemma overtaken_stays:
  assumes "overtaken db version epoch" and "users_evolve es db db'" and "epoch \<notin> es"
  shows "overtaken db' version epoch"
  unfolding overtaken_def
proof (intro ballI impI)
  fix v assume "v \<in> set (id_users db')" "us_auth_epoch v = epoch"
  with assms(2,3) obtain u where "u \<in> set (id_users db)" "us_auth_epoch u = epoch" "us_permission_version u \<le> us_permission_version v"
    unfolding users_evolve_def stems_from_def by metis
  with assms(1) show "version < us_permission_version v" unfolding overtaken_def by force
qed

lemma overtaken_refused:
  assumes "overtaken db (cl_permission_version (mc_claims m)) epoch" and "cl_auth_epoch (mc_claims m) = Some epoch"
    and "session_claims T secret rq = Ok m" and "requires_session (rq_path rq)"
  shows "\<exists>e. auth_middleware T secret ch db rq = Err e"
proof (cases "auth_middleware T secret ch db rq")
  case (Inr rq')
  obtain m' e a where m': "session_claims T secret rq = Ok m'" "cl_auth_epoch (mc_claims m') = Some e"
    and r: "resolve_session ch db (mc_tenant_id m') (cl_sub (mc_claims m')) (cl_permission_version (mc_claims m')) e = Ok a"
    by (rule auth_middleware_Ok [OF Inr assms(4)])
  have "m' = m" "e = epoch" using m' assms(2,3) by simp_all
  with r obtain u where "u \<in> set (id_users db)" "us_permission_version u = cl_permission_version (mc_claims m)" "us_auth_epoch u = epoch"
    by (auto elim: resolve_session_Ok)
  with assms(1) show ?thesis unfolding overtaken_def by force
qed simp

text \<open>The requests that end the sessions of a user, when they succeed.\<close>

fun ends_session :: "identity_env \<Rightarrow> identity_op \<Rightarrow> identity_db \<Rightarrow> string \<Rightarrow> int \<Rightarrow> bool" where
  "ends_session E (ChangePassword ctx j password) db t i \<longleftrightarrow>
     tc_tenant_id ctx = t \<and> j = i \<and> \<not> isl (fst (change_password_request (ie_hasher E) ctx j password db))"
| "ends_session E (DeleteUser ctx j) db t i \<longleftrightarrow>
     tc_tenant_id ctx = t \<and> j = i \<and> \<not> isl (fst (user_delete_request (ie_micros E) ctx j db))"
| "ends_session E (SetRoles now ctx j role_ids) db t i \<longleftrightarrow>
     tc_tenant_id ctx = t \<and> j = i \<and> \<not> isl (fst (set_roles_request (ie_micros E) now ctx j role_ids db))"
| "ends_session E (UpdateRole now ctx r update) db t i \<longleftrightarrow>
     tc_tenant_id ctx = t \<and> rp_permissions update \<noteq> None \<and> assigned db t i r
     \<and> \<not> isl (fst (role_update_request (ie_micros E) now ctx r update db))"
| "ends_session E _ db t i \<longleftrightarrow> False"

lemma bumped_overtakes:
  assumes "epochs_ok db" and "u \<in> set (id_users db)" and "p u" and "us_permission_version u < us_permission_version (f u)"
    and "\<And>x. us_auth_epoch (f x) = us_auth_epoch x" and "id_users db' = update_where p f (id_users db)"
  shows "overtaken db' (us_permission_version u) (us_auth_epoch u)"
  unfolding overtaken_def
proof (intro ballI impI)
  fix v assume v: "v \<in> set (id_users db')" "us_auth_epoch v = us_auth_epoch u"
  obtain x where x: "x \<in> set (id_users db)" "v = (if p x then f x else x)"
    using v(1) unfolding assms(6) set_update_where by blast
  have "us_auth_epoch x = us_auth_epoch u" using x(2) v(2) assms(5) by (simp split: if_splits)
  then have "x = u" using assms(1,2) x(1) unfolding epochs_ok_def distinct_map inj_on_def by blast
  with x(2) assms(3,4) show "us_permission_version u < us_permission_version v" by simp
qed

lemma removed_overtakes:
  assumes "epochs_ok db" and "u \<in> set (id_users db)" and "\<not> p u" and "id_users db' = filter p (id_users db)"
  shows "overtaken db' version (us_auth_epoch u)"
  using assms unfolding overtaken_def epochs_ok_def distinct_map inj_on_def by auto

lemma role_update_overtakes:
  assumes "\<not> isl (fst (role_update_request ch now ctx r update db))" and "rp_permissions update \<noteq> None"
    and "assigned db (tc_tenant_id ctx) i r" and "epochs_ok db" and "u \<in> set (id_users db)" and "user_at (tc_tenant_id ctx) i u"
  shows "overtaken (snd (role_update_request ch now ctx r update db)) (us_permission_version u) (us_auth_epoch u)"
proof -
  let ?db' = "snd (role_update_request ch now ctx r update db)"
  obtain patch d where p: "rp_permissions patch \<noteq> None"
    and up: "update_role (ch) now (tc_tenant_id ctx) r patch db = Ok (RoleUpdated d, ?db')"
    using assms(1,2)
    by (auto simp: role_update_request_def rbind_Inr_iff mapped_error_Inr_iff transpose_result_def
      split: sum.splits update_role_outcome.splits if_splits option.splits) (metis role_patch.select_convs(3))+
  obtain db2 where d2: "id_users db2 = id_users db" "id_user_roles db2 = id_user_roles db"
      "patch_permissions (tc_tenant_id ctx) r (rp_permissions patch) db2 = Ok (?db')"
    by (rule update_role_steps [OF up]) blast+
  have "id_users ?db' = update_where (\<lambda>u. us_tenant_id u = tc_tenant_id ctx \<and> assigned db2 (tc_tenant_id ctx) (us_id u) r)
      bump_version (id_users db)"
    using d2(3) p patch_permissions_users [of "tc_tenant_id ctx" r _ db2 ?db'] by (auto simp: d2(1))
  then show ?thesis
    by (intro bumped_overtakes [OF assms(4,5)])
      (use assms(6) assms(3) in \<open>simp_all add: bump_version_def assigned_def d2(2)\<close>)
qed

lemma ends_session_overtakes:
  assumes "ends_session E op db t i" and "epochs_ok db" and "u \<in> set (id_users db)" and "user_at t i u"
  shows "overtaken (identity_apply E op db) (us_permission_version u) (us_auth_epoch u)"
proof (cases op)
  case (ChangePassword ctx j password)
  obtain hash where "identity_apply E op db = snd (change_password t i hash db)"
    using assms(1) ChangePassword
    by (auto simp: change_password_request_def split: sum.splits prod.splits change_password_outcome.splits) (metis snd_conv)
  then show ?thesis
    by (intro bumped_overtakes [OF assms(2,3), where p = "user_at t i" and f = "\<lambda>u. (bump_version u)\<lparr>us_password_hash := hash\<rparr>"])
      (use assms(4) in \<open>simp_all add: change_password_def bump_version_def\<close>)
next
  case (DeleteUser ctx j)
  then have "identity_apply E op db = remove_user t i db"
    using assms(1)
    by (auto simp: user_delete_request_def delete_user_def rbind_Inr_iff persistence_def split: sum.splits delete_user_outcome.splits if_splits)
  then show ?thesis
    by (intro removed_overtakes [OF assms(2,3), where p = "\<lambda>u. \<not> user_at t i u"]) (use assms(4) in \<open>simp_all add: remove_user_def\<close>)
next
  case (SetRoles now ctx j role_ids)
  obtain roles where "replace_roles now t i roles db = Ok (identity_apply E op db)"
    using assms(1) SetRoles
    by (auto simp: set_roles_request_def set_roles_def rbind_Inr_iff persistence_def
      split: sum.splits set_user_roles_outcome.splits if_splits option.splits)
  from replace_roles_Ok(4) [OF this] show ?thesis
    by (intro bumped_overtakes [OF assms(2,3)]) (use assms(4) in \<open>simp_all add: bump_version_def\<close>)
next
  case (UpdateRole now ctx r update)
  with assms show ?thesis using role_update_overtakes [of "ie_micros E" now ctx r update db i u] by simp
qed (use assms(1) in simp_all)

text \<open>
  C10. Ended sessions stay ended: once the password or the roles of a user have been changed, the
  permissions of one of its roles replaced, or the user deleted, no request with the claims of a
  session from before is accepted any more, whatever happens afterwards. Identifiers may be used
  again; only the authentication epochs handed out later have to be fresh.
\<close>

theorem sessions_end_for_good:
  assumes "auth_middleware T secret ch (identity_run E ops (baseline_identity start)) rq = Ok rq'"
    and "requires_session (rq_path rq)" and "session_claims T secret rq = Ok m"
    and "ends_session E op (identity_run E ops (baseline_identity start)) (mc_tenant_id m) (cl_sub (mc_claims m))"
    and "cl_auth_epoch (mc_claims m) = Some epoch" and "epoch \<notin> (\<Union>op \<in> set later. op_epochs op)"
    and "session_claims T2 secret2 rq2 = Ok m" and "requires_session (rq_path rq2)"
  shows "\<exists>e. auth_middleware T2 secret2 ch2 (identity_run E (ops @ op # later) (baseline_identity start)) rq2 = Err e"
proof -
  let ?db = "identity_run E ops (baseline_identity start)"
  have ok: "epochs_ok ?db" by (rule reachable_epochs_ok)
  obtain m' e a where "session_claims T secret rq = Ok m'" "cl_auth_epoch (mc_claims m') = Some e"
    and r: "resolve_session ch ?db (mc_tenant_id m') (cl_sub (mc_claims m')) (cl_permission_version (mc_claims m')) e = Ok a"
    by (rule auth_middleware_Ok [OF assms(1,2)])
  with assms(3,5) have m': "m' = m" "e = epoch" by simp_all
  obtain u where u: "u \<in> set (id_users ?db)" "user_at (mc_tenant_id m) (cl_sub (mc_claims m)) u"
      "us_permission_version u = cl_permission_version (mc_claims m)" "us_auth_epoch u = epoch"
    using r unfolding m' by (auto elim: resolve_session_Ok)
  have "overtaken (identity_apply E op ?db) (cl_permission_version (mc_claims m)) epoch"
    using ends_session_overtakes [OF assms(4) ok u(1,2)] u(3,4) by simp
  from overtaken_stays [OF this evolution.run_related assms(6)]
  have "overtaken (identity_run E (ops @ op # later) (baseline_identity start)) (cl_permission_version (mc_claims m)) epoch"
    by (simp add: identity_run_append)
  then show ?thesis by (rule overtaken_refused [OF _ assms(5,7,8)])
qed

section \<open>Beginning sessions\<close>

lemma find_update_where:
  assumes "\<And>x. p (f x) = p x"
  shows "find p (update_where p f xs) = map_option f (find p xs)"
  using assms by (induction xs) (auto simp: update_where_def)

lemma decode_user_login:
  assumes "decode_user ch r = Ok u" and "from_timestamp_micros ch m = Some t"
  shows "decode_user ch (r\<lparr>us_last_login_at := Some m\<rparr>) = Ok (u\<lparr>usr_last_login_at := Some t\<rparr>)"
  using assms by (auto simp: decode_user_def rbind_Inr_iff row_datetime_option_def row_datetime_def)

lemma hydrate_after_login:
  assumes "hydrate ch db tenant i = Ok (Some d)" and "from_timestamp_micros ch (timestamp_micros ch now) = Some t"
  shows "hydrate ch (snd (record_login ch tenant i now db)) tenant i = Ok (Some (d\<lparr>ud_user := (ud_user d)\<lparr>usr_last_login_at := Some t\<rparr>\<rparr>))"
proof -
  obtain r where r: "find (user_at tenant i) (id_users db) = Some r" "decode_user ch r = Ok (ud_user d)"
    using assms(1) by (auto simp: hydrate_def rbind_Inr_iff split: option.splits)
  have "assigned (snd (record_login ch tenant i now db)) = assigned db"
    by (intro ext) (simp add: assigned_def record_login_def)
  then show ?thesis
    using assms(1) r decode_user_login [OF r(2) assms(2)]
    by (cases d) (auto simp: hydrate_def record_login_def find_update_where rbind_Inr_iff)
qed

lemma authenticate_Ok:
  assumes "authenticate ch H now tenant username password db = (Ok a, db')"
  obtains i d where "hydrate ch db tenant i = Ok (Some d)" and "usr_is_active (ud_user d)" and "usr_id (ud_user d) = i"
    and "a = authenticated_user_from_details d" and "db' = snd (record_login ch tenant i now db)"
proof -
  obtain c where c: "find_credentials ch db tenant username = Ok (Some c)" "usr_is_active (ud_user (uc_details c))"
      "a = authenticated_user_from_details (uc_details c)" "db' = snd (record_login ch tenant (usr_id (ud_user (uc_details c))) now db)"
    using assms by (auto simp: authenticate_def split: sum.splits option.splits if_splits)
  obtain i where i: "hydrate ch db tenant i = Ok (Some (uc_details c))"
    using c(1) by (auto simp: find_credentials_def rbind_Inr_iff row_i32_def split: option.splits if_splits)
  have "usr_id (ud_user (uc_details c)) = i" using hydrate_Some [OF i] decode_user_Ok by metis
  with i c(2-4) that show thesis by blast
qed

lemma login_token_accepted:
  assumes "authenticate ch H now tenant username password db = (Ok a, db')" and "epochs_ok db" and "tenant_id_new tenant = Inr tenant"
    and "from_timestamp_micros ch (timestamp_micros ch now) = Some t"
    and "session_claims T secret rq = Ok \<lparr>mc_claims = session_token_claims a expiration, mc_tenant_id = tenant\<rparr>"
    and "requires_session (rq_path rq)"
  shows "auth_middleware T secret ch db' rq
      = Ok (rq\<lparr>rq_context := Some (authenticated_context a), rq_claims := Some (session_token_claims a expiration)\<rparr>)"
    and "me ch db' (authenticated_context a) = Ok (respond_user a)"
proof -
  obtain i d where d: "hydrate ch db tenant i = Ok (Some d)" "usr_is_active (ud_user d)" "usr_id (ud_user d) = i"
      "a = authenticated_user_from_details d" "db' = snd (record_login ch tenant i now db)"
    by (rule authenticate_Ok [OF assms(1)])
  obtain r where r: "r \<in> set (id_users db)" "user_at tenant i r" "decode_user ch r = Ok (ud_user d)"
    by (rule hydrate_Some [OF d(1)])
  have u: "usr_tenant_id (ud_user d) = tenant" "usr_auth_epoch (ud_user d) = us_auth_epoch r" using decode_user_Ok [OF r(3)] r(2) by simp_all
  have "us_auth_epoch r \<noteq> []" using assms(2) r(1) unfolding epochs_ok_def by force
  moreover have resolved: "resolve_session ch db' tenant i (usr_permission_version (ud_user d)) (us_auth_epoch r) = Ok a"
    using hydrate_after_login [OF d(1) assms(4)] d(2-4) u
    by (simp add: resolve_session_def d(5) persistence_def matches_identity_def authenticated_user_from_details_def)
  ultimately show "auth_middleware T secret ch db' rq
      = Ok (rq\<lparr>rq_context := Some (authenticated_context a), rq_claims := Some (session_token_claims a expiration)\<rparr>)"
    using assms(5,6) u d(3)
    by (simp add: auth_middleware_def session_token_claims_def d(4) authenticated_user_from_details_def Let_def)
  show "me ch db' (authenticated_context a) = Ok (respond_user a)" by (rule resolve_session_me [OF resolved])
qed

lemma bearer_session_claims:
  assumes "rq_header rq ''authorization'' = Some (''Bearer '' @ token)" and "rq_mapped rq = None"
    and "validate_token T token secret = Ok c" and "map_validated_user_claims c = Ok m"
  shows "session_claims T secret rq = Ok m"
  using assms by (simp add: session_claims_def bearer_token_def strip_prefix_def starts_with_def or_else_def)


section \<open>Examples\<close>

definition sample_seed :: "identity_op list" where
  "sample_seed = [SeedOwner 0 ''e'' ''default'' ''admin'' ''admin'']"

definition sample_login :: "(application_error, authenticated_user) result \<times> identity_db" where
  "sample_login = authenticate sample_micros plain_hasher 5 ''default'' ''admin'' ''admin''
     (identity_run sample_identity_env sample_seed (baseline_identity 0))"

definition sample_claims :: claims where
  "sample_claims = (case fst sample_login of
      Inr a \<Rightarrow> session_token_claims a 86405
    | Inl _ \<Rightarrow> \<lparr>cl_sub = 0, cl_username = [], cl_role = [], cl_tenant_id = None, cl_scopes = [], cl_permission_version = 0,
        cl_auth_epoch = None, cl_exp = 0\<rparr>)"

text \<open>A library that signs a single token.\<close>

definition sample_tokens :: "claims \<Rightarrow> token_api" where
  "sample_tokens c = \<lparr>jwt_decode = (\<lambda>t secret. if t = ''token'' then Ok c else Err ''InvalidToken''),
     jwt_encode = (\<lambda>d secret. if d = c then Ok ''token'' else Err ''InvalidClaims''), header_value_from_str = Ok\<rparr>"

text \<open>The same library at a given time, when the token may have expired.\<close>

definition tokens_at :: "int \<Rightarrow> claims \<Rightarrow> token_api" where
  "tokens_at requested c = (sample_tokens c)\<lparr>jwt_decode := (\<lambda>t secret.
     if t \<noteq> ''token'' then Err ''InvalidToken'' else if requested < cl_exp c then Ok c else Err ''ExpiredSignature'')\<rparr>"

definition sample_request :: request where
  "sample_request = \<lparr>rq_method = ''GET'', rq_path = ''/api/v1/devices'', rq_uri = ''/api/v1/devices'',
     rq_header = (\<lambda>name. if name = ''authorization'' then Some ''Bearer token'' else None), rq_peer = None,
     rq_request_id = None, rq_mapped = None, rq_context = None, rq_claims = None\<rparr>"

definition sample_login_request :: login_request where
  "sample_login_request = \<lparr>lr_username = ''admin'', lr_password = ''admin'', lr_tenant_id = None, lr_issue_token = True\<rparr>"

definition sample_mapped :: mapped_user_claims where
  "sample_mapped = \<lparr>mc_claims = sample_claims, mc_tenant_id = ''default''\<rparr>"

lemma sample_session:
  "requires_session (rq_path sample_request)"
  "session_claims (sample_tokens sample_claims) ''s'' sample_request = Ok sample_mapped"
  "\<exists>rq'. auth_middleware (sample_tokens sample_claims) ''s'' sample_micros
     (identity_run sample_identity_env sample_seed (baseline_identity 0)) sample_request = Ok rq'"
proof -
  show "requires_session (rq_path sample_request)" by code_simp
  show "session_claims (sample_tokens sample_claims) ''s'' sample_request = Ok sample_mapped" by code_simp
  have "\<not> isl (auth_middleware (sample_tokens sample_claims) ''s'' sample_micros
     (identity_run sample_identity_env sample_seed (baseline_identity 0)) sample_request)" by code_simp
  then show "\<exists>rq'. auth_middleware (sample_tokens sample_claims) ''s'' sample_micros
     (identity_run sample_identity_env sample_seed (baseline_identity 0)) sample_request = Ok rq'"
    by (auto simp: isl_def) (metis sum.exhaust)
qed

theorem session_permissions_are_current_witness:
  "\<exists>rq' m ctx u. auth_middleware (sample_tokens sample_claims) ''s'' sample_micros
       (identity_run sample_identity_env sample_seed (baseline_identity 0)) sample_request = Ok rq'
     \<and> session_claims (sample_tokens sample_claims) ''s'' sample_request = Ok m \<and> rq_context rq' = Some ctx
     \<and> rc_tenant_id ctx = mc_tenant_id m
     \<and> u \<in> set (id_users (identity_run sample_identity_env sample_seed (baseline_identity 0)))"
proof -
  obtain rq' where a: "auth_middleware (sample_tokens sample_claims) ''s'' sample_micros
      (identity_run sample_identity_env sample_seed (baseline_identity 0)) sample_request = Ok rq'"
    using sample_session(3) by blast
  from a session_permissions_are_current [OF a sample_session(1)] show ?thesis by blast
qed

definition strong_password :: string where
  "strong_password = ''Str0ng!password''"

definition sample_later :: "identity_op list" where
  "sample_later = [CreateUser 9 9 ''f'' sample_owner ''ops'' strong_password (Some [1]), DeleteUser sample_owner 1,
     CreateUser 10 10 ''g'' sample_owner ''admin'' strong_password (Some [1])]"

theorem sessions_end_for_good_witness:
  "ends_session sample_identity_env (ChangePassword sample_owner 1 strong_password)
     (identity_run sample_identity_env sample_seed (baseline_identity 0)) ''default'' 1
   \<and> (\<exists>e. auth_middleware (sample_tokens sample_claims) ''s'' sample_micros (identity_run sample_identity_env
       (sample_seed @ ChangePassword sample_owner 1 strong_password # sample_later) (baseline_identity 0)) sample_request = Err e)"
proof -
  have ends: "ends_session sample_identity_env (ChangePassword sample_owner 1 strong_password)
     (identity_run sample_identity_env sample_seed (baseline_identity 0)) ''default'' 1" by code_simp
  have c: "mc_tenant_id sample_mapped = ''default''" "mc_claims sample_mapped = sample_claims" by (simp_all add: sample_mapped_def)
  have "cl_sub sample_claims = 1 \<and> cl_auth_epoch sample_claims = Some ''e''" by code_simp
  moreover have "''e'' \<notin> (\<Union>op \<in> set sample_later. op_epochs op)" by (simp add: sample_later_def)
  moreover obtain rq' where "auth_middleware (sample_tokens sample_claims) ''s'' sample_micros
      (identity_run sample_identity_env sample_seed (baseline_identity 0)) sample_request = Ok rq'"
    using sample_session(3) by blast
  ultimately show ?thesis
    using sessions_end_for_good [OF _ sample_session(1,2) _ _ _ sample_session(2,1), where epoch = "''e''" and E = sample_identity_env
      and op = "ChangePassword sample_owner 1 strong_password" and ops = sample_seed and later = sample_later and start = 0] ends
    by (simp add: c)
qed


end
