(* ===== verification/Http_Service.thy ===== *)
theory Http_Service
  imports Http_Limits Revocation
begin

text \<open>
  The audit log (\<^verbatim>\<open>crates/backend-core/src/audit.rs\<close> with its use case and its table) and the order in
  which \<^verbatim>\<open>crates/backend/src/app/http.rs\<close> wraps every request: request identifiers, rate limiting,
  authentication, auditing, and the handler, which is an arbitrary function of the request and the
  tables of users and roles. The store of audit events fails only where the schema refuses a row; a
  lost connection or a full disk is not represented.
\<close>

section \<open>The audit log\<close>

record audit_event_record =
  ae_id :: string
  ae_actor_type :: string
  ae_actor_id :: "string option"
  ae_action :: string
  ae_resource_type :: string
  ae_resource_id :: "string option"
  ae_outcome :: string
  ae_request_id :: string
  ae_metadata :: json
  ae_occurred_at :: time

record new_audit_event =
  na_id :: string
  na_actor_type :: string
  na_actor_id :: "string option"
  na_action :: string
  na_resource_type :: string
  na_resource_id :: "string option"
  na_outcome :: string
  na_request_id :: string
  na_metadata :: json

record audit_row =
  aw_id :: string
  aw_tenant_id :: string
  aw_actor_type :: string
  aw_actor_id :: "string option"
  aw_action :: string
  aw_resource_type :: string
  aw_resource_id :: "string option"
  aw_outcome :: string
  aw_request_id :: string
  aw_metadata :: string
  aw_occurred_at :: int

record metadata_text =
  metadata_to_string :: "json \<Rightarrow> (string, string) result"
  metadata_from_str :: "string \<Rightarrow> (string, json) result"

definition audit_record ::
  "metadata_text \<Rightarrow> int \<Rightarrow> string list \<Rightarrow> string \<Rightarrow> new_audit_event \<Rightarrow> audit_row list \<Rightarrow> (persistence_error, audit_row list) result" where
  "audit_record J now tenants tenant e rows = (case metadata_to_string J (na_metadata e) of
      Inl m \<Rightarrow> Err (Internal m)
    | Inr metadata \<Rightarrow>
        if \<exists>r \<in> set rows. aw_id r = na_id e then Err (legacy_error (Constraint ''UNIQUE constraint failed: audit_events.id (19)''))
        else if tenant \<notin> set tenants then Err (legacy_error (Constraint ''FOREIGN KEY constraint failed''))
        else Ok (rows @ [\<lparr>aw_id = na_id e, aw_tenant_id = tenant, aw_actor_type = na_actor_type e, aw_actor_id = na_actor_id e,
          aw_action = na_action e, aw_resource_type = na_resource_type e, aw_resource_id = na_resource_id e,
          aw_outcome = na_outcome e, aw_request_id = na_request_id e, aw_metadata = metadata, aw_occurred_at = now\<rparr>]))"

definition decode_audit :: "metadata_text \<Rightarrow> micros_api \<Rightarrow> audit_row \<Rightarrow> (persistence_error, audit_event_record) result" where
  "decode_audit J ch r =
     rbind (case metadata_from_str J (aw_metadata r) of Inl m \<Rightarrow> Err (CorruptData m) | Inr v \<Rightarrow> Ok v) (\<lambda>metadata.
     rbind (row_datetime ch (aw_occurred_at r)) (\<lambda>occurred_at.
     Ok \<lparr>ae_id = aw_id r, ae_actor_type = aw_actor_type r, ae_actor_id = aw_actor_id r, ae_action = aw_action r,
         ae_resource_type = aw_resource_type r, ae_resource_id = aw_resource_id r, ae_outcome = aw_outcome r,
         ae_request_id = aw_request_id r, ae_metadata = metadata, ae_occurred_at = occurred_at\<rparr>))"

fun decode_audits :: "metadata_text \<Rightarrow> micros_api \<Rightarrow> audit_row list \<Rightarrow> (persistence_error, audit_event_record list) result" where
  "decode_audits J ch [] = Ok []"
| "decode_audits J ch (r # rows) = rbind (decode_audit J ch r) (\<lambda>a. rbind (decode_audits J ch rows) (\<lambda>as. Ok (a # as)))"

definition audit_list ::
  "metadata_text \<Rightarrow> micros_api \<Rightarrow> string \<Rightarrow> int \<Rightarrow> int \<Rightarrow> audit_row list \<Rightarrow> (persistence_error, audit_event_record list) result" where
  "audit_list J ch tenant limit offset rows =
     decode_audits J ch (take (nat limit) (drop (nat offset)
       (rev (sort_key (\<lambda>r. (aw_occurred_at r, aw_id r)) (filter (\<lambda>r. aw_tenant_id r = tenant) rows)))))"

definition record_access ::
  "metadata_text \<Rightarrow> int \<Rightarrow> string list \<Rightarrow> string \<Rightarrow> new_audit_event \<Rightarrow> audit_row list \<Rightarrow> (application_error, audit_row list) result" where
  "record_access J now tenants tenant e rows = persistence (audit_record J now tenants tenant e rows)"

definition audit_list_request ::
  "metadata_text \<Rightarrow> micros_api \<Rightarrow> tenant_context \<Rightarrow> int \<Rightarrow> int \<Rightarrow> audit_row list \<Rightarrow> (application_error, audit_event_record list) result" where
  "audit_list_request J ch ctx limit offset rows =
     rbind (require_permission ctx ReadServerMetrics) (\<lambda>_.
     persistence (audit_list J ch (tc_tenant_id ctx) (max 1 (min 200 limit)) (max offset 0) rows))"

section \<open>The audit middleware\<close>

definition audit_resource :: "string \<Rightarrow> string \<times> string option" where
  "audit_resource path =
     (let segs = filter (\<lambda>s. s \<noteq> []) (split_char (CHR ''/'') (trim_end_matches (CHR ''/'') (trim_start_matches (CHR ''/'') path)))
      in (if 2 < length segs then segs ! 2 else ''unknown'',
          if 3 < length segs then Some (join ''/'' (drop 3 segs)) else None))"

definition should_audit :: "string \<Rightarrow> bool" where
  "should_audit m \<longleftrightarrow> m \<in> {''POST'', ''PUT'', ''PATCH'', ''DELETE''}"

definition audit_path :: "request \<Rightarrow> string" where
  "audit_path rq = (if starts_with ''/api/v1/ota-downloads/'' (rq_path rq) then redacted_request_uri rq else rq_path rq)"

definition is_success :: "nat \<Rightarrow> bool" where
  "is_success status \<longleftrightarrow> 200 \<le> status \<and> status < 300"

definition authenticated_audit_subject :: "request_context option \<Rightarrow> (string \<times> string) option" where
  "authenticated_audit_subject ctx = map_option (\<lambda>c. (rc_tenant_id c, show_int (rc_user_id c))) ctx"

definition audit_event :: "string \<Rightarrow> request \<Rightarrow> nat \<Rightarrow> string \<Rightarrow> new_audit_event" where
  "audit_event fresh_id rq status actor_id = (case audit_resource (audit_path rq) of (resource_type, resource_id) \<Rightarrow>
     \<lparr>na_id = fresh_id, na_actor_type = ''user'', na_actor_id = Some actor_id,
      na_action = resource_type @ ''.'' @ map to_ascii_lowercase (rq_method rq), na_resource_type = resource_type,
      na_resource_id = resource_id, na_outcome = (if is_success status then ''success'' else ''failure''),
      na_request_id = current_request_id rq,
      na_metadata = JObj [(''method'', JStr (rq_method rq)), (''path'', JStr (audit_path rq)), (''status'', JNum (PosInt status))]\<rparr>)"

record http_state =
  hs_limits :: http_limits
  hs_identity :: identity_db
  hs_audit :: "audit_row list"

type_synonym handler = "request \<Rightarrow> identity_db \<Rightarrow> response \<times> identity_db"

definition run_handler :: "handler \<Rightarrow> request \<Rightarrow> http_state \<Rightarrow> response \<times> http_state" where
  "run_handler h rq s = (case h rq (hs_identity s) of (r, db) \<Rightarrow> (r, s\<lparr>hs_identity := db\<rparr>))"

text \<open>A failure to write the event is only logged.\<close>

definition audit_middleware ::
  "metadata_text \<Rightarrow> int \<Rightarrow> string \<Rightarrow> handler \<Rightarrow> request \<Rightarrow> http_state \<Rightarrow> response \<times> http_state" where
  "audit_middleware J now fresh_id h rq s =
     (if \<not> should_audit (rq_method rq) then run_handler h rq s
      else (case run_handler h rq s of (r, s') \<Rightarrow>
        (case authenticated_audit_subject (rq_context rq) of
           None \<Rightarrow> (r, s')
         | Some (tenant, actor_id) \<Rightarrow>
             (r, case record_access J now (id_tenants (hs_identity s')) tenant (audit_event fresh_id rq (rs_status r) actor_id) (hs_audit s') of
                   Inl _ \<Rightarrow> s'
                 | Inr rows \<Rightarrow> s'\<lparr>hs_audit := rows\<rparr>))))"

section \<open>The service\<close>

record service_env =
  se_tokens :: token_api
  se_secret :: string
  se_micros :: micros_api
  se_metadata :: metadata_text

definition service ::
  "service_env \<Rightarrow> handler \<Rightarrow> string \<Rightarrow> string \<Rightarrow> nat \<Rightarrow> nat \<Rightarrow> int \<Rightarrow> request \<Rightarrow> http_state \<Rightarrow> response \<times> http_state" where
  "service V h fresh_request_id fresh_event_id now again wall rq s =
     (let rq1 = request_id_middleware fresh_request_id rq
      in case rate_limit_middleware (se_tokens V) (se_secret V) now again rq1 (hs_limits s) of
           (Inl e, L) \<Rightarrow> (into_response rq1 e, s\<lparr>hs_limits := L\<rparr>)
         | (Inr rq2, L) \<Rightarrow>
             (case auth_middleware (se_tokens V) (se_secret V) (se_micros V) (hs_identity s) rq2 of
                Inl e \<Rightarrow> (into_response rq2 e, s\<lparr>hs_limits := L\<rparr>)
              | Inr rq3 \<Rightarrow> audit_middleware (se_metadata V) wall fresh_event_id h rq3 (s\<lparr>hs_limits := L\<rparr>)))"

section \<open>Every authenticated mutation is audited\<close>

lemma rate_limit_keeps_request:
  assumes "rate_limit_middleware T secret now again rq L = (Inr rq', L')"
  shows "rq_method rq' = rq_method rq" and "rq_path rq' = rq_path rq" and "rq_request_id rq' = rq_request_id rq"
    and "rq_context rq' = rq_context rq"
  using assms
  by (auto simp: rate_limit_middleware_def general_rate_limit_key_def Let_def split: if_splits prod.splits option.splits)

lemma auth_keeps_request:
  assumes "auth_middleware T secret ch db rq = Ok rq'"
  shows "rq_method rq' = rq_method rq" and "rq_path rq' = rq_path rq" and "rq_request_id rq' = rq_request_id rq"
proof -
  have "rq' = rq \<or> (\<exists>c d. rq' = rq\<lparr>rq_context := c, rq_claims := d\<rparr>)"
  proof (cases "requires_session (rq_path rq)")
    case True
    show ?thesis by (rule auth_middleware_Ok [OF assms True]) blast
  qed (use assms in \<open>simp add: auth_middleware_def\<close>)
  then show "rq_method rq' = rq_method rq" "rq_path rq' = rq_path rq" "rq_request_id rq' = rq_request_id rq" by auto
qed

lemma auth_context:
  assumes "auth_middleware T secret ch db rq = Ok rq'" and "requires_session (rq_path rq)"
  obtains ctx u where "rq_context rq' = Some ctx" and "u \<in> set (id_users db)" and "us_tenant_id u = rc_tenant_id ctx"
proof -
  obtain m epoch a where "session_claims T secret rq = Ok m" "cl_auth_epoch (mc_claims m) = Some epoch" "epoch \<noteq> []"
    and r: "resolve_session ch db (mc_tenant_id m) (cl_sub (mc_claims m)) (cl_permission_version (mc_claims m)) epoch = Ok a"
    and rq': "rq' = rq\<lparr>rq_context := Some (authenticated_context a), rq_claims := Some (mc_claims m)\<rparr>"
    by (rule auth_middleware_Ok [OF assms])
  obtain u where "u \<in> set (id_users db)" "us_tenant_id u = rc_tenant_id (authenticated_context a)"
    using r by (auto elim!: resolve_session_Ok simp: authenticated_context_def)
  with rq' that show thesis by simp
qed

lemma service_cases:
  assumes "service V h fresh_request_id fresh_event_id now again wall rq s = (r, s')" and "requires_session (rq_path rq)"
  obtains (refused) "rs_error r \<noteq> None" and "hs_identity s' = hs_identity s" and "hs_audit s' = hs_audit s"
  | (handled) rq3 ctx u L where "rq_context rq3 = Some ctx" and "rq_method rq3 = rq_method rq" and "rq_path rq3 = rq_path rq"
      and "u \<in> set (id_users (hs_identity s))" and "us_tenant_id u = rc_tenant_id ctx"
      and "audit_middleware (se_metadata V) wall fresh_event_id h rq3 (s\<lparr>hs_limits := L\<rparr>) = (r, s')"
proof -
  let ?rq1 = "request_id_middleware fresh_request_id rq"
  have id: "rq_method ?rq1 = rq_method rq" "rq_path ?rq1 = rq_path rq" by (simp_all add: request_id_middleware_def Let_def)
  obtain x L where l: "rate_limit_middleware (se_tokens V) (se_secret V) now again ?rq1 (hs_limits s) = (x, L)" by fastforce
  show thesis
  proof (cases x)
    case (Inl e)
    with assms(1) l refused show thesis by (auto simp: service_def into_response_def split: prod.splits)
  next
    case (Inr rq2)
    note k2 = rate_limit_keeps_request [OF l [unfolded Inr]]
    show thesis
    proof (cases "auth_middleware (se_tokens V) (se_secret V) (se_micros V) (hs_identity s) rq2")
      case (Inl e)
      with assms(1) l \<open>x = Inr rq2\<close> refused show thesis by (auto simp: service_def into_response_def split: prod.splits)
    next
      case ok: (Inr rq3)
      have p: "requires_session (rq_path rq2)" using assms(2) k2(2) id(2) by simp
      obtain ctx u where c: "rq_context rq3 = Some ctx" and u: "u \<in> set (id_users (hs_identity s))" "us_tenant_id u = rc_tenant_id ctx"
        by (rule auth_context [OF ok p])
      from handled [OF c _ _ u] auth_keeps_request [OF ok] k2 id assms(1) l \<open>x = Inr rq2\<close> ok show thesis
        by (simp add: service_def Let_def)
    qed
  qed
qed

lemma audit_middleware_records:
  assumes "audit_middleware J wall fresh_event_id h rq s = (r, s')" and "should_audit (rq_method rq)" and "rq_context rq = Some ctx"
    and "\<forall>row \<in> set (hs_audit s). aw_id row \<noteq> fresh_event_id" and "rc_tenant_id ctx \<in> set (id_tenants (snd (h rq (hs_identity s))))"
    and "\<And>v. \<not> isl (metadata_to_string J v)"
  shows "\<exists>row. h rq (hs_identity s) = (r, hs_identity s') \<and> hs_audit s' = hs_audit s @ [row]
    \<and> aw_tenant_id row = rc_tenant_id ctx \<and> aw_actor_id row = Some (show_int (rc_user_id ctx))
    \<and> aw_outcome row = (if is_success (rs_status r) then ''success'' else ''failure'')"
proof -
  let ?e = "audit_event fresh_event_id rq (rs_status r) (show_int (rc_user_id ctx))"
  obtain db where h: "h rq (hs_identity s) = (r, db)"
    using assms(1-3)
    by (auto simp: audit_middleware_def run_handler_def authenticated_audit_subject_def split: prod.splits)
  obtain t where t: "metadata_to_string J (na_metadata ?e) = Ok t" using assms(6) [of "na_metadata ?e"] by (auto simp: isl_def split: sum.splits) (metis sum.exhaust)
  have e: "na_id ?e = fresh_event_id" "na_actor_id ?e = Some (show_int (rc_user_id ctx))"
      "na_outcome ?e = (if is_success (rs_status r) then ''success'' else ''failure'')"
    by (simp_all add: audit_event_def split: prod.split)
  show ?thesis
    using assms(1-5) h t e
    by (auto simp: audit_middleware_def run_handler_def authenticated_audit_subject_def record_access_def audit_record_def persistence_def)
qed

text \<open>
  C11. Mutations leave a trace: a mutating request to a protected path is either refused, with an
  error answer and with users, roles and audit log unchanged, or its handler runs with the context
  of a signed-in user and exactly one event is appended to the audit log, under the tenant and the
  identifier of that user and with the outcome of the answer.
\<close>

theorem mutations_are_audited:
  assumes "service V h fresh_request_id fresh_event_id now again wall rq s = (r, s')"
    and "requires_session (rq_path rq)" and "should_audit (rq_method rq)"
    and "\<forall>row \<in> set (hs_audit s). aw_id row \<noteq> fresh_event_id"
    and "\<forall>u \<in> set (id_users (hs_identity s)). us_tenant_id u \<in> set (id_tenants (hs_identity s))"
    and "\<forall>rq db. set (id_tenants db) \<subseteq> set (id_tenants (snd (h rq db)))"
    and "\<forall>v. \<not> isl (metadata_to_string (se_metadata V) v)"
  shows "rs_error r \<noteq> None \<and> hs_identity s' = hs_identity s \<and> hs_audit s' = hs_audit s
    \<or> (\<exists>rq3 ctx row. rq_context rq3 = Some ctx \<and> h rq3 (hs_identity s) = (r, hs_identity s')
        \<and> hs_audit s' = hs_audit s @ [row] \<and> aw_tenant_id row = rc_tenant_id ctx
        \<and> aw_actor_id row = Some (show_int (rc_user_id ctx))
        \<and> aw_outcome row = (if is_success (rs_status r) then ''success'' else ''failure''))"
  using assms(1,2)
proof (cases rule: service_cases)
  case (handled rq3 ctx u L)
  have "rc_tenant_id ctx \<in> set (id_tenants (snd (h rq3 (hs_identity s))))"
    using handled(4,5) assms(5,6) by (metis subsetD)
  then have "\<exists>row. h rq3 (hs_identity s) = (r, hs_identity s') \<and> hs_audit s' = hs_audit s @ [row]
      \<and> aw_tenant_id row = rc_tenant_id ctx \<and> aw_actor_id row = Some (show_int (rc_user_id ctx))
      \<and> aw_outcome row = (if is_success (rs_status r) then ''success'' else ''failure'')"
    using audit_middleware_records [OF handled(6) _ handled(1)] handled(2) assms(3,4,7) by simp
  with handled(1) show ?thesis by blast
qed blast

definition sample_service :: service_env where
  "sample_service = \<lparr>se_tokens = sample_tokens sample_claims, se_secret = ''s'', se_micros = sample_micros,
     se_metadata = \<lparr>metadata_to_string = (\<lambda>_. Ok ''{}''), metadata_from_str = (\<lambda>_. Ok (JObj []))\<rparr>\<rparr>"

definition accepting_handler :: handler where
  "accepting_handler rq db = (\<lparr>rs_status = 201, rs_error = None\<rparr>, db)"

definition sample_http_state :: http_state where
  "sample_http_state = \<lparr>hs_limits = boot_limits [],
     hs_identity = identity_run sample_identity_env sample_seed (baseline_identity 0), hs_audit = []\<rparr>"

definition sample_post :: request where
  "sample_post = sample_request\<lparr>rq_method := ''POST''\<rparr>"

theorem mutations_are_audited_witness:
  "\<exists>r s' row. service sample_service accepting_handler ''r'' ''a'' 0 0 7 sample_post sample_http_state = (r, s')
     \<and> hs_audit s' = [row] \<and> aw_outcome row = ''success''"
proof -
  let ?run = "service sample_service accepting_handler ''r'' ''a'' 0 0 7 sample_post sample_http_state"
  have ok: "rs_error (fst ?run) = None \<and> rs_status (fst ?run) = 201" by code_simp
  obtain r s' where run: "?run = (r, s')" by fastforce
  have "\<forall>u \<in> set (id_users (hs_identity sample_http_state)). us_tenant_id u \<in> set (id_tenants (hs_identity sample_http_state))"
    by code_simp
  moreover have "requires_session (rq_path sample_post)" "should_audit (rq_method sample_post)"
    using sample_session(1) by (simp_all add: sample_post_def should_audit_def)
  moreover have "hs_audit sample_http_state = []" by (simp add: sample_http_state_def)
  moreover have "\<forall>v. \<not> isl (metadata_to_string (se_metadata sample_service) v)" by (simp add: sample_service_def)
  moreover have "rs_error r = None" "rs_status r = 201" using ok by (simp_all add: run)
  ultimately have "\<exists>row. hs_audit s' = [row] \<and> aw_outcome row = ''success''"
    using mutations_are_audited [OF run] by (auto simp: accepting_handler_def is_success_def)
  with run show ?thesis by blast
qed

end
