(* ===== verification/Web_Targets.thy ===== *)
theory Web_Targets
  imports Http
begin

text \<open>
  Where webhooks may go: \<^verbatim>\<open>crates/backend/src/security.rs\<close> and the sender of
  \<^verbatim>\<open>crates/backend/src/outbound/webhook.rs\<close>. Addresses are machine words. The URL parser, name
  resolution and the HTTP client are parameters; the sender reports the addresses it lets the
  client connect to. Building the client (no redirects, the timeouts) and
  the headers that carry the trace belong to the client: it is given the addresses and the request.
\<close>

unbundle bit_operations_syntax

section \<open>Classification of addresses\<close>

definition octet :: "nat \<Rightarrow> 32 word \<Rightarrow> nat" where
  "octet i ip = unat ip div 256 ^ (3 - i) mod 256"

definition ip_segment :: "nat \<Rightarrow> 128 word \<Rightarrow> nat" where
  "ip_segment i ip = unat ip div 65536 ^ (7 - i) mod 65536"

text \<open>The predicates of the standard library.\<close>

definition v4_is_private :: "32 word \<Rightarrow> bool" where
  "v4_is_private ip \<longleftrightarrow> octet 0 ip = 10 \<or> octet 0 ip = 172 \<and> 16 \<le> octet 1 ip \<and> octet 1 ip \<le> 31
     \<or> octet 0 ip = 192 \<and> octet 1 ip = 168"

definition v4_is_loopback :: "32 word \<Rightarrow> bool" where
  "v4_is_loopback ip \<longleftrightarrow> octet 0 ip = 127"

definition v4_is_link_local :: "32 word \<Rightarrow> bool" where
  "v4_is_link_local ip \<longleftrightarrow> octet 0 ip = 169 \<and> octet 1 ip = 254"

definition v4_is_multicast :: "32 word \<Rightarrow> bool" where
  "v4_is_multicast ip \<longleftrightarrow> 224 \<le> octet 0 ip \<and> octet 0 ip \<le> 239"

definition v6_is_multicast :: "128 word \<Rightarrow> bool" where
  "v6_is_multicast ip \<longleftrightarrow> ip_segment 0 ip AND 0xff00 = 0xff00"

definition is_blocked_ipv4 :: "32 word \<Rightarrow> bool" where
  "is_blocked_ipv4 ip \<longleftrightarrow>
     v4_is_private ip \<or> v4_is_loopback ip \<or> v4_is_link_local ip \<or> ip = 0 \<or> ip = - 1 \<or> v4_is_multicast ip
     \<or> octet 0 ip = 0
     \<or> octet 0 ip = 10
     \<or> octet 0 ip = 100 \<and> 64 \<le> octet 1 ip \<and> octet 1 ip \<le> 127
     \<or> octet 0 ip = 169 \<and> octet 1 ip = 254
     \<or> octet 0 ip = 172 \<and> 16 \<le> octet 1 ip \<and> octet 1 ip \<le> 31
     \<or> octet 0 ip = 192 \<and> octet 1 ip = 168
     \<or> octet 0 ip = 192 \<and> octet 1 ip = 0 \<and> octet 2 ip = 0
     \<or> octet 0 ip = 198 \<and> 18 \<le> octet 1 ip \<and> octet 1 ip \<le> 19
     \<or> 224 \<le> octet 0 ip"

definition is_blocked_ipv6 :: "128 word \<Rightarrow> bool" where
  "is_blocked_ipv6 ip \<longleftrightarrow> ip = 1 \<or> ip = 0 \<or> v6_is_multicast ip
     \<or> ip_segment 0 ip AND 0xfe00 = 0xfc00 \<or> ip_segment 0 ip AND 0xffc0 = 0xfe80"

text \<open>IPv4-mapped and IPv4-compatible addresses stand for the IPv4 address in their last bits.\<close>

fun normalize_ip :: "ip_addr \<Rightarrow> ip_addr" where
  "normalize_ip (V4 ip) = V4 ip"
| "normalize_ip (V6 ip) =
     (if (\<forall>i \<in> {0, 1, 2, 3, 4}. ip_segment i ip = 0) \<and> ip_segment 5 ip \<in> {0, 0xffff}
      then V4 (word_of_nat (((ip_segment 6 ip div 256 * 256 + ip_segment 6 ip mod 256) * 256 + ip_segment 7 ip div 256) * 256
        + ip_segment 7 ip mod 256))
      else V6 ip)"

definition is_blocked_ip :: "ip_addr \<Rightarrow> bool" where
  "is_blocked_ip ip = (case normalize_ip ip of V4 a \<Rightarrow> is_blocked_ipv4 a | V6 a \<Rightarrow> is_blocked_ipv6 a)"

section \<open>Resolved targets\<close>

record socket_addr =
  sa_ip :: ip_addr
  sa_port :: nat

definition normalize_socket_addr :: "socket_addr \<Rightarrow> socket_addr" where
  "normalize_socket_addr a = a\<lparr>sa_ip := normalize_ip (sa_ip a)\<rparr>"

fun collect_addrs :: "string \<Rightarrow> socket_addr list \<Rightarrow> socket_addr list \<Rightarrow> (string, socket_addr list) result" where
  "collect_addrs host [] addrs = Ok addrs"
| "collect_addrs host (a # rest) addrs =
     (let b = normalize_socket_addr a
      in if is_blocked_ip (sa_ip b)
         then Err (''webhook host '' @ host @ '' resolves to a private, loopback, or link-local address'')
         else collect_addrs host rest (if b \<in> set addrs then addrs else addrs @ [b]))"

definition validate_resolved_addrs :: "string \<Rightarrow> socket_addr list \<Rightarrow> (string, socket_addr list) result" where
  "validate_resolved_addrs host resolved =
     rbind (collect_addrs host resolved []) (\<lambda>addrs.
     if addrs = [] then Err (''webhook host '' @ host @ '' did not resolve to any address'') else Ok addrs)"

record url =
  url_scheme :: string
  url_host :: "string option"
  url_port_or_default :: "nat option"

record web_api =
  url_parse :: "string \<Rightarrow> url option"
  lookup_host :: "string \<Rightarrow> nat \<Rightarrow> (string, socket_addr list) result"
  client_post :: "string \<Rightarrow> socket_addr list \<Rightarrow> string \<Rightarrow> (string \<times> string) list \<Rightarrow> json \<Rightarrow> (string, nat) result"

definition validate_public_https_url :: "web_api \<Rightarrow> string \<Rightarrow> string \<Rightarrow> (app_error, url) result" where
  "validate_public_https_url W raw_url field = (case url_parse W raw_url of
      None \<Rightarrow> Err (BadRequest (field @ '' must be a valid HTTPS URL''))
    | Some u \<Rightarrow>
        if url_scheme u \<noteq> ''https'' then Err (BadRequest (field @ '' must use https://''))
        else (case url_host u of
           None \<Rightarrow> Err (BadRequest (field @ '' must include a host''))
         | Some host \<Rightarrow>
             if is_some_and is_blocked_ip (parse_ip (trim_end_matches (CHR '']'') (trim_start_matches (CHR ''['') host)))
             then Err (BadRequest (field @ '' must not target private, loopback, or link-local addresses''))
             else Ok u))"

definition validate_resolved_public_target :: "web_api \<Rightarrow> url \<Rightarrow> (string, socket_addr list) result" where
  "validate_resolved_public_target W u = (case url_host u of
      None \<Rightarrow> Err ''webhook URL must include a host''
    | Some host \<Rightarrow>
        (case lookup_host W host (unwrap_or 443 (url_port_or_default u)) of
           Inl e \<Rightarrow> Err (''failed to resolve webhook host '' @ host @ '': '' @ e)
         | Inr resolved \<Rightarrow> validate_resolved_addrs host resolved))"

section \<open>The sender\<close>

fun show_app_error :: "app_error \<Rightarrow> string" where
  "show_app_error (HttpNotFound m) = ''Resource not found: '' @ m"
| "show_app_error (HttpConflict m) = ''Conflict: '' @ m"
| "show_app_error (BadRequest m) = ''Bad request: '' @ m"
| "show_app_error (UnprocessableEntity m) = ''Unprocessable entity: '' @ m"
| "show_app_error HttpUnauthorized = ''Unauthorized''"
| "show_app_error (HttpForbidden m) = ''Forbidden: '' @ m"
| "show_app_error TooManyRequests = ''Too many requests''"
| "show_app_error (HttpAuth m) = ''Authentication error: '' @ m"
| "show_app_error (HttpPersistence e) = ''Persistence error: '' @ show_persistence_error e"
| "show_app_error (HttpApplication e) = ''Application error: '' @ show_application_error e"
| "show_app_error (HttpSerialization m) = ''Serialization error: '' @ m"
| "show_app_error (HttpZenoh m) = ''Zenoh error: '' @ m"
| "show_app_error (HttpInternal m) = ''Internal error: '' @ m"

text \<open>The second component is what the client is pinned to, when it is asked to connect.\<close>

definition send_webhook ::
  "web_api \<Rightarrow> (nat \<Rightarrow> string) \<Rightarrow> string \<Rightarrow> (string \<times> string) list \<Rightarrow> json \<Rightarrow> string
     \<Rightarrow> (string, unit) result \<times> (string \<times> socket_addr list) option" where
  "send_webhook W show_status u headers payload delivery_id =
     (case validate_public_https_url W u ''webhook url'' of
        Inl e \<Rightarrow> (Err (show_app_error e), None)
      | Inr parsed \<Rightarrow>
          (case validate_resolved_public_target W parsed of
             Inl e \<Rightarrow> (Err e, None)
           | Inr addrs \<Rightarrow>
               (case url_host parsed of
                  None \<Rightarrow> (Err ''webhook url must include a host'', None)
                | Some host \<Rightarrow>
                    (case client_post W host addrs u
                            (headers @ [(''Idempotency-Key'', delivery_id), (''X-Extrittio-Event-ID'', delivery_id)]) payload of
                       Inl e \<Rightarrow> Err e
                     | Inr status \<Rightarrow> if 200 \<le> status \<and> status < 300 then Ok ()
                         else Err (''webhook to '' @ u @ '' returned status '' @ show_status status),
                     Some (host, addrs)))))"

section \<open>The networks that are blocked\<close>

definition blocked_networks_v4 :: "(nat \<times> nat) list" where
  "blocked_networks_v4 =
     [(0, 8), (10 * 2 ^ 24, 8), (100 * 2 ^ 24 + 64 * 2 ^ 16, 10), (127 * 2 ^ 24, 8), (169 * 2 ^ 24 + 254 * 2 ^ 16, 16),
      (172 * 2 ^ 24 + 16 * 2 ^ 16, 12), (192 * 2 ^ 24, 24), (192 * 2 ^ 24 + 168 * 2 ^ 16, 16), (198 * 2 ^ 24 + 18 * 2 ^ 16, 15),
      (224 * 2 ^ 24, 3)]"

definition blocked_networks_v6 :: "(nat \<times> nat) list" where
  "blocked_networks_v6 = [(0xff00 * 2 ^ 112, 8), (0xfc00 * 2 ^ 112, 7), (0xfe80 * 2 ^ 112, 10)]"

definition in_network_v4 :: "32 word \<Rightarrow> nat \<times> nat \<Rightarrow> bool" where
  "in_network_v4 ip n = (drop_bit (32 - snd n) ip = drop_bit (32 - snd n) (word_of_nat (fst n)))"

definition in_network_v6 :: "128 word \<Rightarrow> nat \<times> nat \<Rightarrow> bool" where
  "in_network_v6 ip n = (drop_bit (128 - snd n) ip = drop_bit (128 - snd n) (word_of_nat (fst n)))"

lemma drop_bit_word_eq_iff:
  fixes a :: "'a::len word"
  assumes "b < 2 ^ LENGTH('a)"
  shows "drop_bit k a = drop_bit k (word_of_nat b) \<longleftrightarrow> unat a div 2 ^ k = b div 2 ^ k"
  using assms unfolding word_unat_eq_iff unat_drop_bit_eq by (simp add: drop_bit_eq_div unat_of_nat)

lemma nat_div_iff: "0 < k \<Longrightarrow> n div k = q \<longleftrightarrow> q * k \<le> n \<and> n < Suc q * k" for n k q :: nat
  using div_nat_eqI [of k q n] dividend_less_times_div [of k n] times_div_less_eq_dividend [of k n]
  by (auto simp: mult.commute)

lemma octets:
  fixes ip :: "32 word"
  defines "n \<equiv> unat ip"
  shows "octet 0 ip = n div 2 ^ 24" and "octet 1 ip = n div 2 ^ 16 mod 256" and "octet 2 ip = n div 2 ^ 8 mod 256"
proof -
  have "n < 2 ^ 32" using unsigned_less [of ip] by (simp add: n_def)
  then have "n div 2 ^ 24 < 256" by (simp add: less_mult_imp_div_less)
  then show "octet 0 ip = n div 2 ^ 24" by (simp add: octet_def n_def)
  show "octet 1 ip = n div 2 ^ 16 mod 256" "octet 2 ip = n div 2 ^ 8 mod 256" by (simp_all add: octet_def n_def)
qed

lemma digit_eq: "r < j \<Longrightarrow> t < j \<Longrightarrow> a * j + r = p * j + t \<longleftrightarrow> a = p \<and> r = t" for a j p r t :: nat
  by (metis div_mult_self3 div_less add.right_neutral add_left_cancel less_nat_zero_code)

text \<open>Networks that end inside the second octet.\<close>

lemma octet_network:
  fixes a b j k p t :: nat
  assumes "0 < k" and "b < j * k" and "t < j"
  shows "(a * (j * k) + b) div k = p * j + t \<longleftrightarrow> a = p \<and> t * k \<le> b \<and> b < Suc t * k"
proof -
  have "(a * (j * k) + b) div k = (a * j) + b div k"
    using div_mult_self3 [of k "a * j" b] assms(1) by (simp add: mult.assoc)
  moreover have "b div k < j" using assms(2) by (simp add: less_mult_imp_div_less)
  ultimately have "(a * (j * k) + b) div k = p * j + t \<longleftrightarrow> a = p \<and> b div k = t" using digit_eq assms(3) by simp
  then show ?thesis by (simp only: nat_div_iff [OF assms(1)])
qed

lemma blocked_ipv4_exact: "is_blocked_ipv4 ip \<longleftrightarrow> list_ex (in_network_v4 ip) blocked_networks_v4"
proof -
  define n where "n = unat ip"
  define a where "a = n div 2 ^ 24"
  define b where "b = n div 2 ^ 16 mod 256"
  define c where "c = n div 2 ^ 8 mod 256"
  have h: "n div 2 ^ 16 = a * 256 + b"
    using div_mult2_eq [of n "2 ^ 16" "2 ^ 8"] by (simp add: a_def b_def)
  have q: "n div 2 ^ 8 div 256 = a * 256 + b" using div_mult2_eq [of n "2 ^ 8" "2 ^ 8"] h by simp
  have m: "n div 2 ^ 8 = (a * 256 + b) * 256 + c" unfolding c_def q [symmetric] by (rule div_mult_mod_eq [symmetric])
  have d: "n div 2 ^ (16 + k) = (a * 256 + b) div 2 ^ k" "n div 2 ^ (24 + k) = a div 2 ^ k" for k
    using div_mult2_eq [of n "2 ^ 16" "2 ^ k"] div_mult2_eq [of n "2 ^ 24" "2 ^ k"] h by (simp_all add: a_def power_add)
  have lt: "b < 256" "c < 256" by (simp_all add: b_def c_def)
  have "n < 2 ^ 32" using unsigned_less [of ip] by (simp add: n_def)
  then have "a < 256" by (simp add: a_def less_mult_imp_div_less)
  then have a32: "a div 32 = 7 \<longleftrightarrow> 224 \<le> a" by (simp add: nat_div_iff)
  have net: "in_network_v4 ip (x, l) \<longleftrightarrow> n div 2 ^ (32 - l) = x div 2 ^ (32 - l)" if "x < 2 ^ 32" for x l
    using drop_bit_word_eq_iff [where 'a = 32, of x "32 - l" ip] that by (simp add: in_network_v4_def n_def)
  have net8: "in_network_v4 ip (x * 2 ^ 24, 8) \<longleftrightarrow> a = x" if "x < 256" for x using that by (simp add: net a_def)
  have "in_network_v4 ip (0, 8) \<longleftrightarrow> a = 0" using net8 [of 0] by simp
  moreover have "in_network_v4 ip (100 * 2 ^ 24 + 64 * 2 ^ 16, 10) \<longleftrightarrow> a = 100 \<and> 64 \<le> b \<and> b < 128"
    using octet_network [of 64 b 4 1 a 100] lt(1) d(1) [of 6] by (simp add: net)
  moreover have "in_network_v4 ip (169 * 2 ^ 24 + 254 * 2 ^ 16, 16) \<longleftrightarrow> a = 169 \<and> b = 254"
    using digit_eq [of b 256 254 a 169] lt(1) h by (simp add: net)
  moreover have "in_network_v4 ip (172 * 2 ^ 24 + 16 * 2 ^ 16, 12) \<longleftrightarrow> a = 172 \<and> 16 \<le> b \<and> b < 32"
    using octet_network [of 16 b 16 1 a 172] lt(1) d(1) [of 4] by (simp add: net)
  moreover have "in_network_v4 ip (192 * 2 ^ 24, 24) \<longleftrightarrow> a = 192 \<and> b = 0 \<and> c = 0"
    using digit_eq [of c 256 0 "a * 256 + b" "192 * 256"] digit_eq [of b 256 0 a 192] lt m by (simp add: net)
  moreover have "in_network_v4 ip (192 * 2 ^ 24 + 168 * 2 ^ 16, 16) \<longleftrightarrow> a = 192 \<and> b = 168"
    using digit_eq [of b 256 168 a 192] lt(1) h by (simp add: net)
  moreover have "in_network_v4 ip (198 * 2 ^ 24 + 18 * 2 ^ 16, 15) \<longleftrightarrow> a = 198 \<and> 18 \<le> b \<and> b < 20"
    using octet_network [of 2 b 128 9 a 198] lt(1) d(1) [of 1] by (simp add: net)
  moreover have "in_network_v4 ip (224 * 2 ^ 24, 3) \<longleftrightarrow> 224 \<le> a" using d(2) [of 5] a32 by (simp add: net)
  ultimately have nets: "list_ex (in_network_v4 ip) blocked_networks_v4 \<longleftrightarrow>
      a = 0 \<or> a = 10 \<or> a = 100 \<and> 64 \<le> b \<and> b < 128 \<or> a = 127 \<or> a = 169 \<and> b = 254 \<or> a = 172 \<and> 16 \<le> b \<and> b < 32
      \<or> a = 192 \<and> b = 0 \<and> c = 0 \<or> a = 192 \<and> b = 168 \<or> a = 198 \<and> 18 \<le> b \<and> b < 20 \<or> 224 \<le> a"
    using net8 [of 10] net8 [of 127] by (simp add: blocked_networks_v4_def)
  have special: "ip = 0 \<Longrightarrow> a = 0" "ip = - 1 \<Longrightarrow> 224 \<le> a"
    by (simp_all add: a_def n_def unsigned_minus_1_eq_mask mask_eq_exp_minus_1)
  have oct: "octet 0 ip = a" "octet 1 ip = b" "octet 2 ip = c" unfolding octets a_def b_def c_def n_def by (rule refl)+
  have le: "b \<le> 127 \<longleftrightarrow> b < 128" "b \<le> 31 \<longleftrightarrow> b < 32" "b \<le> 19 \<longleftrightarrow> b < 20" by auto
  show ?thesis
    unfolding nets is_blocked_ipv4_def v4_is_private_def v4_is_loopback_def v4_is_link_local_def v4_is_multicast_def oct le
    using special by argo
qed

section \<open>The same for IPv6\<close>

lemma masked_segment:
  fixes x :: nat
  assumes "x < 2 ^ 16" and "k \<le> 16"
  shows "x AND push_bit k (mask (16 - k)) = push_bit k (drop_bit k x)"
proof (rule bit_eqI)
  fix j
  have "take_bit 16 x = x" using assms(1) by (simp add: take_bit_nat_eq_self_iff)
  then have "bit x j \<Longrightarrow> j < 16" by (metis bit_take_bit_iff)
  then show "bit (x AND push_bit k (mask (16 - k))) j \<longleftrightarrow> bit (push_bit k (drop_bit k x)) j"
    using assms(2) by (auto simp: bit_simps)
qed

lemma segment_mask_iff:
  fixes x :: nat
  assumes "x < 2 ^ 16" and "k \<le> 16" and "m = push_bit k (mask (16 - k))"
  shows "x AND m = c * 2 ^ k \<longleftrightarrow> x div 2 ^ k = c"
  using masked_segment [OF assms(1,2)] assms(3) by (simp add: push_bit_eq_mult drop_bit_eq_div)

lemma first_segment:
  fixes ip :: "128 word"
  shows "ip_segment 0 ip = unat ip div 2 ^ 112" and "ip_segment 0 ip < 2 ^ 16"
proof -
  have "unat ip < 2 ^ 128" using unsigned_less [of ip] by simp
  then have "unat ip div 2 ^ 112 < 65536" by (simp add: less_mult_imp_div_less)
  then show "ip_segment 0 ip = unat ip div 2 ^ 112" "ip_segment 0 ip < 2 ^ 16" by (simp_all add: ip_segment_def)
qed

lemma blocked_ipv6_exact:
  assumes "drop_bit 32 ip \<noteq> 0"
  shows "is_blocked_ipv6 ip \<longleftrightarrow> list_ex (in_network_v6 ip) blocked_networks_v6"
proof -
  have net: "in_network_v6 ip (x * 2 ^ 112, l) \<longleftrightarrow> ip_segment 0 ip div 2 ^ (16 - l) = x div 2 ^ (16 - l)" if "x < 2 ^ 16" "l \<le> 16" for x l
  proof -
    have "128 - l = 112 + (16 - l)" using that(2) by simp
    then have e: "(2::nat) ^ (128 - l) = 2 ^ 112 * 2 ^ (16 - l)" by (simp only: power_add)
    have "x * 2 ^ 112 < 2 ^ 128" using that(1) by simp
    then have "in_network_v6 ip (x * 2 ^ 112, l) \<longleftrightarrow> unat ip div 2 ^ (128 - l) = (x * 2 ^ 112) div 2 ^ (128 - l)"
      using drop_bit_word_eq_iff [where 'a = 128, of "x * 2 ^ 112" "128 - l" ip] by (simp add: in_network_v6_def)
    then show ?thesis by (simp only: e div_mult2_eq first_segment(1)) simp
  qed
  have "ip \<noteq> 0" "ip \<noteq> 1" using assms by auto
  moreover have "ip_segment 0 ip AND 0xff00 = 0xff00 \<longleftrightarrow> in_network_v6 ip (0xff00 * 2 ^ 112, 8)"
    using segment_mask_iff [OF first_segment(2) [of ip], where k = 8 and m = "0xff00" and c = "0xff"] net [of "0xff00" 8]
      by (simp add: push_bit_eq_mult mask_eq_exp_minus_1)
  moreover have "ip_segment 0 ip AND 0xfe00 = 0xfc00 \<longleftrightarrow> in_network_v6 ip (0xfc00 * 2 ^ 112, 7)"
    using segment_mask_iff [OF first_segment(2) [of ip], where k = 9 and m = "0xfe00" and c = "0x7e"] net [of "0xfc00" 7]
      by (simp add: push_bit_eq_mult mask_eq_exp_minus_1)
  moreover have "ip_segment 0 ip AND 0xffc0 = 0xfe80 \<longleftrightarrow> in_network_v6 ip (0xfe80 * 2 ^ 112, 10)"
    using segment_mask_iff [OF first_segment(2) [of ip], where k = 6 and m = "0xffc0" and c = "0x3fa"] net [of "0xfe80" 10]
      by (simp add: push_bit_eq_mult mask_eq_exp_minus_1)
  ultimately show ?thesis unfolding is_blocked_ipv6_def v6_is_multicast_def blocked_networks_v6_def by (simp only: list_ex_iff) auto
qed

text \<open>IPv4-mapped and IPv4-compatible addresses, by their upper 96 bits.\<close>

lemma zero_digits: "(\<forall>i<k. n div B ^ i mod B = 0) \<longleftrightarrow> n mod B ^ k = 0" for n B k :: nat
proof (induction k)
  case (Suc k)
  have "n mod B ^ Suc k = B ^ k * (n div B ^ k mod B) + n mod B ^ k" using mod_mult2_eq [of n "B ^ k" B] by (simp add: mult.commute)
  then show ?case using Suc by (cases "B = 0") (auto simp: less_Suc_eq)
qed simp

lemma embeds_v4_iff:
  fixes a :: "128 word"
  shows "(\<forall>i \<in> {0, 1, 2, 3, 4}. ip_segment i a = 0) \<and> ip_segment 5 a \<in> {0, 0xffff} \<longleftrightarrow> drop_bit 32 a \<in> {0, 0xffff}"
proof -
  define n where "n = unat a"
  define m where "m = n div 65536 ^ 2"
  have "n < 2 ^ 128" using unsigned_less [of a] by (simp add: n_def)
  then have lt: "m div 65536 < 65536 ^ 5" by (simp add: m_def less_mult_imp_div_less)
  have seg: "ip_segment i a = m div 65536 div 65536 ^ (4 - i) mod 65536" if "i \<le> 4" for i
  proof -
    have "7 - i = 2 + (1 + (4 - i))" using that by simp
    then have "65536 ^ (7 - i) = 65536 ^ 2 * (65536 * 65536 ^ (4 - i) :: nat)" by (simp only: power_add power_one_right)
    then show ?thesis unfolding ip_segment_def m_def n_def by (simp only: div_mult2_eq)
  qed
  have seg5: "ip_segment 5 a = m mod 65536" by (simp add: ip_segment_def m_def n_def)
  have "(\<forall>i \<in> {0, 1, 2, 3, 4}. ip_segment i a = 0) \<longleftrightarrow> (\<forall>j<5. m div 65536 div 65536 ^ j mod 65536 = 0)"
  proof -
    have "(\<forall>j<5. P j) \<longleftrightarrow> (\<forall>i \<in> {0, 1, 2, 3, 4 :: nat}. P (4 - i))" for P :: "nat \<Rightarrow> bool"
      by (auto simp: eval_nat_numeral less_Suc_eq)
    then show ?thesis by (simp add: seg)
  qed
  then have "(\<forall>i \<in> {0, 1, 2, 3, 4}. ip_segment i a = 0) \<longleftrightarrow> m div 65536 = 0"
    using zero_digits [of 5 "m div 65536" 65536] lt by simp
  then have "(\<forall>i \<in> {0, 1, 2, 3, 4}. ip_segment i a = 0) \<and> ip_segment 5 a \<in> {0, 0xffff} \<longleftrightarrow> m \<in> {0, 0xffff}"
    using seg5 by auto
  moreover have "drop_bit 32 a = c \<longleftrightarrow> m = unat c" for c
    unfolding word_unat_eq_iff unat_drop_bit_eq by (simp add: drop_bit_eq_div m_def n_def)
  ultimately show ?thesis by simp
qed

lemma embedded_v4:
  "word_of_nat (((ip_segment 6 a div 256 * 256 + ip_segment 6 a mod 256) * 256 + ip_segment 7 a div 256) * 256 + ip_segment 7 a mod 256)
     = (ucast a :: 32 word)"
proof -
  have "unat a mod 2 ^ 32 = ip_segment 6 a * 65536 + ip_segment 7 a"
    using mod_mult2_eq [of "unat a" 65536 65536] by (simp add: ip_segment_def)
  then have e: "((ip_segment 6 a div 256 * 256 + ip_segment 6 a mod 256) * 256 + ip_segment 7 a div 256) * 256 + ip_segment 7 a mod 256
      = unat a mod 2 ^ 32" by simp
  show ?thesis unfolding e by (simp add: word_unat_eq_iff unat_of_nat unsigned_ucast_eq take_bit_eq_mod)
qed

section \<open>What the policy blocks\<close>

fun blocked_address :: "ip_addr \<Rightarrow> bool" where
  "blocked_address (V4 a) = list_ex (in_network_v4 a) blocked_networks_v4"
| "blocked_address (V6 a) =
     (if drop_bit 32 a \<in> {0, 0xffff} then list_ex (in_network_v4 (ucast a)) blocked_networks_v4
      else list_ex (in_network_v6 a) blocked_networks_v6)"

lemma normalize_ip_V6: "normalize_ip (V6 a) = (if drop_bit 32 a \<in> {0, 0xffff} then V4 (ucast a) else V6 a)"
  by (simp only: normalize_ip.simps embeds_v4_iff embedded_v4)

lemma is_blocked_ip_iff: "is_blocked_ip ip \<longleftrightarrow> blocked_address ip"
proof (cases ip)
  case (V4 a)
  then show ?thesis by (simp add: is_blocked_ip_def blocked_ipv4_exact)
next
  case (V6 a)
  then show ?thesis
    using blocked_ipv6_exact [of a] by (simp add: is_blocked_ip_def normalize_ip_V6 blocked_ipv4_exact del: normalize_ip.simps)
qed

lemma normalize_ip_idem: "normalize_ip (normalize_ip ip) = normalize_ip ip"
  by (cases ip) (simp_all add: normalize_ip_V6 del: normalize_ip.simps(2))

text \<open>C13. The address check refuses exactly the networks it means to: an IPv4 address is blocked if and
  only if it lies in one of ten CIDR blocks (this network, the private ranges, shared address space,
  loopback, link-local, the IETF block, benchmarking, multicast and reserved); an IPv6 address that embeds an
  IPv4 address, mapped or compatible, is judged by the embedded address; every other one is blocked if and
  only if it is multicast, unique local or link-local.\<close>

theorem blocked_addresses_exact: "is_blocked_ip ip \<longleftrightarrow> blocked_address ip"
  by (rule is_blocked_ip_iff)

section \<open>Where the client may connect\<close>

lemma collect_addrs_Ok:
  "collect_addrs host resolved addrs = Ok res \<Longrightarrow>
     set res = set addrs \<union> normalize_socket_addr ` set resolved \<and> (distinct addrs \<longrightarrow> distinct res)
     \<and> (\<forall>a \<in> set resolved. \<not> is_blocked_ip (sa_ip (normalize_socket_addr a)))"
proof (induction host resolved addrs rule: collect_addrs.induct)
  case (2 host a rest addrs)
  then have "\<not> is_blocked_ip (sa_ip (normalize_socket_addr a))"
    and "collect_addrs host rest (if normalize_socket_addr a \<in> set addrs then addrs else addrs @ [normalize_socket_addr a]) = Ok res"
    by (simp_all add: Let_def split: if_splits)
  with 2(1) [OF refl] show ?case by (auto split: if_splits)
qed auto

lemma validate_resolved_addrs_Ok:
  assumes "validate_resolved_addrs host resolved = Ok addrs"
  shows "addrs \<noteq> []" and "distinct addrs" and "set addrs = normalize_socket_addr ` set resolved"
    and "\<And>a. a \<in> set addrs \<Longrightarrow> \<not> blocked_address (sa_ip a)"
  using assms collect_addrs_Ok [of host resolved "[]" addrs]
  by (auto simp: validate_resolved_addrs_def rbind_Inr_iff is_blocked_ip_iff split: if_splits)

text \<open>C12. Server-side request forgery is ruled out. Whenever a webhook is sent, its URL parsed as
  https, and the client is pinned, for the host of the URL, to a non-empty list of distinct addresses none of which lies in
  a blocked network, however IPv6 spells it; the list is exactly what the host resolved to, with embedded IPv4
  addresses unwrapped, so that a single blocked answer stops the delivery. Without all this the
  client is not asked to connect.\<close>

theorem webhooks_reach_public_addresses_only:
  assumes "send_webhook W show_status u headers payload delivery_id = (r, Some (host, addrs))"
  shows "\<exists>parsed resolved. url_parse W u = Some parsed \<and> url_scheme parsed = ''https'' \<and> url_host parsed = Some host
      \<and> lookup_host W host (unwrap_or 443 (url_port_or_default parsed)) = Ok resolved
      \<and> set addrs = normalize_socket_addr ` set resolved
      \<and> list_all (\<lambda>a. \<not> blocked_address (sa_ip a)) (resolved @ addrs)
      \<and> addrs \<noteq> [] \<and> distinct addrs"
proof -
  from assms obtain parsed where p: "validate_public_https_url W u ''webhook url'' = Ok parsed"
      and t: "validate_resolved_public_target W parsed = Ok addrs" and h: "url_host parsed = Some host"
    by (auto simp: send_webhook_def split: sum.splits option.splits)
  from t h obtain resolved where l: "lookup_host W host (unwrap_or 443 (url_port_or_default parsed)) = Ok resolved"
      and v: "validate_resolved_addrs host resolved = Ok addrs"
    by (auto simp: validate_resolved_public_target_def split: sum.splits)
  note ok = validate_resolved_addrs_Ok [OF v]
  have "\<not> blocked_address (sa_ip a)" if "a \<in> set resolved" for a
    using ok(4) [of "normalize_socket_addr a"] that ok(3)
    by (simp add: normalize_socket_addr_def is_blocked_ip_iff [symmetric] is_blocked_ip_def normalize_ip_idem)
  with p h l ok show ?thesis
    by (auto simp: validate_public_https_url_def list_all_iff split: option.splits if_splits)
qed

definition sample_web :: web_api where
  "sample_web = \<lparr>url_parse = (\<lambda>u. Some \<lparr>url_scheme = ''https'', url_host = Some ''hooks.example.org'', url_port_or_default = Some 443\<rparr>),
     lookup_host = (\<lambda>host port. Ok [\<lparr>sa_ip = V4 0x5DB8D822, sa_port = port\<rparr>, \<lparr>sa_ip = V6 (0xffff * 2 ^ 32 + 0x5DB8D822), sa_port = port\<rparr>]),
     client_post = (\<lambda>host addrs u headers payload. Ok 204)\<rparr>"

theorem webhooks_reach_public_addresses_only_witness:
  "send_webhook sample_web (\<lambda>_. ''500'') ''https://hooks.example.org/alerts'' [] JNull ''delivery-1''
       = (Ok (), Some (''hooks.example.org'', [\<lparr>sa_ip = V4 0x5DB8D822, sa_port = 443\<rparr>]))
   \<and> (\<exists>parsed resolved. url_parse sample_web ''https://hooks.example.org/alerts'' = Some parsed
      \<and> lookup_host sample_web ''hooks.example.org'' (unwrap_or 443 (url_port_or_default parsed)) = Ok resolved
      \<and> normalize_socket_addr ` set resolved = {\<lparr>sa_ip = V4 0x5DB8D822, sa_port = 443\<rparr>}
      \<and> list_all (\<lambda>a. \<not> blocked_address (sa_ip a)) resolved)"
proof -
  have sent: "send_webhook sample_web (\<lambda>_. ''500'') ''https://hooks.example.org/alerts'' [] JNull ''delivery-1''
      = (Ok (), Some (''hooks.example.org'', [\<lparr>sa_ip = V4 0x5DB8D822, sa_port = 443\<rparr>]))"
    by code_simp
  from webhooks_reach_public_addresses_only [OF sent] show ?thesis using sent by auto
qed

end
