(* ===== verification/Spec2Isabelle.thy ===== *)
theory Spec2Isabelle
  imports Topics Shadow Geo Outbox_Delivery Redelivery Compatibility
    Http_Service Web_Targets
begin

text \<open>
  A verification of the core of Extrittio, a self-hosted platform that ingests telemetry from
  devices, evaluates rules on it, keeps a shadow of each device's state and describes devices by
  blueprints that are validated and compiled into contracts. All paths below are under
  \<^verbatim>\<open>src/crates/\<close>.

  \<^bold>\<open>The parts and how they interact.\<close> A message arrives on a topic (\<^verbatim>\<open>common/src/topics.rs\<close>), is
  decoded according to the device's contract (\<^verbatim>\<open>device-contract\<close>), and becomes a plan for the
  rules of its tenant (\<^verbatim>\<open>backend-core/src/rule_snapshots.rs\<close>). Inside one write transaction the
  database adapter loads the device's open alerts, cooldowns and zone entries, asks the core for a
  decision and writes the state back (\<^verbatim>\<open>backend-turso/src/rule_runtime.rs\<close>); the decision is the
  work of the evaluators (\<^verbatim>\<open>rule-engine/src/evaluate.rs\<close>). Alerts, webhooks and commands leave
  through an outbox whose events are encoded in \<^verbatim>\<open>backend-core/src/rule_actions.rs\<close> and which
  workers drain under leases (\<^verbatim>\<open>backend-turso/src/outbox.rs\<close>). Shadows
  (\<^verbatim>\<open>backend-core/src/shadows.rs\<close>) are patched by operators and devices.

  \<^bold>\<open>Foundations.\<close> \<open>Prelude\<close> has results and the lemma collections. \<open>Rust_Str\<close> has the
  operations on strings and integers of the standard library the sources call. \<open>F64\<close> is IEEE
  double precision: a datatype of values with rational payloads and a rounding function, with the
  laws of rounding the comparisons need. \<open>BTree\<close> is the ordered map, an interface locale
  interpreted on strictly sorted association lists. \<open>Json\<close> is the value type of documents.

  \<^bold>\<open>Topics and shadows.\<close> \<open>Topics\<close> models \<^verbatim>\<open>topics.rs\<close>, \<^verbatim>\<open>device_status.rs\<close> and \<^verbatim>\<open>ota.rs\<close>:
  each extractor inverts its constructor and accepts nothing else. \<open>Shadow\<close> models the mutations of
  \<^verbatim>\<open>shadows.rs\<close>: the delta is the exact difference of desired and reported state, reporting it
  brings the device in sync, histories keep the version and the delta consistent, and clearing an
  update touches only its own deployment.

  \<^bold>\<open>Rules.\<close> \<open>Rule_Number\<close> (\<^verbatim>\<open>number.rs\<close>, \<^verbatim>\<open>metric.rs\<close>), \<open>Geo\<close> (\<^verbatim>\<open>geo.rs\<close>), \<open>Rule_Model\<close>
  (\<^verbatim>\<open>model.rs\<close>, \<^verbatim>\<open>types.rs\<close>, \<^verbatim>\<open>compiler.rs\<close>), \<open>Rule_Cache\<close> (\<^verbatim>\<open>cache.rs\<close>) and \<open>Rule_Eval\<close>
  (\<^verbatim>\<open>evaluate.rs\<close>) follow the crate \<^verbatim>\<open>rule-engine\<close>, one definition per function, with the body of
  each evaluator's loop as a definition of its own. The three evaluators interpret one locale, the
  contract of an alerting rule, from which scope, cooldown discipline and the shared life cycle of
  alerts are proved once. \<open>Rule_Decision\<close> models the decision and its encoding for the outbox, and proves
  that the outbox carries deliveries and never runtime state,
  \<open>Rule_Runtime\<close> the transaction over tables as lists of rows, and a step relation over which
  alerts of one rule and device are shown to keep their cooldown.

  \<^bold>\<open>Permissions and the outbox.\<close> \<open>Access\<close> models \<^verbatim>\<open>backend-core/src/context.rs\<close>, the errors and
  \<^verbatim>\<open>require_permission\<close>: which keys let a request through. \<open>Outbox\<close> models the table, its unique index
  and the statements of \<^verbatim>\<open>backend-turso/src/outbox.rs\<close>, with the use cases of
  \<^verbatim>\<open>application/outbox.rs\<close> on top; the clock and fresh identifiers are arguments. \<open>Outbox_Protocol\<close>
  has histories of its operations and their invariant. \<open>Outbox_Delivery\<close> proves that a lease is
  settled at most once and is fenced after a takeover, that claims deliver every event that is due
  and serve every tenant, and that duplicates among dead letters block their replay.

  \<^bold>\<open>Alerts.\<close> \<open>Alerts\<close> models the repository of alerts and its use cases: the transitions an alert
  admits, creation with a receipt per delivery, bulk transitions and retention. \<open>Alert_Protocol\<close>
  has histories that mix them with evaluations, and proves that a rule has at most one open alert
  on a device and that a delivery is applied once.

  \<^bold>\<open>Commands and the delivery of actions.\<close> \<open>Commands\<close> models the command history, the worker that
  applies answers and timeouts, and sending with its validation against the contract assigned to
  the device (\<^verbatim>\<open>application/commands.rs\<close>, \<^verbatim>\<open>backend-turso/src/commands.rs\<close>). \<open>Command_Protocol\<close> proves
  that outcomes are final and that whatever reaches the bus follows the contract. \<open>Rule_Delivery\<close>
  models \<^verbatim>\<open>application/rule_delivery.rs\<close> over the tables of the outbox, alerts and commands together,
  and proves that a delivery stays inside its tenant and that a resolution cannot be delivered again.
  \<open>Redelivery\<close> has histories of the whole system (work on alerts, commands and the outbox, new contracts,
  deliveries) and proves that alerts and commands can: whatever happens between two executions and
  whatever the network answers, the second one adds nothing. The answer of the network to a message
  is an argument of the call that sends it, so that two calls may be answered differently.

  \<^bold>\<open>Users and roles.\<close> \<open>Identity\<close> models the repositories of users and roles, their use cases, login and
  the seeding of the first owner (\<^verbatim>\<open>application/{users,roles,bootstrap}.rs\<close> over
  \<^verbatim>\<open>backend-turso/src/{users,roles,bootstrap}.rs\<close>). \<open>Identity_Protocol\<close> has histories of their requests
  from the tables of the baseline migration, their invariant, and the locale that lifts a relation
  respected by every store operation to histories. \<open>Lockout\<close> proves that a tenant with an owner
  always keeps an active user with every permission.

  \<^bold>\<open>Sessions and the HTTP frame.\<close> \<open>Http\<close> has requests as the middleware of \<^verbatim>\<open>backend/src/middleware.rs\<close>
  sees them, the claims of a token, the authenticated context (\<^verbatim>\<open>auth/context.rs\<close>, \<^verbatim>\<open>auth/policy.rs\<close>) and
  the translation of errors into responses (\<^verbatim>\<open>error.rs\<close>). \<open>Session\<close> models authentication and the routes of
  \<^verbatim>\<open>domains/identity/auth_routes.rs\<close>, and proves that a request is allowed exactly what the roles of its
  user grant at that moment. \<open>Revocation\<close> proves, with the locale of \<open>Identity_Protocol\<close>, that ended
  sessions stay ended and that a login begins a session.

  \<^bold>\<open>The request pipeline and auditing.\<close> \<open>Http_Limits\<close> models the middleware of
  \<^verbatim>\<open>rate_limit.rs\<close> with the limits of \<^verbatim>\<open>app/boot.rs\<close>: the address of a client behind proxies cannot be
  chosen by the client, and requests are bounded per session and address. \<open>Http_Service\<close> models the audit
  log (\<^verbatim>\<open>backend-core/src/audit.rs\<close>, \<^verbatim>\<open>backend-turso/src/audit.rs\<close>) and composes request identifiers, limits,
  authentication, auditing and an arbitrary handler in the order of \<^verbatim>\<open>app/http.rs\<close>; every authenticated
  mutation leaves one audit row.

  \<^bold>\<open>Webhook targets.\<close> \<open>Web_Targets\<close> models \<^verbatim>\<open>backend/src/security.rs\<close> and the sender of
  \<^verbatim>\<open>outbound/webhook.rs\<close> with addresses as machine words. The blocked addresses are shown to be exactly a
  list of CIDR networks, and the client is only ever pinned to addresses outside them.

  \<^bold>\<open>Rate limiting.\<close> \<open>Net\<close> has the parsing and printing of addresses and the networks of trusted
  proxies, \<open>Sliding_Window\<close> the two limiters of \<^verbatim>\<open>backend/src/rate_limit.rs\<close>: one locale, interpreted on
  both, shows that no window is overrun and that requests are refused only for a reason.

  \<^bold>\<open>Contracts.\<close> \<open>Blueprint_Model\<close> has the data of \<^verbatim>\<open>model.rs\<close>. \<open>Schema\<close> models the bounded schema
  profile of \<^verbatim>\<open>schema.rs\<close> and proves that instance validation decides a declarative conformance
  relation, and up to which integer a maximum is exact. \<open>Validation\<close> models every check of \<^verbatim>\<open>validate_blueprint\<close> with its issue, and proves
  that a blueprint is accepted exactly when it satisfies the declarative predicate
  \<open>blueprint_valid\<close>. \<open>Canonical\<close> models canonical JSON and the text form of contract hashes.
  \<open>Contract_Compiler\<close> models \<^verbatim>\<open>compiler.rs\<close>: failures and the panics of \<^verbatim>\<open>expect\<close> are separate
  values, panics are shown unreachable on validated blueprints, success is characterised, and routes
  are confined to their device. \<open>Contract_Document\<close> proves what issued documents promise (transports, schemas, routes, streams and
  metrics that the document refers to are in it, the hash verifies, the configuration is the layered merge, locations are read only as
  declared). \<open>Compatibility\<close> models \<^verbatim>\<open>compatibility.rs\<close>, proves that the comparison decides a
  declarative rule of substitution, that the rule composes along revisions, and that it preserves
  the routes and streams of compiled contracts.

  \<^bold>\<open>Parameters.\<close> Code outside the repository is an argument of the definitions that use it: the
  calendar arithmetic of chrono (\<open>clock_api\<close>, \<open>micros_api\<close>), the trigonometric functions
  (\<open>libm\<close>), serialization and digests (\<open>serde_api\<close>, \<open>serialize_api\<close>, \<open>text_api\<close>), the
  decoding of stored contracts (\<open>command_api\<close>, \<open>delivery_api\<close>), what the message bus or a webhook's receiver
  answers to one message (\<open>network_answer\<close>), the password hasher
  (\<open>hasher_api\<close>), the token library as it answers at the time of a call, expiry included (\<open>token_api\<close>), the text of audit metadata (\<open>metadata_text\<close>), the URL
  parser, name resolution and the HTTP client (\<open>web_api\<close>), and the handlers of the service. What a theorem needs of them
  is among its hypotheses, and its witness instantiates them. Time is an integer number of the
  clock's units.

  \<^bold>\<open>Bounds and termination.\<close> No definition uses fuel: every recursion is structural or has a
  measure. The depth limit of schemas is the one in the source. Integers that the source bounds
  (versions, columns, durations, JSON numbers) carry the bound in the definition; the other
  integers only occur in comparisons.

  \<^bold>\<open>Not modelled.\<close> The routes and handlers of the HTTP service other than login, its headers, metrics and
  user interface, background tasks and broker connections, both SQL adapters apart from the rule
  runtime transaction, the outbox, alerts, commands, users, roles and the audit log, the OpenThread runtime, the command line
  tool, the user interfaces and the device clients: their behaviour is input and output around the
  core, or is SQL text executed by an external engine. The functions of the evaluator that only
  read the system clock are represented by the ones that take the time.
\<close>

end
